(* ===== verification/Prelude.thy ===== *)
theory Prelude
  imports "HOL-Library.Word"
begin

text \<open>
  What every component of the model shares: the machine integers of the target (a 32-bit
  ARM core, so \<open>usize\<close> is 32 bits wide), C pointers, slices and fixed-size buffers,
  little-endian byte codecs (Rust's \<open>to_le_bytes\<close> and \<open>from_le_bytes\<close>), the result codes
  of the C API, and the rewrite collections the component proofs use.

  A C pointer is \<open>None\<close> for null and otherwise the function from offsets to the objects
  it points at, so a slice of \<open>n\<close> objects is \<open>from_raw_parts p n\<close> and always has length
  \<open>n\<close>, as \<open>core::slice::from_raw_parts\<close> promises (that the memory is readable is the C
  caller's obligation).
\<close>

unbundle bit_operations_syntax

section \<open>Machine integers and result codes\<close>

type_synonym u8 = "8 word"
type_synonym i8 = "8 word"
type_synonym u16 = "16 word"
type_synonym u32 = "32 word"
type_synonym u64 = "64 word"
type_synonym usize = "32 word"
type_synonym c_int = int
type_synonym 'a ptr = "(nat \<Rightarrow> 'a) option"

definition usize_MAX :: usize where
  "usize_MAX = -1"

definition RUNTIME_BLE_OK :: c_int where "RUNTIME_BLE_OK = 0"
definition RUNTIME_BLE_ERR_INVALID :: c_int where "RUNTIME_BLE_ERR_INVALID = -1"
definition RUNTIME_BLE_ERR_NO_MEM :: c_int where "RUNTIME_BLE_ERR_NO_MEM = -2"
definition RUNTIME_BLE_ERR_MPSL :: c_int where "RUNTIME_BLE_ERR_MPSL = -3"
definition RUNTIME_BLE_ERR_SDC :: c_int where "RUNTIME_BLE_ERR_SDC = -4"
definition RUNTIME_BLE_ERR_ABI :: c_int where "RUNTIME_BLE_ERR_ABI = -6"
definition RUNTIME_BLE_LOAD_PENDING :: c_int where "RUNTIME_BLE_LOAD_PENDING = 1"
definition RUNTIME_BLE_ABI_VERSION :: u32 where "RUNTIME_BLE_ABI_VERSION = 1"

lemmas result_codes =
  RUNTIME_BLE_OK_def RUNTIME_BLE_ERR_INVALID_def RUNTIME_BLE_ERR_NO_MEM_def
  RUNTIME_BLE_ERR_MPSL_def RUNTIME_BLE_ERR_SDC_def RUNTIME_BLE_ERR_ABI_def
  RUNTIME_BLE_LOAD_PENDING_def

section \<open>Pointers, slices and buffers\<close>

definition is_null :: "'a ptr \<Rightarrow> bool" where
  "is_null p \<longleftrightarrow> p = None"

definition from_raw_parts :: "(nat \<Rightarrow> 'a) \<Rightarrow> nat \<Rightarrow> 'a list" where
  "from_raw_parts m n = map m [0..<n]"

text \<open>The slice a possibly null pointer and a length denote where the code falls back to
  the empty slice.\<close>

definition slice_or_empty :: "'a ptr \<Rightarrow> nat \<Rightarrow> 'a list" where
  "slice_or_empty p n = (case p of None \<Rightarrow> [] | Some m \<Rightarrow> from_raw_parts m n)"

lemma is_null_simps [simp]: "is_null None" "\<not> is_null (Some m)"
  by (simp_all add: is_null_def)

lemma length_from_raw_parts [simp]: "length (from_raw_parts m n) = n"
  by (simp add: from_raw_parts_def)

lemma nth_from_raw_parts [simp]: "i < n \<Longrightarrow> from_raw_parts m n ! i = m i"
  by (simp add: from_raw_parts_def)

lemma from_raw_parts_0 [simp]: "from_raw_parts m 0 = []"
  by (simp add: from_raw_parts_def)

lemma take_from_raw_parts [simp]: "take k (from_raw_parts m n) = from_raw_parts m (min k n)"
  by (simp add: from_raw_parts_def take_map take_upt min_def)

lemma from_raw_parts_nth: "from_raw_parts (\<lambda>i. xs ! i) (length xs) = xs"
  by (simp add: from_raw_parts_def map_nth)

lemma from_raw_parts_nth_take: "n \<le> length xs \<Longrightarrow> from_raw_parts (\<lambda>i. xs ! i) n = take n xs"
  by (auto simp: from_raw_parts_def intro: nth_equalityI)

text \<open>\<open>buf[off..off + len].copy_from_slice(xs)\<close>, in range.\<close>

definition blit :: "'a list \<Rightarrow> nat \<Rightarrow> 'a list \<Rightarrow> 'a list" where
  "blit buf off xs = take off buf @ xs @ drop (off + length xs) buf"

lemma length_blit [simp]: "off + length xs \<le> length buf \<Longrightarrow> length (blit buf off xs) = length buf"
  by (simp add: blit_def)

lemma take_blit_0 [simp]: "take (length xs) (blit buf 0 xs) = xs"
  by (simp add: blit_def)

lemma take_blit_0' : "n = length xs \<Longrightarrow> take n (blit buf 0 xs) = xs"
  by simp

lemma take_blit_raw [simp]:
  "n \<le> k \<Longrightarrow> take n (blit buf 0 (from_raw_parts m k)) = from_raw_parts m n"
  by (simp add: blit_def min_def)

lemma take_blit_end:
  "off \<le> length buf \<Longrightarrow> n = off + length xs \<Longrightarrow> take n (blit buf off xs) = take off buf @ xs"
  by (simp add: blit_def)

lemma take_blit_before: "n \<le> off \<Longrightarrow> off \<le> length buf \<Longrightarrow> take n (blit buf off xs) = take n buf"
  by (simp add: blit_def min_def)

section \<open>Byte codecs\<close>

named_theorems le_codec

text \<open>The first \<open>n\<close> bytes of a word, least significant first, and the word they denote.\<close>

definition le_bytes :: "nat \<Rightarrow> 'a::len word \<Rightarrow> u8 list" where
  "le_bytes n w = map (\<lambda>i. ucast (drop_bit (8 * i) w)) [0..<n]"

primrec le_word :: "u8 list \<Rightarrow> 'a::len word" where
  "le_word [] = 0"
| "le_word (b # bs) = ucast b OR push_bit 8 (le_word bs)"

lemma length_le_bytes [simp]: "length (le_bytes n w) = n"
  by (simp add: le_bytes_def)

lemma bit_le_word:
  "bit (le_word bs :: 'a::len word) k \<longleftrightarrow>
     k < LENGTH('a) \<and> k div 8 < length bs \<and> bit (bs ! (k div 8)) (k mod 8)"
proof (induction bs arbitrary: k)
  case Nil
  then show ?case by simp
next
  case (Cons b bs)
  show ?case
  proof (cases "k < 8")
    case True
    then show ?thesis by (auto simp: bit_simps)
  next
    case False
    then have "k div 8 = Suc ((k - 8) div 8)" "k mod 8 = (k - 8) mod 8"
      by (simp_all add: le_div_geq le_mod_geq)
    moreover have "\<not> bit b k"
      using False by (auto dest: bit_imp_le_length)
    ultimately show ?thesis
      using False Cons.IH[of "k - 8"] by (auto simp: bit_simps)
  qed
qed

lemma le_word_le_bytes [le_codec]:
  assumes "LENGTH('a) \<le> 8 * n"
  shows "le_word (le_bytes n (w :: 'a::len word)) = w"
proof (rule bit_word_eqI)
  fix k assume k: "k < LENGTH('a)"
  have "k div 8 < n" using k assms by auto
  moreover have "8 * (k div 8) + k mod 8 = k" by simp
  ultimately show "bit (le_word (le_bytes n w) :: 'a word) k = bit w k"
    using k by (simp add: bit_le_word le_bytes_def bit_simps)
qed

lemma le_bytes_le_word [le_codec]:
  assumes "length bs = n" "8 * n \<le> LENGTH('a)"
  shows "le_bytes n (le_word bs :: 'a::len word) = bs"
proof (rule nth_equalityI)
  show "length (le_bytes n (le_word bs :: 'a word)) = length bs" using assms by simp
next
  fix i assume "i < length (le_bytes n (le_word bs :: 'a word))"
  then have i: "i < n" by simp
  show "le_bytes n (le_word bs :: 'a word) ! i = bs ! i"
  proof (rule bit_word_eqI)
    fix k assume k: "k < LENGTH(8)"
    then have "(8 * i + k) div 8 = i" "(8 * i + k) mod 8 = k" "8 * i + k < LENGTH('a)"
      using i assms by auto
    then show "bit (le_bytes n (le_word bs :: 'a word) ! i) k = bit (bs ! i) k"
      using i k assms by (simp add: le_bytes_def bit_simps bit_le_word)
  qed
qed

text \<open>\<open>u16::to_le_bytes\<close> and \<open>u16::from_le_bytes\<close>.\<close>

definition u16_to_le_bytes :: "u16 \<Rightarrow> u8 list" where
  "u16_to_le_bytes w = le_bytes 2 w"

definition u16_from_le_bytes :: "u8 \<Rightarrow> u8 \<Rightarrow> u16" where
  "u16_from_le_bytes a b = le_word [a, b]"

lemma length_u16_to_le_bytes [simp]: "length (u16_to_le_bytes w) = 2"
  by (simp add: u16_to_le_bytes_def)

lemma u16_to_le_bytes_ne [simp]: "u16_to_le_bytes w \<noteq> []"
  by (metis length_u16_to_le_bytes list.size(3) zero_neq_numeral)

lemma u16_le_roundtrip [le_codec]:
  "u16_from_le_bytes (u16_to_le_bytes w ! 0) (u16_to_le_bytes w ! 1) = w"
proof -
  have "[u16_to_le_bytes w ! 0, u16_to_le_bytes w ! 1] = le_bytes 2 w"
    by (simp add: u16_to_le_bytes_def le_bytes_def upt_rec)
  then show ?thesis
    by (simp add: u16_from_le_bytes_def le_word_le_bytes del: le_word.simps)
qed

section \<open>Masks as single bits\<close>

text \<open>The code tests bits with masks; the proofs read them as \<^const>\<open>bit\<close>.\<close>

named_theorems mask_bits

lemma and_mask_bit [mask_bits]:
  "w AND 1 = 0 \<longleftrightarrow> \<not> bit w 0" "w AND 2 = 0 \<longleftrightarrow> \<not> bit w 1"
  "w AND 4 = 0 \<longleftrightarrow> \<not> bit w 2" "w AND 8 = 0 \<longleftrightarrow> \<not> bit w 3"
  "w AND 16 = 0 \<longleftrightarrow> \<not> bit w 4" "w AND 32 = 0 \<longleftrightarrow> \<not> bit w 5"
  "w AND 64 = 0 \<longleftrightarrow> \<not> bit w 6" "w AND 128 = 0 \<longleftrightarrow> \<not> bit w 7"
  for w :: "'a::len word"
  using and_exp_eq_0_iff_not_bit[of w 0] and_exp_eq_0_iff_not_bit[of w 1]
    and_exp_eq_0_iff_not_bit[of w 2] and_exp_eq_0_iff_not_bit[of w 3]
    and_exp_eq_0_iff_not_bit[of w 4] and_exp_eq_0_iff_not_bit[of w 5]
    and_exp_eq_0_iff_not_bit[of w 6] and_exp_eq_0_iff_not_bit[of w 7]
  by simp_all

text \<open>Equality of bytes and of 16-bit words, bit by bit.\<close>

lemma all_less_8: "(\<forall>n < (8::nat). P n) \<longleftrightarrow> P 0 \<and> P 1 \<and> P 2 \<and> P 3 \<and> P 4 \<and> P 5 \<and> P 6 \<and> P 7"
  by (simp add: numeral_eq_Suc All_less_Suc) blast

lemma all_less_16:
  "(\<forall>n < (16::nat). P n) \<longleftrightarrow> P 0 \<and> P 1 \<and> P 2 \<and> P 3 \<and> P 4 \<and> P 5 \<and> P 6 \<and> P 7 \<and>
     P 8 \<and> P 9 \<and> P 10 \<and> P 11 \<and> P 12 \<and> P 13 \<and> P 14 \<and> P 15"
  by (simp add: numeral_eq_Suc All_less_Suc) blast

lemma u8_eq_bits: "v = w \<longleftrightarrow> (\<forall>n < 8. bit v n \<longleftrightarrow> bit w n)" for v w :: u8
  using bit_word_eqI[of v w] by auto

lemma u8_le_1: "b \<le> 1 \<longleftrightarrow> b = 0 \<or> b = 1" for b :: u8
  by (auto simp: word_le_nat_alt word_unat_eq_iff)

lemma u16_eq_bits: "v = w \<longleftrightarrow> (\<forall>n < 16. bit v n \<longleftrightarrow> bit w n)" for v w :: u16
  using bit_word_eqI[of v w] by auto

lemma and_mask_eq_0: "w AND mask n = 0 \<longleftrightarrow> (\<forall>k < n. \<not> bit w k)" for w :: "'a::len word"
  by (auto simp: bit_eq_iff bit_simps dest: bit_imp_le_length)

lemma and_low_bits_eq_0:
  "w AND 3 = 0 \<longleftrightarrow> \<not> bit w 0 \<and> \<not> bit w 1" "w AND 7 = 0 \<longleftrightarrow> \<not> bit w 0 \<and> \<not> bit w 1 \<and> \<not> bit w 2"
  for w :: "'a::len word"
  using and_mask_eq_0[of w 2] and_mask_eq_0[of w 3]
  by (auto simp: mask_eq_exp_minus_1 numeral_2_eq_2 numeral_3_eq_3 less_Suc_eq)

end
