(* ===== verification/Runs.thy ===== *)
theory Runs
  imports Prelude
begin

text \<open>
  Runs of step relations with outputs, and the two facts every task of the session needs of
  them, each proved once in a locale: an invariant with well-formed outputs, and the
  bracketing of connections by their two callbacks.
\<close>

inductive runs :: "('c \<Rightarrow> 'o list \<Rightarrow> 'c \<Rightarrow> bool) \<Rightarrow> 'c \<Rightarrow> 'o list \<Rightarrow> 'c \<Rightarrow> bool" for step where
  runs_refl: "runs step c [] c"
| runs_snoc: "runs step c os c' \<Longrightarrow> step c' os' c'' \<Longrightarrow> runs step c (os @ os') c''"

lemma runs_one: "step c os c' \<Longrightarrow> runs step c os c'"
  using runs_snoc[OF runs_refl] by fastforce

lemma runs_append: "runs step c' os' c'' \<Longrightarrow> runs step c os c' \<Longrightarrow> runs step c (os @ os') c''"
proof (induction rule: runs.induct)
  case (runs_snoc c' os' d os'' d')
  then have "runs step c (os @ os') d" by blast
  from runs.runs_snoc[OF this runs_snoc.hyps(2)] show ?case by simp
qed simp

lemma runs_cons: "step c os c' \<Longrightarrow> runs step c' os' c'' \<Longrightarrow> runs step c (os @ os') c''"
  by (rule runs_append[OF _ runs_one])

lemma runs_mono:
  assumes "runs step c os c'" "\<And>c os c'. step c os c' \<Longrightarrow> step' c os c'"
  shows "runs step' c os c'"
  using assms(1) by induction (auto intro: runs.intros assms(2))

lemma runs_guarded: "runs step c os c' \<Longrightarrow> P \<Longrightarrow> runs (\<lambda>c os c'. P \<and> step c os c') c os c'"
  by (rule runs_mono) simp_all

text \<open>An invariant of the configurations under which the outputs are well-formed.\<close>

locale step_invariant =
  fixes step :: "'c \<Rightarrow> 'o list \<Rightarrow> 'c \<Rightarrow> bool" and inv :: "'c \<Rightarrow> bool" and good :: "'o \<Rightarrow> bool"
  assumes step_keeps: "step c os c' \<Longrightarrow> inv c \<Longrightarrow> inv c' \<and> list_all good os"
begin

lemma runs_keep: "runs step c os c' \<Longrightarrow> inv c \<Longrightarrow> inv c' \<and> list_all good os"
  by (induction rule: runs.induct) (auto dest: step_keeps)

end

text \<open>The marks of a run: \<open>True\<close> where a connection is reported, \<open>False\<close> where its end is.\<close>

definition marks :: "('o \<Rightarrow> bool list) \<Rightarrow> 'o list \<Rightarrow> bool list" where
  "marks mark os = concat (map mark os)"

lemma marks_simps [simp]:
  "marks mark [] = []" "marks mark (x # xs) = mark x @ marks mark xs"
  "marks mark (xs @ ys) = marks mark xs @ marks mark ys"
  by (simp_all add: marks_def)

lemma marks_none: "(\<And>x. x \<in> set os \<Longrightarrow> mark x = []) \<Longrightarrow> marks mark os = []"
  by (induction os) simp_all

text \<open>Marks that switch from \<open>b\<close> to \<open>b'\<close>, each the opposite of the one before.\<close>

fun alternates :: "bool \<Rightarrow> bool list \<Rightarrow> bool \<Rightarrow> bool" where
  "alternates b [] b' = (b = b')"
| "alternates b (m # ms) b' = (m \<noteq> b \<and> alternates m ms b')"

lemma alternates_append: "alternates b (xs @ ys) b'' \<longleftrightarrow> (\<exists>b'. alternates b xs b' \<and> alternates b' ys b'')"
  by (induction xs arbitrary: b) auto

lemma alternates_False:
  "alternates False ms b \<Longrightarrow> \<exists>n. ms = concat (replicate n [True, False]) @ (if b then [True] else [])"
proof (induction ms rule: induct_list012)
  case 1
  then show ?case by (intro exI[of _ 0]) simp
next
  case (2 m)
  then show ?case by (intro exI[of _ 0]) auto
next
  case (3 m m' ms)
  then have "m" "\<not> m'" "alternates False ms b" by auto
  with 3 obtain n where "ms = concat (replicate n [True, False]) @ (if b then [True] else [])" by blast
  then show ?case using \<open>m\<close> \<open>\<not> m'\<close> by (intro exI[of _ "Suc n"]) simp
qed

locale bracketed_connections =
  fixes step :: "'c \<Rightarrow> 'o list \<Rightarrow> 'c \<Rightarrow> bool" and mark :: "'o \<Rightarrow> bool list" and is_open :: "'c \<Rightarrow> bool"
  assumes step_marks: "step c os c' \<Longrightarrow> alternates (is_open c) (marks mark os) (is_open c')"
begin

lemma runs_alternate: "runs step c os c' \<Longrightarrow> alternates (is_open c) (marks mark os) (is_open c')"
  by (induction rule: runs.induct) (auto simp: alternates_append dest: step_marks)

lemma brackets:
  assumes "runs step c os c'" "\<not> is_open c"
  shows "\<exists>n. marks mark os = concat (replicate n [True, False]) @ (if is_open c' then [True] else [])"
  using runs_alternate[OF assms(1)] assms(2) by (intro alternates_False) simp

end

end
