(* ===== verification/External.thy ===== *)
theory External
  imports Prelude
begin

text \<open>
  The code outside the repository that the runtime relies on, as parameters of the model.
  A bundle of operations is a record of functions, passed to every definition that uses
  it; what the runtime relies on is the predicate \<open>..._ok\<close> of the bundle, a named
  hypothesis of the theorems that need it; \<open>..._std\<close> is a concrete bundle that satisfies
  it, used by the witnesses only.

    \<^item> \<^verbatim>\<open>heapless::Vec\<close>: a vector of bounded capacity, seen through its contents;
    \<^item> \<^verbatim>\<open>bt_hci\<close> address kinds and \<^verbatim>\<open>trouble_host\<close> key types: constants and byte conversions;
    \<^item> the GAP constants of \<^verbatim>\<open>trouble_host\<close>.
\<close>

section \<open>Bounded vectors (\<^verbatim>\<open>heapless::Vec\<close>)\<close>

text \<open>\<open>push\<close> and \<open>extend_from_slice\<close> fail when the capacity would be exceeded, and a failing
  call leaves the vector as it was; \<open>retain\<close> keeps the elements that satisfy a predicate.\<close>

record 'a hvec =
  hv_push :: "'a list \<Rightarrow> 'a \<Rightarrow> 'a list option"
  hv_extend :: "'a list \<Rightarrow> 'a list \<Rightarrow> 'a list option"
  hv_retain :: "('a \<Rightarrow> bool) \<Rightarrow> 'a list \<Rightarrow> 'a list"

definition hvec_ok :: "nat \<Rightarrow> 'a hvec \<Rightarrow> bool" where
  "hvec_ok cap hv \<longleftrightarrow>
     (\<forall>xs x. hv_push hv xs x = (if length xs < cap then Some (xs @ [x]) else None)) \<and>
     (\<forall>xs ys. hv_extend hv xs ys =
        (if length xs + length ys \<le> cap then Some (xs @ ys) else None)) \<and>
     (\<forall>P xs. hv_retain hv P xs = filter P xs)"

definition hvec_std :: "nat \<Rightarrow> 'a hvec" where
  "hvec_std cap = \<lparr>
     hv_push = (\<lambda>xs x. if length xs < cap then Some (xs @ [x]) else None),
     hv_extend = (\<lambda>xs ys. if length xs + length ys \<le> cap then Some (xs @ ys) else None),
     hv_retain = filter\<rparr>"

lemma hvec_ok_std [simp]: "hvec_ok cap (hvec_std cap)"
  by (simp add: hvec_ok_def hvec_std_def)

lemma hv_push: "hvec_ok cap hv \<Longrightarrow>
    hv_push hv xs x = (if length xs < cap then Some (xs @ [x]) else None)"
  and hv_extend: "hvec_ok cap hv \<Longrightarrow>
    hv_extend hv xs ys = (if length xs + length ys \<le> cap then Some (xs @ ys) else None)"
  and hv_retain: "hvec_ok cap hv \<Longrightarrow> hv_retain hv P xs = filter P xs"
  by (simp_all add: hvec_ok_def)

section \<open>Address kinds and keys (\<^verbatim>\<open>bt_hci\<close>, \<^verbatim>\<open>trouble_host\<close>)\<close>

text \<open>An address is the pair of a kind and six raw bytes, least significant first.\<close>

record 'k address =
  addr_kind :: 'k
  addr_raw :: "u8 list"

record ('k, 'l, 'i) bt_ops =
  ak_public :: 'k
  ak_random :: 'k
  ak_new :: "u8 \<Rightarrow> 'k"
  ak_raw :: "'k \<Rightarrow> u8"
  ltk_to_le :: "'l \<Rightarrow> u8 list"
  ltk_from_le :: "u8 list \<Rightarrow> 'l"
  irk_to_le :: "'i \<Rightarrow> u8 list"
  irk_from_le :: "u8 list \<Rightarrow> 'i option"

text \<open>An address kind is its raw byte (public 0, random 1, the Bluetooth Core values); a key
  converts to 16 bytes and back.\<close>

definition bt_ok :: "('k, 'l, 'i) bt_ops \<Rightarrow> bool" where
  "bt_ok bt \<longleftrightarrow>
     ak_raw bt (ak_public bt) = 0 \<and> ak_raw bt (ak_random bt) = 1 \<and>
     (\<forall>k. ak_new bt (ak_raw bt k) = k) \<and>
     (\<forall>k. length (ltk_to_le bt k) = 16) \<and> (\<forall>k. ltk_from_le bt (ltk_to_le bt k) = k) \<and>
     (\<forall>k. length (irk_to_le bt k) = 16) \<and> (\<forall>k. irk_from_le bt (irk_to_le bt k) = Some k)"

definition bt_std :: "(u8, 128 word, 128 word) bt_ops" where
  "bt_std = \<lparr>ak_public = 0, ak_random = 1, ak_new = (\<lambda>b. b), ak_raw = (\<lambda>k. k),
     ltk_to_le = le_bytes 16, ltk_from_le = le_word,
     irk_to_le = le_bytes 16, irk_from_le = (\<lambda>bs. Some (le_word bs))\<rparr>"

lemma bt_ok_std [simp]: "bt_ok bt_std"
  by (simp add: bt_ok_def bt_std_def le_codec)

lemma bt_okD:
  assumes "bt_ok bt"
  shows "ak_raw bt (ak_public bt) = 0" "ak_raw bt (ak_random bt) = 1"
    "ak_new bt (ak_raw bt k) = k"
    "length (ltk_to_le bt l) = 16" "ltk_from_le bt (ltk_to_le bt l) = l"
    "length (irk_to_le bt i) = 16" "irk_from_le bt (irk_to_le bt i) = Some i"
  using assms by (auto simp: bt_ok_def)

lemma ak_public_neq_random: "bt_ok bt \<Longrightarrow> ak_public bt \<noteq> ak_random bt"
  by (metis bt_okD(1,2) zero_neq_one)

section \<open>GAP constants (\<^verbatim>\<open>trouble_host\<close>)\<close>

text \<open>The advertising flag bits and the default appearance; the code relies on nothing but
  their being constants.\<close>

record gap_consts =
  LE_GENERAL_DISCOVERABLE :: u8
  BR_EDR_NOT_SUPPORTED :: u8
  GENERIC_POWER_DEVICE :: u16

definition gap_std :: gap_consts where
  "gap_std = \<lparr>LE_GENERAL_DISCOVERABLE = 2, BR_EDR_NOT_SUPPORTED = 4, GENERIC_POWER_DEVICE = 1920\<rparr>"

section \<open>Build features\<close>

text \<open>The Cargo features of the crate that select code. \<open>central\<close> and \<open>l2cap\<close> pull in
  \<open>_full\<close> (\<^verbatim>\<open>rust/Cargo.toml\<close>).\<close>

record features =
  f_central :: bool
  f_l2cap :: bool
  f_full :: bool
  f_radio :: bool

definition features_ok :: "features \<Rightarrow> bool" where
  "features_ok f \<longleftrightarrow> (f_central f \<longrightarrow> f_full f) \<and> (f_l2cap f \<longrightarrow> f_full f)"

definition minimum_build :: features where
  "minimum_build = \<lparr>f_central = False, f_l2cap = False, f_full = False, f_radio = True\<rparr>"

definition full_build :: features where
  "full_build = \<lparr>f_central = True, f_l2cap = True, f_full = True, f_radio = True\<rparr>"

lemma features_ok_builds [simp]: "features_ok minimum_build" "features_ok full_build"
  by (simp_all add: features_ok_def minimum_build_def full_build_def)

end
