(* ===== verification/Config.thy ===== *)
theory Config
  imports External
begin

text \<open>
  The C ABI of \<^verbatim>\<open>rust/src/lib.rs\<close>: the grouped public configuration
  (\<^verbatim>\<open>RuntimeBleConfig\<close> and its groups), the flat internal configuration \<^verbatim>\<open>RuntimeCfg\<close>, the
  application callbacks, and \<^verbatim>\<open>runtime_ble_init\<close>, which validates the first and flattens
  it into the second.

  Callbacks are application code. A callback without a result is modelled by whether it is
  set, and calling it is an output event, a \<open>callback\<close> paired with the opaque \<open>user\<close>
  pointer every call passes. A callback that fills a buffer or returns a value is a
  function: for \<open>on_read_value\<close>, \<open>on_bond_load\<close> and \<open>on_descriptor_read_value\<close> the bytes
  it leaves at the front of the (zeroed) buffer and the count it returns; for
  \<open>on_oob_request\<close> the four 16-byte buffers and the returned flag.

  A \<^verbatim>\<open>*const c_char\<close> is the list of bytes before the terminating NUL (the precondition of
  \<^verbatim>\<open>CStr::from_ptr\<close>), or null.
\<close>

section \<open>Callbacks\<close>

record callbacks =
  on_connected :: bool
  on_disconnected :: bool
  on_data :: bool
  on_write :: bool
  on_read_value :: "(u16 \<Rightarrow> nat \<Rightarrow> u8 list \<times> nat) option"
  on_scan_result :: bool
  on_scan_result_ext :: bool
  on_scan_result_meta :: bool
  on_service :: bool
  on_discovered :: bool
  on_descriptor :: bool
  on_read :: bool
  on_notification :: bool
  on_subscription :: bool
  on_conn_params :: bool
  on_phy_update :: bool
  on_data_length_update :: bool
  on_att_mtu :: bool
  on_frame_space :: bool
  on_connection_rate :: bool
  on_rssi :: bool
  on_security_event :: bool
  on_bond_load :: "(u8 \<Rightarrow> nat \<Rightarrow> u8 list \<times> nat) option"
  on_bond_store :: bool
  on_bond :: bool
  on_bond_deleted :: bool
  on_oob_request :: "(u8 list \<times> u8 list \<times> u8 list \<times> u8 list \<times> u8) option"
  on_oob_local_data :: bool
  on_log :: bool
  on_l2cap_connected :: bool
  on_l2cap_data :: bool
  on_l2cap_disconnected :: bool
  on_client_status :: bool
  on_descriptor_write :: bool
  on_descriptor_read_value :: "(u16 \<Rightarrow> u16 \<Rightarrow> u8 \<Rightarrow> nat \<Rightarrow> u8 list \<times> nat) option"
  on_security_state :: bool
  on_write_ext :: bool
  on_descriptor_write_ext :: bool

text \<open>The calls the runtime makes to the application, with their arguments.\<close>

datatype (plugins only: code size) callback =
    OnConnected
  | OnDisconnected u8
  | OnData "u8 list"
  | OnWrite u16 "u8 list"
  | OnReadValue u16 nat
  | OnScanResult "u8 list" i8 "u8 list"
  | OnScanResultExt "u8 list" u8 i8 "u8 list"
  | OnScanResultMeta "u8 list" u8 i8 "u8 list" u16 u8 u8 i8 u8
  | OnService u16 u16 "u8 list" u8
  | OnDiscovered u16 "u8 list" u8 u16
  | OnDescriptor u16 "u8 list" u8
  | OnRead u16 "u8 list"
  | OnNotification u16 "u8 list"
  | OnSubscription u16 u8 u8
  | OnConnParams u16 u16 u16
  | OnPhyUpdate u8 u8
  | OnDataLengthUpdate u16 u16
  | OnAttMtu u16
  | OnFrameSpace u32
  | OnConnectionRate u16 u16 u16 u16 u16
  | OnRssi i8
  | OnSecurityEvent u8 u8 u32 u8
  | OnBondLoad u8 nat
  | OnBondStore u8 "u8 list option"
  | OnBond u8 "u8 list" u8 u8 u8 u8
  | OnBondDeleted u8 i8
  | OnOobRequest
  | OnOobLocalData "u8 list" "u8 list"
  | OnLog string
  | OnL2capConnected
  | OnL2capData "u8 list"
  | OnL2capDisconnected
  | OnClientStatus u8 i8 u16
  | OnDescriptorWrite u16 u16 u8 "u8 list"
  | OnDescriptorReadValue u16 u16 u8 nat
  | OnSecurityState u8 u8 u8
  | OnWriteExt u16 u16 "u8 list"
  | OnDescriptorWriteExt u16 u16 u8 u16 "u8 list"

type_synonym cb_event = "callback \<times> usize"

section \<open>The public configuration\<close>

record RuntimeBleDescDef =
  dd_uuid :: "u8 ptr"
  dd_uuid_len :: u8
  dd_value :: "u8 ptr"
  dd_value_len :: u16
  dd_permissions :: u16

record RuntimeBleCharDef =
  cd_uuid :: "u8 ptr"
  cd_uuid_len :: u8
  cd_props :: u16
  cd_max_len :: u16
  cd_permissions :: u16
  cd_descriptors :: "RuntimeBleDescDef ptr"
  cd_num_descriptors :: u8

record RuntimeBleServiceDef =
  sd_uuid :: "u8 ptr"
  sd_uuid_len :: u8
  sd_chars :: "RuntimeBleCharDef ptr"
  sd_num_chars :: u8

record RuntimeBleAdv =
  a_data :: "u8 ptr"
  a_data_len :: u8
  a_manufacturer_id :: u16
  a_manufacturer_data :: "u8 ptr"
  a_manufacturer_data_len :: u16
  a_service_uuid :: "u8 ptr"
  a_service_uuid_len :: u8
  a_service_data_uuid :: "u8 ptr"
  a_service_data_uuid_len :: u8
  a_service_data :: "u8 ptr"
  a_service_data_len :: u8
  a_appearance :: u16
  a_appearance_present :: u8
  a_tx_power_dbm :: i8
  a_tx_power_present :: u8
  a_scan_response_data :: "u8 ptr"
  a_scan_response_data_len :: u8
  a_nonconnectable :: u8
  a_interval_min_ms :: u16
  a_interval_max_ms :: u16
  a_channel_map :: u8
  a_filter_policy :: u8
  a_accept_address :: "u8 ptr"
  a_accept_address_kind :: u8
  a_discoverable :: u8
  a_directed_peer_address :: "u8 ptr"
  a_directed_peer_address_kind :: u8
  a_directed_high_duty :: u8
  a_extended :: u8
  a_primary_phy :: u8
  a_secondary_phy :: u8
  a_periodic :: u8
  a_periodic_interval_min_ms :: u16
  a_periodic_interval_max_ms :: u16
  a_periodic_data :: "u8 ptr"
  a_periodic_data_len :: u8
  a_periodic_include_tx_power :: u8

record RuntimeBleCentral =
  cn_peer_address :: "u8 ptr"
  cn_peer_address_kind :: u8
  cn_conn_min_interval_ms :: u16
  cn_conn_max_interval_ms :: u16
  cn_conn_latency :: u16
  cn_conn_timeout_ms :: u16

record RuntimeBleL2cap =
  l2_psm :: u16
  l2_mtu :: u16
  l2_mps :: u16
  l2_initial_credits :: u16
  l2_credit_policy :: u8
  l2_credit_policy_value :: u16

record RuntimeBleSecurity =
  sec_bondable :: u8
  sec_request_on_connect :: u8
  sec_oob_available :: u8
  sec_io_capability :: u8
  sec_bond_slot_count :: u8

record RuntimeBleConfig =
  c_abi_version :: u32
  c_device_name :: "u8 list option"
  c_address :: "u8 ptr"
  c_role :: u8
  c_adv :: RuntimeBleAdv
  c_central :: RuntimeBleCentral
  c_l2cap :: RuntimeBleL2cap
  c_security :: RuntimeBleSecurity
  c_services :: "RuntimeBleServiceDef ptr"
  c_num_services :: u8
  c_sdc_disable :: u32
  c_callbacks :: callbacks
  c_user :: usize

section \<open>The internal configuration\<close>

record RuntimeCfg =
  cfg_device_name :: "u8 list option"
  cfg_adv_data :: "u8 ptr"
  cfg_adv_data_len :: u8
  cfg_manufacturer_id :: u16
  cfg_manufacturer_data :: "u8 ptr"
  cfg_manufacturer_data_len :: u16
  cfg_adv_service_uuid :: "u8 ptr"
  cfg_adv_service_uuid_len :: u8
  cfg_adv_service_data_uuid :: "u8 ptr"
  cfg_adv_service_data_uuid_len :: u8
  cfg_adv_service_data :: "u8 ptr"
  cfg_adv_service_data_len :: u8
  cfg_appearance :: u16
  cfg_adv_appearance :: u8
  cfg_adv_tx_power_dbm :: i8
  cfg_adv_tx_power_present :: u8
  cfg_scan_response_data :: "u8 ptr"
  cfg_scan_response_data_len :: u8
  cfg_nonconnectable :: u8
  cfg_adv_interval_min_ms :: u16
  cfg_adv_interval_max_ms :: u16
  cfg_adv_channel_map :: u8
  cfg_adv_filter_policy :: u8
  cfg_adv_accept_address :: "u8 ptr"
  cfg_adv_accept_address_kind :: u8
  cfg_discoverable :: u8
  cfg_address :: "u8 ptr"
  cfg_directed_peer_address :: "u8 ptr"
  cfg_directed_peer_address_kind :: u8
  cfg_directed_high_duty :: u8
  cfg_adv_extended :: u8
  cfg_adv_primary_phy :: u8
  cfg_adv_secondary_phy :: u8
  cfg_periodic_adv :: u8
  cfg_periodic_adv_interval_min_ms :: u16
  cfg_periodic_adv_interval_max_ms :: u16
  cfg_periodic_adv_data :: "u8 ptr"
  cfg_periodic_adv_data_len :: u8
  cfg_periodic_adv_include_tx_power :: u8
  cfg_services :: "RuntimeBleServiceDef ptr"
  cfg_num_services :: u8
  cfg_role :: u8
  cfg_peer_address :: "u8 ptr"
  cfg_peer_address_kind :: u8
  cfg_central_conn_min_interval_ms :: u16
  cfg_central_conn_max_interval_ms :: u16
  cfg_central_conn_latency :: u16
  cfg_central_conn_timeout_ms :: u16
  cfg_l2cap_psm :: u16
  cfg_l2cap_mtu :: u16
  cfg_l2cap_mps :: u16
  cfg_l2cap_initial_credits :: u16
  cfg_l2cap_credit_policy :: u8
  cfg_l2cap_credit_policy_value :: u16
  cfg_security_bondable :: u8
  cfg_security_request_on_connect :: u8
  cfg_security_oob_available :: u8
  cfg_security_io_capability :: u8
  cfg_bond_slot_count :: u8
  cfg_sdc_disable :: u32
  cfg_callbacks :: callbacks
  cfg_user :: usize

text \<open>An event for the callback \<open>ev\<close>, when it is set (\<open>present\<close>): \<^verbatim>\<open>if let Some(cb) = ...\<close>.\<close>

definition emit :: "bool \<Rightarrow> RuntimeCfg \<Rightarrow> callback \<Rightarrow> cb_event list" where
  "emit present cfg ev = (if present then [(ev, cfg_user cfg)] else [])"

text \<open>\<^verbatim>\<open>log\<close> and \<^verbatim>\<open>log_str\<close> of \<^verbatim>\<open>radio.rs\<close>.\<close>

definition log_str :: "RuntimeCfg \<Rightarrow> string \<Rightarrow> cb_event list" where
  "log_str cfg s = emit (on_log (cfg_callbacks cfg)) cfg (OnLog s)"

section \<open>\<^verbatim>\<open>runtime_ble_init\<close>\<close>

text \<open>The checks of the public configuration, as the \<^verbatim>\<open>if\<close> of \<^verbatim>\<open>runtime_ble_init\<close> makes
  them (the negation of its condition).\<close>

definition config_valid :: "RuntimeBleConfig \<Rightarrow> bool" where
  "config_valid c \<longleftrightarrow>
     (let adv = c_adv c; l2 = c_l2cap c in
      \<not> (l2_credit_policy l2 > 1
         \<or> (l2_mtu l2 \<noteq> 0 \<and> l2_mtu l2 < 23)
         \<or> (l2_mps l2 \<noteq> 0 \<and> l2_mps l2 < 23)
         \<or> a_filter_policy adv > 3
         \<or> a_extended adv > 1
         \<or> a_primary_phy adv > 3
         \<or> a_secondary_phy adv > 3
         \<or> a_periodic adv > 1
         \<or> (a_periodic adv \<noteq> 0 \<and> (a_extended adv = 0 \<or> a_nonconnectable adv = 0))
         \<or> (a_filter_policy adv \<noteq> 0 \<and> is_null (a_accept_address adv))))"

definition flatten_config :: "RuntimeBleConfig \<Rightarrow> RuntimeCfg" where
  "flatten_config c = \<lparr>
     cfg_device_name = c_device_name c,
     cfg_adv_data = a_data (c_adv c),
     cfg_adv_data_len = a_data_len (c_adv c),
     cfg_manufacturer_id = a_manufacturer_id (c_adv c),
     cfg_manufacturer_data = a_manufacturer_data (c_adv c),
     cfg_manufacturer_data_len = a_manufacturer_data_len (c_adv c),
     cfg_adv_service_uuid = a_service_uuid (c_adv c),
     cfg_adv_service_uuid_len = a_service_uuid_len (c_adv c),
     cfg_adv_service_data_uuid = a_service_data_uuid (c_adv c),
     cfg_adv_service_data_uuid_len = a_service_data_uuid_len (c_adv c),
     cfg_adv_service_data = a_service_data (c_adv c),
     cfg_adv_service_data_len = a_service_data_len (c_adv c),
     cfg_appearance = a_appearance (c_adv c),
     cfg_adv_appearance = a_appearance_present (c_adv c),
     cfg_adv_tx_power_dbm = a_tx_power_dbm (c_adv c),
     cfg_adv_tx_power_present = a_tx_power_present (c_adv c),
     cfg_scan_response_data = a_scan_response_data (c_adv c),
     cfg_scan_response_data_len = a_scan_response_data_len (c_adv c),
     cfg_nonconnectable = a_nonconnectable (c_adv c),
     cfg_adv_interval_min_ms = a_interval_min_ms (c_adv c),
     cfg_adv_interval_max_ms = a_interval_max_ms (c_adv c),
     cfg_adv_channel_map = a_channel_map (c_adv c),
     cfg_adv_filter_policy = a_filter_policy (c_adv c),
     cfg_adv_accept_address = a_accept_address (c_adv c),
     cfg_adv_accept_address_kind = a_accept_address_kind (c_adv c),
     cfg_discoverable = a_discoverable (c_adv c),
     cfg_address = c_address c,
     cfg_directed_peer_address = a_directed_peer_address (c_adv c),
     cfg_directed_peer_address_kind = a_directed_peer_address_kind (c_adv c),
     cfg_directed_high_duty = a_directed_high_duty (c_adv c),
     cfg_adv_extended = a_extended (c_adv c),
     cfg_adv_primary_phy = a_primary_phy (c_adv c),
     cfg_adv_secondary_phy = a_secondary_phy (c_adv c),
     cfg_periodic_adv = a_periodic (c_adv c),
     cfg_periodic_adv_interval_min_ms = a_periodic_interval_min_ms (c_adv c),
     cfg_periodic_adv_interval_max_ms = a_periodic_interval_max_ms (c_adv c),
     cfg_periodic_adv_data = a_periodic_data (c_adv c),
     cfg_periodic_adv_data_len = a_periodic_data_len (c_adv c),
     cfg_periodic_adv_include_tx_power = a_periodic_include_tx_power (c_adv c),
     cfg_services = c_services c,
     cfg_num_services = c_num_services c,
     cfg_role = c_role c,
     cfg_peer_address = cn_peer_address (c_central c),
     cfg_peer_address_kind = cn_peer_address_kind (c_central c),
     cfg_central_conn_min_interval_ms = cn_conn_min_interval_ms (c_central c),
     cfg_central_conn_max_interval_ms = cn_conn_max_interval_ms (c_central c),
     cfg_central_conn_latency = cn_conn_latency (c_central c),
     cfg_central_conn_timeout_ms = cn_conn_timeout_ms (c_central c),
     cfg_l2cap_psm = l2_psm (c_l2cap c),
     cfg_l2cap_mtu = l2_mtu (c_l2cap c),
     cfg_l2cap_mps = l2_mps (c_l2cap c),
     cfg_l2cap_initial_credits = l2_initial_credits (c_l2cap c),
     cfg_l2cap_credit_policy = l2_credit_policy (c_l2cap c),
     cfg_l2cap_credit_policy_value = l2_credit_policy_value (c_l2cap c),
     cfg_security_bondable = sec_bondable (c_security c),
     cfg_security_request_on_connect = sec_request_on_connect (c_security c),
     cfg_security_oob_available = sec_oob_available (c_security c),
     cfg_security_io_capability = sec_io_capability (c_security c),
     cfg_bond_slot_count = sec_bond_slot_count (c_security c),
     cfg_sdc_disable = c_sdc_disable c,
     cfg_callbacks = c_callbacks c,
     cfg_user = c_user c\<rparr>"

text \<open>\<open>cfg\<close> is the pointer argument; the result is the return code and the static
  \<^verbatim>\<open>CONFIG\<close> after the call.\<close>

definition runtime_ble_init ::
  "RuntimeBleConfig option \<Rightarrow> RuntimeCfg option \<Rightarrow> c_int \<times> RuntimeCfg option" where
  "runtime_ble_init cfg CONFIG =
     (case cfg of
        None \<Rightarrow> (RUNTIME_BLE_ERR_INVALID, CONFIG)
      | Some c \<Rightarrow>
          if c_abi_version c \<noteq> RUNTIME_BLE_ABI_VERSION then (RUNTIME_BLE_ERR_ABI, CONFIG)
          else if \<not> config_valid c then (RUNTIME_BLE_ERR_INVALID, CONFIG)
          else (RUNTIME_BLE_OK, Some (flatten_config c)))"

section \<open>What an accepted configuration guarantees\<close>

text \<open>The public configuration a flat one stands for, at the current ABI version.\<close>

definition unflatten_config :: "RuntimeCfg \<Rightarrow> RuntimeBleConfig" where
  "unflatten_config r = \<lparr>
     c_abi_version = RUNTIME_BLE_ABI_VERSION,
     c_device_name = cfg_device_name r,
     c_address = cfg_address r,
     c_role = cfg_role r,
     c_adv = \<lparr>a_data = cfg_adv_data r,
       a_data_len = cfg_adv_data_len r,
       a_manufacturer_id = cfg_manufacturer_id r,
       a_manufacturer_data = cfg_manufacturer_data r,
       a_manufacturer_data_len = cfg_manufacturer_data_len r,
       a_service_uuid = cfg_adv_service_uuid r,
       a_service_uuid_len = cfg_adv_service_uuid_len r,
       a_service_data_uuid = cfg_adv_service_data_uuid r,
       a_service_data_uuid_len = cfg_adv_service_data_uuid_len r,
       a_service_data = cfg_adv_service_data r,
       a_service_data_len = cfg_adv_service_data_len r,
       a_appearance = cfg_appearance r,
       a_appearance_present = cfg_adv_appearance r,
       a_tx_power_dbm = cfg_adv_tx_power_dbm r,
       a_tx_power_present = cfg_adv_tx_power_present r,
       a_scan_response_data = cfg_scan_response_data r,
       a_scan_response_data_len = cfg_scan_response_data_len r,
       a_nonconnectable = cfg_nonconnectable r,
       a_interval_min_ms = cfg_adv_interval_min_ms r,
       a_interval_max_ms = cfg_adv_interval_max_ms r,
       a_channel_map = cfg_adv_channel_map r,
       a_filter_policy = cfg_adv_filter_policy r,
       a_accept_address = cfg_adv_accept_address r,
       a_accept_address_kind = cfg_adv_accept_address_kind r,
       a_discoverable = cfg_discoverable r,
       a_directed_peer_address = cfg_directed_peer_address r,
       a_directed_peer_address_kind = cfg_directed_peer_address_kind r,
       a_directed_high_duty = cfg_directed_high_duty r,
       a_extended = cfg_adv_extended r,
       a_primary_phy = cfg_adv_primary_phy r,
       a_secondary_phy = cfg_adv_secondary_phy r,
       a_periodic = cfg_periodic_adv r,
       a_periodic_interval_min_ms = cfg_periodic_adv_interval_min_ms r,
       a_periodic_interval_max_ms = cfg_periodic_adv_interval_max_ms r,
       a_periodic_data = cfg_periodic_adv_data r,
       a_periodic_data_len = cfg_periodic_adv_data_len r,
       a_periodic_include_tx_power = cfg_periodic_adv_include_tx_power r\<rparr>,
     c_central = \<lparr>cn_peer_address = cfg_peer_address r,
       cn_peer_address_kind = cfg_peer_address_kind r,
       cn_conn_min_interval_ms = cfg_central_conn_min_interval_ms r,
       cn_conn_max_interval_ms = cfg_central_conn_max_interval_ms r,
       cn_conn_latency = cfg_central_conn_latency r,
       cn_conn_timeout_ms = cfg_central_conn_timeout_ms r\<rparr>,
     c_l2cap = \<lparr>l2_psm = cfg_l2cap_psm r,
       l2_mtu = cfg_l2cap_mtu r,
       l2_mps = cfg_l2cap_mps r,
       l2_initial_credits = cfg_l2cap_initial_credits r,
       l2_credit_policy = cfg_l2cap_credit_policy r,
       l2_credit_policy_value = cfg_l2cap_credit_policy_value r\<rparr>,
     c_security = \<lparr>sec_bondable = cfg_security_bondable r,
       sec_request_on_connect = cfg_security_request_on_connect r,
       sec_oob_available = cfg_security_oob_available r,
       sec_io_capability = cfg_security_io_capability r,
       sec_bond_slot_count = cfg_bond_slot_count r\<rparr>,
     c_services = cfg_services r,
     c_num_services = cfg_num_services r,
     c_sdc_disable = cfg_sdc_disable r,
     c_callbacks = cfg_callbacks r,
     c_user = cfg_user r\<rparr>"

text \<open>The facts about the stored configuration that the runtime uses without checking them
  again.\<close>

definition cfg_ok :: "RuntimeCfg \<Rightarrow> bool" where
  "cfg_ok r \<longleftrightarrow>
     cfg_l2cap_credit_policy r \<le> 1
     \<and> (cfg_l2cap_mtu r = 0 \<or> 23 \<le> cfg_l2cap_mtu r)
     \<and> (cfg_l2cap_mps r = 0 \<or> 23 \<le> cfg_l2cap_mps r)
     \<and> cfg_adv_filter_policy r \<le> 3
     \<and> cfg_adv_extended r \<le> 1
     \<and> cfg_adv_primary_phy r \<le> 3
     \<and> cfg_adv_secondary_phy r \<le> 3
     \<and> cfg_periodic_adv r \<le> 1
     \<and> (cfg_periodic_adv r \<noteq> 0 \<longrightarrow> cfg_adv_extended r \<noteq> 0 \<and> cfg_nonconnectable r \<noteq> 0)
     \<and> (cfg_adv_filter_policy r \<noteq> 0 \<longrightarrow> cfg_adv_accept_address r \<noteq> None)"

lemma config_valid_iff_cfg_ok: "config_valid c \<longleftrightarrow> cfg_ok (flatten_config c)"
  by (auto simp: config_valid_def cfg_ok_def flatten_config_def Let_def is_null_def not_less)

lemma unflatten_flatten:
  "c_abi_version c = RUNTIME_BLE_ABI_VERSION \<Longrightarrow> unflatten_config (flatten_config c) = c"
  by (simp add: unflatten_config_def flatten_config_def)

lemma flatten_unflatten: "flatten_config (unflatten_config r) = r"
  by (simp add: unflatten_config_def flatten_config_def)

lemma runtime_ble_init_cases:
  "runtime_ble_init cfg CONFIG =
     (RUNTIME_BLE_ERR_INVALID, CONFIG) \<and> cfg = None
   \<or> (\<exists>c. cfg = Some c \<and> c_abi_version c \<noteq> RUNTIME_BLE_ABI_VERSION
        \<and> runtime_ble_init cfg CONFIG = (RUNTIME_BLE_ERR_ABI, CONFIG))
   \<or> (\<exists>c. cfg = Some c \<and> c_abi_version c = RUNTIME_BLE_ABI_VERSION \<and> \<not> cfg_ok (flatten_config c)
        \<and> runtime_ble_init cfg CONFIG = (RUNTIME_BLE_ERR_INVALID, CONFIG))
   \<or> (\<exists>c. cfg = Some c \<and> c_abi_version c = RUNTIME_BLE_ABI_VERSION \<and> cfg_ok (flatten_config c)
        \<and> runtime_ble_init cfg CONFIG = (RUNTIME_BLE_OK, Some (flatten_config c)))"
  by (auto simp: runtime_ble_init_def config_valid_iff_cfg_ok split: option.split)

section \<open>The all-zero configuration\<close>

text \<open>A zeroed \<^verbatim>\<open>RuntimeBleConfig\<close> with only the ABI version set, the smallest configuration
  an application can pass.\<close>

definition no_callbacks :: callbacks where
  "no_callbacks = \<lparr>
     on_connected = False,
     on_disconnected = False,
     on_data = False,
     on_write = False,
     on_read_value = None,
     on_scan_result = False,
     on_scan_result_ext = False,
     on_scan_result_meta = False,
     on_service = False,
     on_discovered = False,
     on_descriptor = False,
     on_read = False,
     on_notification = False,
     on_subscription = False,
     on_conn_params = False,
     on_phy_update = False,
     on_data_length_update = False,
     on_att_mtu = False,
     on_frame_space = False,
     on_connection_rate = False,
     on_rssi = False,
     on_security_event = False,
     on_bond_load = None,
     on_bond_store = False,
     on_bond = False,
     on_bond_deleted = False,
     on_oob_request = None,
     on_oob_local_data = False,
     on_log = False,
     on_l2cap_connected = False,
     on_l2cap_data = False,
     on_l2cap_disconnected = False,
     on_client_status = False,
     on_descriptor_write = False,
     on_descriptor_read_value = None,
     on_security_state = False,
     on_write_ext = False,
     on_descriptor_write_ext = False\<rparr>"

definition zero_config :: RuntimeBleConfig where
  "zero_config = \<lparr>
     c_abi_version = RUNTIME_BLE_ABI_VERSION,
     c_device_name = None,
     c_address = None,
     c_role = 0,
     c_adv = \<lparr>
       a_data = None,
       a_data_len = 0,
       a_manufacturer_id = 0,
       a_manufacturer_data = None,
       a_manufacturer_data_len = 0,
       a_service_uuid = None,
       a_service_uuid_len = 0,
       a_service_data_uuid = None,
       a_service_data_uuid_len = 0,
       a_service_data = None,
       a_service_data_len = 0,
       a_appearance = 0,
       a_appearance_present = 0,
       a_tx_power_dbm = 0,
       a_tx_power_present = 0,
       a_scan_response_data = None,
       a_scan_response_data_len = 0,
       a_nonconnectable = 0,
       a_interval_min_ms = 0,
       a_interval_max_ms = 0,
       a_channel_map = 0,
       a_filter_policy = 0,
       a_accept_address = None,
       a_accept_address_kind = 0,
       a_discoverable = 0,
       a_directed_peer_address = None,
       a_directed_peer_address_kind = 0,
       a_directed_high_duty = 0,
       a_extended = 0,
       a_primary_phy = 0,
       a_secondary_phy = 0,
       a_periodic = 0,
       a_periodic_interval_min_ms = 0,
       a_periodic_interval_max_ms = 0,
       a_periodic_data = None,
       a_periodic_data_len = 0,
       a_periodic_include_tx_power = 0\<rparr>,
     c_central = \<lparr>cn_peer_address = None, cn_peer_address_kind = 0, cn_conn_min_interval_ms = 0,
       cn_conn_max_interval_ms = 0, cn_conn_latency = 0, cn_conn_timeout_ms = 0\<rparr>,
     c_l2cap = \<lparr>l2_psm = 0, l2_mtu = 0, l2_mps = 0, l2_initial_credits = 0, l2_credit_policy = 0,
       l2_credit_policy_value = 0\<rparr>,
     c_security = \<lparr>sec_bondable = 0, sec_request_on_connect = 0, sec_oob_available = 0,
       sec_io_capability = 0, sec_bond_slot_count = 0\<rparr>,
     c_services = None,
     c_num_services = 0,
     c_sdc_disable = 0,
     c_callbacks = no_callbacks,
     c_user = 0\<rparr>"

section \<open>Properties\<close>

text \<open>C27 (init_accepts_iff). \<open>runtime_ble_init\<close> returns \<open>RUNTIME_BLE_OK\<close> exactly for a
  non-null configuration of the current ABI version whose flat form satisfies \<open>cfg_ok\<close>, in
  which case that flat form is what is stored; on every error the stored configuration is
  the one before the call, and a version mismatch is reported before any other defect.\<close>

theorem init_accepts_iff:
  "(fst (runtime_ble_init p CONFIG) = RUNTIME_BLE_OK \<longleftrightarrow>
      (\<exists>c. p = Some c \<and> c_abi_version c = RUNTIME_BLE_ABI_VERSION \<and> cfg_ok (flatten_config c)))
   \<and> snd (runtime_ble_init p CONFIG) =
       (if fst (runtime_ble_init p CONFIG) = RUNTIME_BLE_OK then map_option flatten_config p else CONFIG)
   \<and> (fst (runtime_ble_init p CONFIG) = RUNTIME_BLE_ERR_ABI \<longleftrightarrow>
      (\<exists>c. p = Some c \<and> c_abi_version c \<noteq> RUNTIME_BLE_ABI_VERSION))"
  by (cases p) (simp_all add: runtime_ble_init_def config_valid_iff_cfg_ok result_codes)

text \<open>The theorem at the zeroed configuration, which is accepted.\<close>

theorem init_accepts_iff_witness:
  "snd (runtime_ble_init (Some zero_config) None) = Some (flatten_config zero_config)"
  using init_accepts_iff[of "Some zero_config" None]
  by (simp add: runtime_ble_init_def zero_config_def config_valid_def)

text \<open>Result (init_loses_nothing). Flattening the public configuration into the internal one loses
  nothing and mixes nothing up: two accepted configurations that are stored as the same
  internal configuration are equal, field by field.\<close>

theorem init_loses_nothing:
  assumes "runtime_ble_init (Some c) C = (RUNTIME_BLE_OK, Some r)"
    and "runtime_ble_init (Some c') C' = (RUNTIME_BLE_OK, Some r)"
  shows "c = c'"
proof -
  have "c_abi_version c = RUNTIME_BLE_ABI_VERSION" "r = flatten_config c"
    and "c_abi_version c' = RUNTIME_BLE_ABI_VERSION" "r = flatten_config c'"
    using assms by (auto simp: runtime_ble_init_def result_codes split: if_splits)
  then show ?thesis using unflatten_flatten by metis
qed

theorem init_loses_nothing_witness:
  "\<exists>r. runtime_ble_init (Some zero_config) None = (RUNTIME_BLE_OK, Some r) \<and> zero_config = unflatten_config r"
proof -
  have r: "runtime_ble_init (Some zero_config) None = (RUNTIME_BLE_OK, Some (flatten_config zero_config))"
    by (simp add: runtime_ble_init_def zero_config_def config_valid_def)
  have "zero_config = zero_config" by (rule init_loses_nothing[OF r r])
  then show ?thesis using r unflatten_flatten[of zero_config] by (simp add: zero_config_def)
qed

end
