(* ===== verification/Codes.thy ===== *)
theory Codes
  imports Config
begin

text \<open>
  The pure translations of \<^verbatim>\<open>rust/src/radio.rs\<close> between the C numbering of
  \<^verbatim>\<open>runtime_ble.h\<close> and the types of the Bluetooth host: characteristic properties,
  attribute permissions, UUIDs, addresses, advertising report flags, PHYs, security levels
  and IO capabilities, and the reading of C strings. The enumerations of the host are
  datatypes with the variants the source names.
\<close>

section \<open>Characteristic properties\<close>

definition C_PROP_READ :: u16 where "C_PROP_READ = push_bit 0 1"
definition C_PROP_WRITE :: u16 where "C_PROP_WRITE = push_bit 1 1"
definition C_PROP_WRITE_NR :: u16 where "C_PROP_WRITE_NR = push_bit 2 1"
definition C_PROP_NOTIFY :: u16 where "C_PROP_NOTIFY = push_bit 3 1"
definition C_PROP_INDICATE :: u16 where "C_PROP_INDICATE = push_bit 4 1"

lemmas c_prop_defs =
  C_PROP_READ_def C_PROP_WRITE_def C_PROP_WRITE_NR_def C_PROP_NOTIFY_def C_PROP_INDICATE_def

definition map_props :: "u16 \<Rightarrow> u8" where
  "map_props props =
     (let b = 0;
          b = (if props AND C_PROP_READ \<noteq> 0 then b OR 0x02 else b);
          b = (if props AND C_PROP_WRITE_NR \<noteq> 0 then b OR 0x04 else b);
          b = (if props AND C_PROP_WRITE \<noteq> 0 then b OR 0x08 else b);
          b = (if props AND C_PROP_NOTIFY \<noteq> 0 then b OR 0x10 else b);
          b = (if props AND C_PROP_INDICATE \<noteq> 0 then b OR 0x20 else b)
      in b)"

definition props_to_c :: "u8 \<Rightarrow> u16" where
  "props_to_c ble =
     (let p = 0;
          p = (if ble AND 0x02 \<noteq> 0 then p OR C_PROP_READ else p);
          p = (if ble AND 0x04 \<noteq> 0 then p OR C_PROP_WRITE_NR else p);
          p = (if ble AND 0x08 \<noteq> 0 then p OR C_PROP_WRITE else p);
          p = (if ble AND 0x10 \<noteq> 0 then p OR C_PROP_NOTIFY else p);
          p = (if ble AND 0x20 \<noteq> 0 then p OR C_PROP_INDICATE else p)
      in p)"

lemma bit_map_props:
  "bit (map_props p) 0 = False" "bit (map_props p) 1 = bit p 0" "bit (map_props p) 2 = bit p 2"
  "bit (map_props p) 3 = bit p 1" "bit (map_props p) 4 = bit p 3" "bit (map_props p) 5 = bit p 4"
  "bit (map_props p) 6 = False" "bit (map_props p) 7 = False"
  by (simp_all add: map_props_def c_prop_defs Let_def mask_bits bit_simps)

lemma bit_props_to_c:
  "bit (props_to_c b) 0 = bit b 1" "bit (props_to_c b) 1 = bit b 3" "bit (props_to_c b) 2 = bit b 2"
  "bit (props_to_c b) 3 = bit b 4" "bit (props_to_c b) 4 = bit b 5"
  by (simp_all add: props_to_c_def c_prop_defs Let_def mask_bits bit_simps)

lemma bit_props_to_c_high:
  "\<not> bit (props_to_c b) 5" "\<not> bit (props_to_c b) 6" "\<not> bit (props_to_c b) 7"
  "\<not> bit (props_to_c b) 8" "\<not> bit (props_to_c b) 9" "\<not> bit (props_to_c b) 10"
  "\<not> bit (props_to_c b) 11" "\<not> bit (props_to_c b) 12" "\<not> bit (props_to_c b) 13"
  "\<not> bit (props_to_c b) 14" "\<not> bit (props_to_c b) 15"
  by (simp_all add: props_to_c_def c_prop_defs Let_def bit_simps)

section \<open>Attribute permissions\<close>

datatype permission_level = Allowed | EncryptionRequired | AuthenticationRequired | NotAllowed

record att_permissions =
  perm_read :: permission_level
  perm_write :: permission_level
  min_key_len :: u8

definition C_PERM_READ_ENCRYPT :: u16 where "C_PERM_READ_ENCRYPT = push_bit 0 1"
definition C_PERM_READ_AUTH :: u16 where "C_PERM_READ_AUTH = push_bit 1 1"
definition C_PERM_WRITE_ENCRYPT :: u16 where "C_PERM_WRITE_ENCRYPT = push_bit 2 1"
definition C_PERM_WRITE_AUTH :: u16 where "C_PERM_WRITE_AUTH = push_bit 3 1"
definition C_PERM_CCCD_ENCRYPT :: u16 where "C_PERM_CCCD_ENCRYPT = push_bit 4 1"
definition C_PERM_CCCD_AUTH :: u16 where "C_PERM_CCCD_AUTH = push_bit 5 1"
definition C_PERM_WRITE_ALLOWED :: u16 where "C_PERM_WRITE_ALLOWED = push_bit 6 1"

lemmas c_perm_defs =
  C_PERM_READ_ENCRYPT_def C_PERM_READ_AUTH_def C_PERM_WRITE_ENCRYPT_def C_PERM_WRITE_AUTH_def
  C_PERM_CCCD_ENCRYPT_def C_PERM_CCCD_AUTH_def C_PERM_WRITE_ALLOWED_def

definition map_permission :: "u16 \<Rightarrow> u16 \<Rightarrow> u16 \<Rightarrow> permission_level option" where
  "map_permission msk encrypt_bit auth_bit =
     (if msk AND auth_bit \<noteq> 0 then Some AuthenticationRequired
      else if msk AND encrypt_bit \<noteq> 0 then Some EncryptionRequired
      else None)"

definition unwrap_or :: "'a option \<Rightarrow> 'a \<Rightarrow> 'a" where
  "unwrap_or x d = (case x of None \<Rightarrow> d | Some y \<Rightarrow> y)"

lemma unwrap_or_simps [simp]: "unwrap_or None d = d" "unwrap_or (Some y) d = y"
  by (simp_all add: unwrap_or_def)

definition descriptor_permissions :: "u16 \<Rightarrow> att_permissions" where
  "descriptor_permissions msk = \<lparr>
     perm_read = unwrap_or (map_permission msk C_PERM_READ_ENCRYPT C_PERM_READ_AUTH) Allowed,
     perm_write =
       (if msk AND C_PERM_WRITE_ALLOWED \<noteq> 0 then Allowed
        else unwrap_or (map_permission msk C_PERM_WRITE_ENCRYPT C_PERM_WRITE_AUTH) NotAllowed),
     min_key_len = 0\<rparr>"

definition descriptor_is_writable :: "u16 \<Rightarrow> bool" where
  "descriptor_is_writable msk \<longleftrightarrow>
     msk AND (C_PERM_WRITE_ALLOWED OR C_PERM_WRITE_ENCRYPT OR C_PERM_WRITE_AUTH) \<noteq> 0"

section \<open>UUIDs and addresses\<close>

datatype uuid = Uuid_short u16 | Uuid_long "u8 list"

definition uuid_from :: "u8 ptr \<Rightarrow> u8 \<Rightarrow> uuid" where
  "uuid_from p n =
     (case p of
        Some m \<Rightarrow>
          if n = 2 then Uuid_short (u16_from_le_bytes (m 0) (m 1))
          else if n = 16 then Uuid_long (from_raw_parts m 16)
          else Uuid_short 0
      | None \<Rightarrow> Uuid_short 0)"

definition RTBLE_ADDR_RANDOM :: u8 where "RTBLE_ADDR_RANDOM = 0"
definition RTBLE_ADDR_PUBLIC :: u8 where "RTBLE_ADDR_PUBLIC = 1"

definition c_addr_kind :: "('k, 'l, 'i) bt_ops \<Rightarrow> u8 \<Rightarrow> 'k" where
  "c_addr_kind bt kind = (if kind = RTBLE_ADDR_PUBLIC then ak_public bt else ak_random bt)"

definition addr_kind_to_c :: "('k, 'l, 'i) bt_ops \<Rightarrow> 'k \<Rightarrow> u8" where
  "addr_kind_to_c bt kind = (if kind = ak_public bt then RTBLE_ADDR_PUBLIC else RTBLE_ADDR_RANDOM)"

definition peer_address :: "('k, 'l, 'i) bt_ops \<Rightarrow> u8 list \<Rightarrow> u8 \<Rightarrow> 'k address" where
  "peer_address bt addr kind = \<lparr>addr_kind = c_addr_kind bt kind, addr_raw = addr\<rparr>"

text \<open>\<open>hw_addr\<close> is what the glue's \<^verbatim>\<open>runtime_ble_addr\<close> writes.\<close>

definition device_address :: "('k, 'l, 'i) bt_ops \<Rightarrow> u8 list \<Rightarrow> RuntimeCfg \<Rightarrow> 'k address" where
  "device_address bt hw_addr cfg =
     \<lparr>addr_kind = ak_random bt,
      addr_raw = (case cfg_address cfg of Some m \<Rightarrow> from_raw_parts m 6 | None \<Rightarrow> hw_addr)\<rparr>"

lemma addr_kind_to_c_c_addr_kind:
  "bt_ok bt \<Longrightarrow> kind \<in> {RTBLE_ADDR_RANDOM, RTBLE_ADDR_PUBLIC} \<Longrightarrow>
     addr_kind_to_c bt (c_addr_kind bt kind) = kind"
  using ak_public_neq_random[of bt]
  by (auto simp: addr_kind_to_c_def c_addr_kind_def RTBLE_ADDR_RANDOM_def RTBLE_ADDR_PUBLIC_def)

section \<open>Advertising report flags\<close>

definition SCAN_F_CONNECTABLE :: u16 where "SCAN_F_CONNECTABLE = push_bit 0 1"
definition SCAN_F_SCANNABLE :: u16 where "SCAN_F_SCANNABLE = push_bit 1 1"
definition SCAN_F_DIRECTED :: u16 where "SCAN_F_DIRECTED = push_bit 2 1"
definition SCAN_F_SCAN_RESPONSE :: u16 where "SCAN_F_SCAN_RESPONSE = push_bit 3 1"
definition SCAN_F_LEGACY :: u16 where "SCAN_F_LEGACY = push_bit 4 1"
definition SCAN_F_DATA_INCOMPLETE :: u16 where "SCAN_F_DATA_INCOMPLETE = push_bit 5 1"
definition SCAN_F_DATA_TRUNCATED :: u16 where "SCAN_F_DATA_TRUNCATED = push_bit 6 1"

lemmas scan_f_defs =
  SCAN_F_CONNECTABLE_def SCAN_F_SCANNABLE_def SCAN_F_DIRECTED_def SCAN_F_SCAN_RESPONSE_def
  SCAN_F_LEGACY_def SCAN_F_DATA_INCOMPLETE_def SCAN_F_DATA_TRUNCATED_def

datatype le_adv_event_kind = AdvInd | AdvDirectInd | AdvScanInd | AdvNonconnInd | ScanRsp

fun legacy_adv_flags :: "le_adv_event_kind \<Rightarrow> u16" where
  "legacy_adv_flags AdvInd = SCAN_F_CONNECTABLE OR SCAN_F_SCANNABLE OR SCAN_F_LEGACY"
| "legacy_adv_flags AdvDirectInd = SCAN_F_CONNECTABLE OR SCAN_F_DIRECTED OR SCAN_F_LEGACY"
| "legacy_adv_flags AdvScanInd = SCAN_F_SCANNABLE OR SCAN_F_LEGACY"
| "legacy_adv_flags AdvNonconnInd = SCAN_F_LEGACY"
| "legacy_adv_flags ScanRsp = SCAN_F_SCAN_RESPONSE OR SCAN_F_LEGACY"

datatype ext_adv_data_status = StComplete | StIncompleteMoreExpected | StIncompleteTruncated | StReserved

fun ext_data_status_flags :: "ext_adv_data_status \<Rightarrow> u16" where
  "ext_data_status_flags StComplete = 0"
| "ext_data_status_flags StIncompleteMoreExpected = SCAN_F_DATA_INCOMPLETE"
| "ext_data_status_flags StIncompleteTruncated = SCAN_F_DATA_TRUNCATED"
| "ext_data_status_flags StReserved = SCAN_F_DATA_INCOMPLETE"

section \<open>PHYs, security levels, IO capabilities\<close>

datatype phy_kind = Le1M | Le2M | LeCoded | LeCodedS2

fun phy_to_c :: "phy_kind \<Rightarrow> u8" where
  "phy_to_c Le1M = 1"
| "phy_to_c Le2M = 2"
| "phy_to_c LeCoded = 3"
| "phy_to_c LeCodedS2 = 3"

definition adv_phy_from_c :: "u8 \<Rightarrow> phy_kind" where
  "adv_phy_from_c phy = (if phy = 2 then Le2M else if phy = 3 then LeCoded else Le1M)"

datatype security_level = NoEncryption | Encrypted | EncryptedAuthenticated

fun security_level_to_c :: "security_level \<Rightarrow> u8" where
  "security_level_to_c EncryptedAuthenticated = 2"
| "security_level_to_c Encrypted = 1"
| "security_level_to_c NoEncryption = 0"

definition c_to_security_level :: "u8 \<Rightarrow> security_level option" where
  "c_to_security_level level =
     (if level = 0 then Some NoEncryption
      else if level = 1 then Some Encrypted
      else if level = 2 then Some EncryptedAuthenticated
      else None)"

lemma c_to_security_level_to_c [simp]: "c_to_security_level (security_level_to_c l) = Some l"
  by (cases l) (simp_all add: c_to_security_level_def)

lemma security_level_to_c_from_c: "c_to_security_level b = Some l \<Longrightarrow> security_level_to_c l = b"
  by (auto simp: c_to_security_level_def split: if_splits)

datatype io_capabilities =
  DisplayOnly | DisplayYesNo | KeyboardOnly | NoInputNoOutput | KeyboardDisplay

definition io_capability_from_c :: "u8 \<Rightarrow> io_capabilities" where
  "io_capability_from_c capability =
     (if capability = 1 then DisplayOnly
      else if capability = 2 then DisplayYesNo
      else if capability = 3 then KeyboardOnly
      else if capability = 5 then KeyboardDisplay
      else NoInputNoOutput)"

section \<open>C strings\<close>

text \<open>\<^verbatim>\<open>CStr::to_str\<close> fails on bytes that are not well-formed UTF-8; this is the standard
  library's check (Table 3-7 of the Unicode standard).\<close>

definition u8_between :: "u8 \<Rightarrow> u8 \<Rightarrow> u8 \<Rightarrow> bool" where
  "u8_between lo hi b \<longleftrightarrow> lo \<le> b \<and> b \<le> hi"

fun utf8_ok :: "u8 list \<Rightarrow> bool" where
  "utf8_ok [] = True"
| "utf8_ok (b # bs) =
     (if b < 0x80 then utf8_ok bs
      else case bs of
        [] \<Rightarrow> False
      | c1 # r1 \<Rightarrow>
          if u8_between 0xC2 0xDF b then u8_between 0x80 0xBF c1 \<and> utf8_ok r1
          else case r1 of
            [] \<Rightarrow> False
          | c2 # r2 \<Rightarrow>
              if u8_between 0xE0 0xEF b then
                (if b = 0xE0 then u8_between 0xA0 0xBF c1
                 else if b = 0xED then u8_between 0x80 0x9F c1
                 else u8_between 0x80 0xBF c1) \<and> u8_between 0x80 0xBF c2 \<and> utf8_ok r2
              else case r2 of
                [] \<Rightarrow> False
              | c3 # r3 \<Rightarrow>
                  u8_between 0xF0 0xF4 b \<and>
                  (if b = 0xF0 then u8_between 0x90 0xBF c1
                   else if b = 0xF4 then u8_between 0x80 0x8F c1
                   else u8_between 0x80 0xBF c1) \<and>
                  u8_between 0x80 0xBF c2 \<and> u8_between 0x80 0xBF c3 \<and> utf8_ok r3)"

text \<open>The bytes of an ASCII string.\<close>

definition ascii :: "string \<Rightarrow> u8 list" where
  "ascii s = map of_char s"

definition cstr_or :: "u8 list option \<Rightarrow> string \<Rightarrow> u8 list" where
  "cstr_or p dflt =
     (case p of None \<Rightarrow> ascii dflt
      | Some s \<Rightarrow> if utf8_ok s then s else ascii dflt)"

text \<open>The device name the session uses (\<^verbatim>\<open>serve_session\<close>, \<^verbatim>\<open>advertising_parts\<close>).\<close>

definition device_name :: "RuntimeCfg \<Rightarrow> u8 list" where
  "device_name cfg = cstr_or (cfg_device_name cfg) ''RUNTIME-BLE''"

lemma utf8_ok_ascii: "(\<And>b. b \<in> set bs \<Longrightarrow> b < 0x80) \<Longrightarrow> utf8_ok bs"
  by (induction bs) auto

text \<open>A device name that is not valid UTF-8 is never advertised: the fallback is used, so
  what is advertised is always valid UTF-8.\<close>

lemma device_name_utf8: "utf8_ok (device_name cfg)"
proof -
  have "utf8_ok (ascii ''RUNTIME-BLE'')"
    by (rule utf8_ok_ascii) (auto simp: ascii_def)
  then show ?thesis
    by (simp add: device_name_def cstr_or_def split: option.split)
qed

section \<open>Properties\<close>

text \<open>Result (char_props_roundtrip). Translating the property bits of the C API to the
  Bluetooth bits and back keeps exactly the five defined bits, and the other way round, so a
  characteristic a client discovers is reported with the properties the server declared.\<close>

theorem char_props_roundtrip:
  "props_to_c (map_props p) = p AND 0x1F \<and> map_props (props_to_c b) = b AND 0x3E"
proof
  show "props_to_c (map_props p) = p AND 0x1F"
    by (simp add: u16_eq_bits all_less_16 bit_props_to_c bit_map_props bit_props_to_c_high bit_simps
        del: One_nat_def) simp
  show "map_props (props_to_c b) = b AND 0x3E"
    by (simp add: u8_eq_bits all_less_8 bit_props_to_c bit_map_props bit_simps
        del: One_nat_def) simp
qed

text \<open>Result (descriptor_permissions_agree). The two independent readings of a descriptor's
  permission mask agree: the runtime gives a descriptor writable storage exactly when it
  grants some write permission; an authentication bit always wins over an encryption bit,
  and reads are never refused outright.\<close>

theorem descriptor_permissions_agree:
  "(descriptor_is_writable msk \<longleftrightarrow> perm_write (descriptor_permissions msk) \<noteq> NotAllowed)
   \<and> (bit msk 1 \<longrightarrow> perm_read (descriptor_permissions msk) = AuthenticationRequired)
   \<and> (bit msk 3 \<and> \<not> bit msk 6 \<longrightarrow>
        perm_write (descriptor_permissions msk) = AuthenticationRequired)
   \<and> perm_read (descriptor_permissions msk) \<noteq> NotAllowed"
proof -
  have w: "msk AND 76 = 0 \<longleftrightarrow> \<not> bit msk 2 \<and> \<not> bit msk 3 \<and> \<not> bit msk 6"
    by (auto simp: u16_eq_bits all_less_16 bit_simps)
  show ?thesis
    by (auto simp: descriptor_is_writable_def descriptor_permissions_def map_permission_def
        c_perm_defs mask_bits w)
qed

text \<open>The theorem at a mask with encrypted and authenticated reads and encrypted writes.\<close>

theorem descriptor_permissions_agree_witness:
  "descriptor_is_writable 7 \<and> perm_read (descriptor_permissions 7) = AuthenticationRequired"
proof -
  have b: "bit (7::u16) 1" by simp
  have w: "perm_write (descriptor_permissions 7) \<noteq> NotAllowed"
    by (simp add: descriptor_permissions_def map_permission_def c_perm_defs)
  show ?thesis using b w descriptor_permissions_agree[of 7] by blast
qed

end
