(* ===== verification/Shared.thy ===== *)
theory Shared
  imports Codes
begin

text \<open>
  The static state of \<^verbatim>\<open>rust/src/lib.rs\<close> through which the application's threads and the
  runtime thread communicate: one field per \<^verbatim>\<open>static\<close>, under its name. Atomics are their
  values; each API call runs to completion in this model (the interleaving of their single
  loads and stores is the subject of the theory Interleaving).
\<close>

section \<open>Constants\<close>

definition SEND_BUF_CAP :: usize where "SEND_BUF_CAP = 512"
definition SEND_KIND_AUTO :: usize where "SEND_KIND_AUTO = 0"
definition SEND_KIND_INDICATE :: usize where "SEND_KIND_INDICATE = 1"
definition NUS_TX_CHR :: usize where "NUS_TX_CHR = usize_MAX"

definition CCMD_NONE :: u32 where "CCMD_NONE = 0"
definition CCMD_SCAN_START :: u32 where "CCMD_SCAN_START = 1"
definition CCMD_SCAN_STOP :: u32 where "CCMD_SCAN_STOP = 2"
definition CCMD_CONNECT :: u32 where "CCMD_CONNECT = 3"
definition CCMD_DISCONNECT :: u32 where "CCMD_DISCONNECT = 4"
definition CCMD_DISCOVER :: u32 where "CCMD_DISCOVER = 5"
definition CCMD_READ :: u32 where "CCMD_READ = 6"
definition CCMD_WRITE :: u32 where "CCMD_WRITE = 7"
definition CCMD_SUBSCRIBE :: u32 where "CCMD_SUBSCRIBE = 8"
definition CCMD_WRITE_NO_RSP :: u32 where "CCMD_WRITE_NO_RSP = 9"
definition CCMD_DISCOVER_DESCRIPTORS :: u32 where "CCMD_DISCOVER_DESCRIPTORS = 10"
definition CCMD_SUBSCRIBE_INDICATE :: u32 where "CCMD_SUBSCRIBE_INDICATE = 11"
definition CCMD_READ_BLOB :: u32 where "CCMD_READ_BLOB = 12"
definition CCMD_DISCOVER_ALL :: u32 where "CCMD_DISCOVER_ALL = 13"
definition CCMD_DISCOVER_SERVICES :: u32 where "CCMD_DISCOVER_SERVICES = 14"
definition CCMD_READ_BY_UUID :: u32 where "CCMD_READ_BY_UUID = 15"
definition CCMD_UNSUBSCRIBE :: u32 where "CCMD_UNSUBSCRIBE = 16"

lemmas ccmd_defs =
  CCMD_NONE_def CCMD_SCAN_START_def CCMD_SCAN_STOP_def CCMD_CONNECT_def CCMD_DISCONNECT_def
  CCMD_DISCOVER_def CCMD_READ_def CCMD_WRITE_def CCMD_SUBSCRIBE_def CCMD_WRITE_NO_RSP_def
  CCMD_DISCOVER_DESCRIPTORS_def CCMD_SUBSCRIBE_INDICATE_def CCMD_READ_BLOB_def
  CCMD_DISCOVER_ALL_def CCMD_DISCOVER_SERVICES_def CCMD_READ_BY_UUID_def CCMD_UNSUBSCRIBE_def

definition LCMD_NONE :: u32 where "LCMD_NONE = 0"
definition LCMD_SET_PHY :: u32 where "LCMD_SET_PHY = 1"
definition LCMD_DLE :: u32 where "LCMD_DLE = 2"
definition LCMD_CONN_PARAMS :: u32 where "LCMD_CONN_PARAMS = 3"
definition LCMD_SECURITY_REQUEST :: u32 where "LCMD_SECURITY_REQUEST = 4"
definition LCMD_PASSKEY_CONFIRM :: u32 where "LCMD_PASSKEY_CONFIRM = 5"
definition LCMD_PASSKEY_CANCEL :: u32 where "LCMD_PASSKEY_CANCEL = 6"
definition LCMD_PASSKEY_INPUT :: u32 where "LCMD_PASSKEY_INPUT = 7"
definition LCMD_READ_RSSI :: u32 where "LCMD_READ_RSSI = 8"
definition LCMD_READ_ATT_MTU :: u32 where "LCMD_READ_ATT_MTU = 9"
definition LCMD_FRAME_SPACE :: u32 where "LCMD_FRAME_SPACE = 10"
definition LCMD_CONNECTION_RATE :: u32 where "LCMD_CONNECTION_RATE = 11"
definition LCMD_READ_PHY :: u32 where "LCMD_READ_PHY = 12"
definition LCMD_READ_SECURITY :: u32 where "LCMD_READ_SECURITY = 13"

lemmas lcmd_defs =
  LCMD_NONE_def LCMD_SET_PHY_def LCMD_DLE_def LCMD_CONN_PARAMS_def LCMD_SECURITY_REQUEST_def
  LCMD_PASSKEY_CONFIRM_def LCMD_PASSKEY_CANCEL_def LCMD_PASSKEY_INPUT_def LCMD_READ_RSSI_def
  LCMD_READ_ATT_MTU_def LCMD_FRAME_SPACE_def LCMD_CONNECTION_RATE_def LCMD_READ_PHY_def
  LCMD_READ_SECURITY_def

definition BCMD_NONE :: u32 where "BCMD_NONE = 0"
definition BCMD_ENUMERATE :: u32 where "BCMD_ENUMERATE = 1"
definition BCMD_DELETE :: u32 where "BCMD_DELETE = 2"
definition BCMD_DELETE_ALL :: u32 where "BCMD_DELETE_ALL = 3"
definition BCMD_SET_IO_CAPABILITY :: u32 where "BCMD_SET_IO_CAPABILITY = 4"

lemmas bcmd_defs =
  BCMD_NONE_def BCMD_ENUMERATE_def BCMD_DELETE_def BCMD_DELETE_ALL_def BCMD_SET_IO_CAPABILITY_def

definition VALUE_LEN :: "features \<Rightarrow> nat" where
  "VALUE_LEN f = (if f_full f then 244 else 128)"

lemma VALUE_LEN_bounds: "128 \<le> VALUE_LEN f" "VALUE_LEN f \<le> 244" "VALUE_LEN f \<le> unat SEND_BUF_CAP"
  by (simp_all add: VALUE_LEN_def SEND_BUF_CAP_def)

section \<open>The statics\<close>

record shared =
  UNLOAD_REQ :: bool
  SEND_REQ :: bool
  SEND_LEN :: usize
  SEND_BUF :: "u8 list"
  SEND_CHR :: usize
  SEND_KIND :: usize
  CENTRAL_CMD :: u32
  CENTRAL_HANDLE :: u32
  CENTRAL_ADDR :: "u8 list"
  CENTRAL_ADDR_KIND :: usize
  CENTRAL_UUID :: "u8 list"
  CENTRAL_UUID_LEN :: usize
  SCAN_ACTIVE :: bool
  SCAN_INTERVAL_MS :: usize
  SCAN_WINDOW_MS :: usize
  SCAN_TIMEOUT_MS :: usize
  SCAN_FILTER_DUPLICATES :: bool
  SCAN_PHY_OPTIONS :: usize
  SCAN_FILTER_ADDR_ENABLED :: bool
  SCAN_FILTER_ADDR :: "u8 list"
  SCAN_FILTER_ADDR_KIND :: usize
  L2CAP_SEND_REQ :: bool
  L2CAP_SEND_LEN :: usize
  L2CAP_SEND_BUF :: "u8 list"
  L2CAP_DISCONNECT_REQ :: bool
  LINK_CMD :: u32
  LINK_PHY :: usize
  LINK_DLE_OCTETS :: usize
  LINK_DLE_TIME_US :: usize
  LINK_CONN_MIN_MS :: usize
  LINK_CONN_MAX_MS :: usize
  LINK_CONN_LATENCY :: usize
  LINK_CONN_TIMEOUT_MS :: usize
  LINK_FRAME_SPACE_MIN_US :: usize
  LINK_FRAME_SPACE_MAX_US :: usize
  LINK_FRAME_SPACE_PHY_MASK :: usize
  LINK_FRAME_SPACE_TYPES :: usize
  LINK_RATE_SUBRATE_MIN :: usize
  LINK_RATE_SUBRATE_MAX :: usize
  LINK_RATE_CONTINUATION :: usize
  LINK_PASSKEY :: u32
  BOND_CMD :: u32
  BOND_INDEX :: usize
  BOND_IO_CAPABILITY :: usize
  LOAD_STATUS :: c_int

text \<open>The initial values of the statics.\<close>

definition shared_init :: shared where
  "shared_init = \<lparr>
     UNLOAD_REQ = False,
     SEND_REQ = False,
     SEND_LEN = 0,
     SEND_BUF = replicate 512 0,
     SEND_CHR = NUS_TX_CHR,
     SEND_KIND = SEND_KIND_AUTO,
     CENTRAL_CMD = CCMD_NONE,
     CENTRAL_HANDLE = 0,
     CENTRAL_ADDR = replicate 6 0,
     CENTRAL_ADDR_KIND = 0,
     CENTRAL_UUID = replicate 16 0,
     CENTRAL_UUID_LEN = 0,
     SCAN_ACTIVE = False,
     SCAN_INTERVAL_MS = 0,
     SCAN_WINDOW_MS = 0,
     SCAN_TIMEOUT_MS = 0,
     SCAN_FILTER_DUPLICATES = False,
     SCAN_PHY_OPTIONS = 0,
     SCAN_FILTER_ADDR_ENABLED = False,
     SCAN_FILTER_ADDR = replicate 6 0,
     SCAN_FILTER_ADDR_KIND = 0,
     L2CAP_SEND_REQ = False,
     L2CAP_SEND_LEN = 0,
     L2CAP_SEND_BUF = replicate 512 0,
     L2CAP_DISCONNECT_REQ = False,
     LINK_CMD = LCMD_NONE,
     LINK_PHY = 0,
     LINK_DLE_OCTETS = 0,
     LINK_DLE_TIME_US = 0,
     LINK_CONN_MIN_MS = 0,
     LINK_CONN_MAX_MS = 0,
     LINK_CONN_LATENCY = 0,
     LINK_CONN_TIMEOUT_MS = 0,
     LINK_FRAME_SPACE_MIN_US = 0,
     LINK_FRAME_SPACE_MAX_US = 0,
     LINK_FRAME_SPACE_PHY_MASK = 0,
     LINK_FRAME_SPACE_TYPES = 0,
     LINK_RATE_SUBRATE_MIN = 0,
     LINK_RATE_SUBRATE_MAX = 0,
     LINK_RATE_CONTINUATION = 0,
     LINK_PASSKEY = 0,
     BOND_CMD = BCMD_NONE,
     BOND_INDEX = 0,
     BOND_IO_CAPABILITY = 0,
     LOAD_STATUS = RUNTIME_BLE_LOAD_PENDING\<rparr>"

section \<open>The invariant of the statics\<close>

text \<open>
  What every API call keeps and the runtime thread relies on: the buffers have their
  declared sizes, a queued transfer fits its buffer, and every parameter word holds a value
  of the width the API takes it at, so that the narrowing conversions of the runtime
  (\<^verbatim>\<open>as u8\<close>, \<^verbatim>\<open>as u16\<close>, \<^verbatim>\<open>.min(u16::MAX)\<close>) never change it.
\<close>

definition u16_range :: "usize \<Rightarrow> bool" where
  "u16_range w \<longleftrightarrow> unat w < 2 ^ 16"

definition u8_range :: "usize \<Rightarrow> bool" where
  "u8_range w \<longleftrightarrow> unat w < 2 ^ 8"

definition tx_inv :: "shared \<Rightarrow> bool" where
  "tx_inv s \<longleftrightarrow> length (SEND_BUF s) = 512 \<and> SEND_LEN s \<le> SEND_BUF_CAP"

definition l2cap_inv :: "shared \<Rightarrow> bool" where
  "l2cap_inv s \<longleftrightarrow> length (L2CAP_SEND_BUF s) = 512 \<and> L2CAP_SEND_LEN s \<le> SEND_BUF_CAP"

definition central_inv :: "shared \<Rightarrow> bool" where
  "central_inv s \<longleftrightarrow>
     length (CENTRAL_ADDR s) = 6 \<and> length (CENTRAL_UUID s) = 16 \<and> length (SCAN_FILTER_ADDR s) = 6
     \<and> CENTRAL_UUID_LEN s \<in> {0, 2, 16}
     \<and> u8_range (CENTRAL_ADDR_KIND s) \<and> u8_range (SCAN_FILTER_ADDR_KIND s)
     \<and> u16_range (SCAN_INTERVAL_MS s) \<and> u16_range (SCAN_WINDOW_MS s)
     \<and> u16_range (SCAN_TIMEOUT_MS s)
     \<and> SCAN_PHY_OPTIONS s AND 0x0e = SCAN_PHY_OPTIONS s"

definition link_inv :: "shared \<Rightarrow> bool" where
  "link_inv s \<longleftrightarrow>
     LINK_PHY s \<in> {0, 1, 2, 3}
     \<and> u16_range (LINK_DLE_OCTETS s) \<and> u16_range (LINK_DLE_TIME_US s)
     \<and> u16_range (LINK_CONN_MIN_MS s) \<and> u16_range (LINK_CONN_MAX_MS s)
     \<and> u16_range (LINK_CONN_LATENCY s) \<and> u16_range (LINK_CONN_TIMEOUT_MS s)
     \<and> u8_range (LINK_FRAME_SPACE_PHY_MASK s) \<and> u8_range (LINK_FRAME_SPACE_TYPES s)
     \<and> u16_range (LINK_RATE_SUBRATE_MIN s) \<and> u16_range (LINK_RATE_SUBRATE_MAX s)
     \<and> u16_range (LINK_RATE_CONTINUATION s)
     \<and> LINK_PASSKEY s \<le> 999999"

definition bond_inv :: "shared \<Rightarrow> bool" where
  "bond_inv s \<longleftrightarrow> u8_range (BOND_INDEX s) \<and> BOND_IO_CAPABILITY s \<le> 5"

definition shared_inv :: "shared \<Rightarrow> bool" where
  "shared_inv s \<longleftrightarrow> tx_inv s \<and> l2cap_inv s \<and> central_inv s \<and> link_inv s \<and> bond_inv s"

lemmas channel_inv_defs = tx_inv_def l2cap_inv_def central_inv_def link_inv_def bond_inv_def

named_theorems range_simps

lemma ucast_ranges [range_simps, simp]:
  "u16_range (ucast (w :: u16))" "u16_range (ucast (b :: u8))" "u8_range (ucast (b :: u8))"
proof -
  have w: "unat w < 65536" and b: "unat b < 256"
    using unsigned_less[of w] unsigned_less[of b] by simp_all
  show "u16_range (ucast w)" "u16_range (ucast b)" "u8_range (ucast b)"
    using w b by (simp_all add: u16_range_def u8_range_def unsigned_ucast_eq take_bit_nat_eq_self)
qed

lemma range_0 [range_simps, simp]: "u16_range 0" "u8_range 0"
  by (simp_all add: u16_range_def u8_range_def)

lemma shared_inv_init: "shared_inv shared_init"
  by (simp add: shared_inv_def channel_inv_defs shared_init_def SEND_BUF_CAP_def)

text \<open>A value in range survives the narrowing and the clamping of the runtime.\<close>

lemma u16_range_ucast: "u16_range w \<Longrightarrow> unat (ucast w :: u16) = unat w"
  by (simp add: u16_range_def unsigned_ucast_eq take_bit_nat_eq_self)

lemma u8_range_ucast: "u8_range w \<Longrightarrow> unat (ucast w :: u8) = unat w"
  by (simp add: u8_range_def unsigned_ucast_eq take_bit_nat_eq_self)

lemma u16_range_min: "u16_range w \<Longrightarrow> min w 0xFFFF = w"
  by (simp add: u16_range_def min_def word_le_nat_alt)

lemma u8_range_min: "u8_range w \<Longrightarrow> min w 0xFF = w"
  by (simp add: u8_range_def min_def word_le_nat_alt)

end
