(* ===== verification/Mailbox.thy ===== *)
theory Mailbox
  imports Prelude
begin

text \<open>
  The interface between the application's threads and the runtime thread: a mailbox that
  holds at most one message. The application posts, and gets \<open>RUNTIME_BLE_OK\<close>, or
  \<open>RUNTIME_BLE_ERR_NO_MEM\<close> while the previous message has not been fetched, or
  \<open>RUNTIME_BLE_ERR_INVALID\<close> for a message that fails its checks; the runtime fetches.
  The transmit queue, the bond administration commands, the GATT client commands, the link
  commands and the L2CAP send queue are all of this shape, and each interprets the locale
  on its own state, with the message it really hands over.
\<close>

section \<open>Runs of a mailbox\<close>

datatype 'm mb_op = Post 'm | Fetch

text \<open>A run returns the accepted messages, the fetched ones and the final state.\<close>

fun mb_run ::
  "('m \<Rightarrow> 's \<Rightarrow> c_int \<times> 's) \<Rightarrow> ('s \<Rightarrow> 'n option \<times> 's) \<Rightarrow> 'm mb_op list \<Rightarrow> 's \<Rightarrow>
     'm list \<times> 'n list \<times> 's" where
  "mb_run post fetch [] s = ([], [], s)"
| "mb_run post fetch (Post m # ops) s =
     (let (rc, s1) = post m s; (acc, del, s2) = mb_run post fetch ops s1
      in (if rc = RUNTIME_BLE_OK then m # acc else acc, del, s2))"
| "mb_run post fetch (Fetch # ops) s =
     (let (r, s1) = fetch s; (acc, del, s2) = mb_run post fetch ops s1
      in (acc, (case r of None \<Rightarrow> del | Some n \<Rightarrow> n # del), s2))"

definition opt_list :: "'a option \<Rightarrow> 'a list" where
  "opt_list x = (case x of None \<Rightarrow> [] | Some y \<Rightarrow> [y])"

lemma opt_list_simps [simp]: "opt_list None = []" "opt_list (Some y) = [y]"
  by (simp_all add: opt_list_def)

lemma length_opt_list: "length (opt_list x) \<le> 1"
  by (cases x) simp_all

section \<open>The contract\<close>

text \<open>A refused post may leave traces in the state, but not in the waiting message.\<close>

locale mailbox =
  fixes inv :: "'s \<Rightarrow> bool"
    and pending :: "'s \<Rightarrow> 'n option"
    and post :: "'m \<Rightarrow> 's \<Rightarrow> c_int \<times> 's"
    and fetch :: "'s \<Rightarrow> 'n option \<times> 's"
    and valid :: "'m \<Rightarrow> bool"
    and view :: "'m \<Rightarrow> 'n"
  assumes inv_post: "inv s \<Longrightarrow> inv (snd (post m s))"
    and post_idle: "inv s \<Longrightarrow> valid m \<Longrightarrow> pending s = None \<Longrightarrow>
      fst (post m s) = RUNTIME_BLE_OK \<and> pending (snd (post m s)) = Some (view m)"
    and post_busy: "inv s \<Longrightarrow> valid m \<Longrightarrow> pending s \<noteq> None \<Longrightarrow>
      fst (post m s) = RUNTIME_BLE_ERR_NO_MEM \<and> pending (snd (post m s)) = pending s"
    and post_invalid: "inv s \<Longrightarrow> \<not> valid m \<Longrightarrow>
      fst (post m s) = RUNTIME_BLE_ERR_INVALID \<and> pending (snd (post m s)) = pending s"
    and fetch_pending: "inv s \<Longrightarrow>
      fst (fetch s) = pending s \<and> inv (snd (fetch s)) \<and> pending (snd (fetch s)) = None"
begin

lemma post_ok_iff: "inv s \<Longrightarrow> fst (post m s) = RUNTIME_BLE_OK \<longleftrightarrow> valid m \<and> pending s = None"
  using post_idle[of s m] post_busy[of s m] post_invalid[of s m]
  by (cases "valid m"; cases "pending s") (auto simp: result_codes)

lemma post_refused_pending:
  "inv s \<Longrightarrow> fst (post m s) \<noteq> RUNTIME_BLE_OK \<Longrightarrow> pending (snd (post m s)) = pending s"
  using post_idle[of s m] post_busy[of s m] post_invalid[of s m]
  by (cases "valid m"; cases "pending s") auto

lemma post_result:
  "inv s \<Longrightarrow> fst (post m s) =
     (if \<not> valid m then RUNTIME_BLE_ERR_INVALID
      else if pending s = None then RUNTIME_BLE_OK else RUNTIME_BLE_ERR_NO_MEM)"
  using post_idle[of s m] post_busy[of s m] post_invalid[of s m] by auto

text \<open>The messages fetched are the accepted ones, in order, each exactly once; at most one
  accepted message is still waiting.\<close>

lemma run_fifo:
  assumes "inv s" "mb_run post fetch ops s = (acc, del, s')"
  shows "opt_list (pending s) @ map view acc = del @ opt_list (pending s') \<and> inv s'"
  using assms
proof (induction ops arbitrary: s acc del)
  case Nil
  then show ?case by simp
next
  case (Cons x ops)
  show ?case
  proof (cases x)
    case (Post m)
    obtain acc1 del1 where r: "mb_run post fetch ops (snd (post m s)) = (acc1, del1, s')"
      and acc: "acc = (if fst (post m s) = RUNTIME_BLE_OK then m # acc1 else acc1)" "del = del1"
      using Cons.prems Post by (auto simp: Let_def split: prod.splits)
    have ih: "opt_list (pending (snd (post m s))) @ map view acc1 = del @ opt_list (pending s') \<and> inv s'"
      using Cons.IH[OF inv_post[OF Cons.prems(1)] r] acc(2) by simp
    show ?thesis
    proof (cases "fst (post m s) = RUNTIME_BLE_OK")
      case True
      then show ?thesis
        using ih acc post_idle[OF Cons.prems(1)] post_ok_iff[OF Cons.prems(1)] by auto
    next
      case False
      then show ?thesis using ih acc post_refused_pending[OF Cons.prems(1) False] by simp
    qed
  next
    case Fetch
    obtain acc1 del1 where r: "mb_run post fetch ops (snd (fetch s)) = (acc1, del1, s')"
      and acc: "acc = acc1" "del = opt_list (fst (fetch s)) @ del1"
      using Cons.prems Fetch by (auto simp: Let_def split: prod.splits option.splits)
    have f: "fst (fetch s) = pending s" "inv (snd (fetch s))" "pending (snd (fetch s)) = None"
      using fetch_pending[OF Cons.prems(1)] by auto
    show ?thesis using Cons.IH[OF f(2) r] f acc by simp
  qed
qed

lemma run_fifo_from_idle:
  assumes "inv s" "pending s = None" "mb_run post fetch ops s = (acc, del, s')"
  shows "map view acc = del @ opt_list (pending s')"
  using run_fifo[OF assms(1,3)] assms(2) by simp

text \<open>A message posted to an idle mailbox is what the next fetch returns, whatever posts
  come in between.\<close>

lemma post_then_fetch:
  assumes "inv s" "valid m" "pending s = None"
  shows "fst (fetch (snd (post m' (snd (post m s))))) = Some (view m)"
proof -
  have 1: "inv (snd (post m s))" "pending (snd (post m s)) = Some (view m)"
    using inv_post post_idle assms by auto
  have 2: "pending (snd (post m' (snd (post m s)))) = Some (view m)"
    using post_busy[OF 1(1), of m'] post_invalid[OF 1(1), of m'] 1(2) by (cases "valid m'") auto
  then show ?thesis using fetch_pending[OF inv_post[OF 1(1)]] by simp
qed

end

text \<open>A mailbox whose refused posts change nothing at all.\<close>

locale atomic_mailbox = mailbox +
  assumes refused_frame: "inv s \<Longrightarrow> fst (post m s) \<noteq> RUNTIME_BLE_OK \<Longrightarrow> snd (post m s) = s"
begin

lemma post_busy_noop:
  "inv s \<Longrightarrow> valid m \<Longrightarrow> pending s \<noteq> None \<Longrightarrow> post m s = (RUNTIME_BLE_ERR_NO_MEM, s)"
  using refused_frame[of s m] post_busy[of s m] by (simp add: prod_eq_iff result_codes)

lemma post_invalid_noop: "inv s \<Longrightarrow> \<not> valid m \<Longrightarrow> post m s = (RUNTIME_BLE_ERR_INVALID, s)"
  using refused_frame[of s m] post_invalid[of s m] by (simp add: prod_eq_iff result_codes)

end

end
