(* ===== verification/TxApi.thy ===== *)
theory TxApi
  imports Shared Mailbox
begin

text \<open>
  The transmit queue of \<^verbatim>\<open>lib.rs\<close>: \<^verbatim>\<open>runtime_ble_send\<close>, \<^verbatim>\<open>runtime_ble_notify\<close> and
  \<^verbatim>\<open>runtime_ble_indicate\<close> put one value into \<^verbatim>\<open>SEND_BUF\<close>, and the \<^verbatim>\<open>tx\<close> loop of
  \<^verbatim>\<open>connection_task\<close> takes it out, cut to the size of a characteristic value. The queue
  is an atomic mailbox.
\<close>

section \<open>Operations\<close>

definition queue_tx :: "usize \<Rightarrow> usize \<Rightarrow> u8 ptr \<Rightarrow> usize \<Rightarrow> shared \<Rightarrow> c_int \<times> shared" where
  "queue_tx chr kind data len s =
     (case data of
        None \<Rightarrow> (RUNTIME_BLE_ERR_INVALID, s)
      | Some m \<Rightarrow>
          if len = 0 \<or> len > SEND_BUF_CAP then (RUNTIME_BLE_ERR_INVALID, s)
          else if SEND_REQ s then (RUNTIME_BLE_ERR_NO_MEM, s)
          else (RUNTIME_BLE_OK,
                s\<lparr>SEND_BUF := blit (SEND_BUF s) 0 (from_raw_parts m (unat len)),
                  SEND_CHR := chr,
                  SEND_KIND := kind,
                  SEND_LEN := len,
                  SEND_REQ := True\<rparr>))"

definition runtime_ble_send :: "u8 ptr \<Rightarrow> usize \<Rightarrow> shared \<Rightarrow> c_int \<times> shared" where
  "runtime_ble_send data len s = queue_tx NUS_TX_CHR SEND_KIND_AUTO data len s"

definition runtime_ble_notify :: "u16 \<Rightarrow> u8 ptr \<Rightarrow> usize \<Rightarrow> shared \<Rightarrow> c_int \<times> shared" where
  "runtime_ble_notify chr data len s = queue_tx (ucast chr) SEND_KIND_AUTO data len s"

definition runtime_ble_indicate :: "u16 \<Rightarrow> u8 ptr \<Rightarrow> usize \<Rightarrow> shared \<Rightarrow> c_int \<times> shared" where
  "runtime_ble_indicate chr data len s = queue_tx (ucast chr) SEND_KIND_INDICATE data len s"

text \<open>The first half of the body of the \<^verbatim>\<open>tx\<close> loop, up to \<^verbatim>\<open>SEND_REQ.store(false)\<close>: the
  target, the kind and the bytes \<^verbatim>\<open>&txbuf[..len]\<close>.\<close>

definition tx_fetch :: "features \<Rightarrow> shared \<Rightarrow> (usize \<times> usize \<times> u8 list) option \<times> shared" where
  "tx_fetch f s =
     (if SEND_REQ s then
        let chr = SEND_CHR s;
            kind = SEND_KIND s;
            len = min (min (unat (SEND_LEN s)) (VALUE_LEN f)) (unat SEND_BUF_CAP);
            txbuf = blit (replicate (VALUE_LEN f) 0) 0 (take len (SEND_BUF s))
        in (Some (chr, kind, take len txbuf), s\<lparr>SEND_REQ := False\<rparr>)
      else (None, s))"

section \<open>The queue as a mailbox\<close>

text \<open>A message is the arguments of \<^verbatim>\<open>queue_tx\<close>.\<close>

type_synonym tx_msg = "usize \<times> usize \<times> u8 ptr \<times> usize"

definition tx_post :: "tx_msg \<Rightarrow> shared \<Rightarrow> c_int \<times> shared" where
  "tx_post m s = (case m of (chr, kind, data, len) \<Rightarrow> queue_tx chr kind data len s)"

definition tx_valid :: "tx_msg \<Rightarrow> bool" where
  "tx_valid m = (case m of (chr, kind, data, len) \<Rightarrow>
     data \<noteq> None \<and> len \<noteq> 0 \<and> len \<le> SEND_BUF_CAP)"

text \<open>What the peer is sent: the first \<open>VALUE_LEN\<close> bytes.\<close>

definition tx_view :: "features \<Rightarrow> tx_msg \<Rightarrow> usize \<times> usize \<times> u8 list" where
  "tx_view f m = (case m of (chr, kind, data, len) \<Rightarrow>
     (chr, kind, take (VALUE_LEN f) (slice_or_empty data (unat len))))"

definition tx_pending :: "features \<Rightarrow> shared \<Rightarrow> (usize \<times> usize \<times> u8 list) option" where
  "tx_pending f s =
     (if SEND_REQ s
      then Some (SEND_CHR s, SEND_KIND s, take (VALUE_LEN f) (take (unat (SEND_LEN s)) (SEND_BUF s)))
      else None)"

lemma unat_le_cap: "len \<le> SEND_BUF_CAP \<Longrightarrow> unat len \<le> 512"
  by (simp add: SEND_BUF_CAP_def word_le_nat_alt)

lemma tx_inv_queue_tx: "tx_inv s \<Longrightarrow> tx_inv (snd (queue_tx chr kind data len s))"
  using unat_le_cap[of len]
  by (auto simp: queue_tx_def tx_inv_def not_less split: option.split)

lemma tx_fetch_pending:
  assumes "tx_inv s"
  shows "fst (tx_fetch f s) = tx_pending f s" "snd (tx_fetch f s) = s\<lparr>SEND_REQ := False\<rparr>"
proof -
  have len: "unat (SEND_LEN s) \<le> length (SEND_BUF s)" "unat (SEND_LEN s) \<le> 512"
    using assms unat_le_cap by (auto simp: tx_inv_def)
  show "fst (tx_fetch f s) = tx_pending f s"
    using len VALUE_LEN_bounds[of f]
    by (auto simp: tx_fetch_def tx_pending_def Let_def blit_def SEND_BUF_CAP_def min_def)
  show "snd (tx_fetch f s) = s\<lparr>SEND_REQ := False\<rparr>"
    by (simp add: tx_fetch_def Let_def)
qed

interpretation txq: atomic_mailbox tx_inv "tx_pending f" tx_post "tx_fetch f" tx_valid "tx_view f"
proof unfold_locales
  fix s :: shared and m :: tx_msg
  assume inv: "tx_inv s"
  obtain chr kind data len where m: "m = (chr, kind, data, len)" by (cases m) auto
  show "tx_inv (snd (tx_post m s))"
    using inv by (simp add: tx_post_def m tx_inv_queue_tx)
  show "fst (tx_post m s) = RUNTIME_BLE_OK \<and> tx_pending f (snd (tx_post m s)) = Some (tx_view f m)"
    if "tx_valid m" "tx_pending f s = None"
    using that inv unat_le_cap[of len]
    by (auto simp: tx_post_def m queue_tx_def tx_valid_def tx_pending_def tx_view_def tx_inv_def
        slice_or_empty_def blit_def not_less split: option.splits if_splits)
  show "fst (tx_post m s) = RUNTIME_BLE_ERR_NO_MEM \<and> tx_pending f (snd (tx_post m s)) = tx_pending f s"
    if "tx_valid m" "tx_pending f s \<noteq> None"
    using that by (auto simp: tx_post_def m queue_tx_def tx_valid_def tx_pending_def not_less
        split: if_splits)
  show "fst (tx_post m s) = RUNTIME_BLE_ERR_INVALID \<and> tx_pending f (snd (tx_post m s)) = tx_pending f s"
    if "\<not> tx_valid m"
    using that by (auto simp: tx_post_def m queue_tx_def tx_valid_def split: option.splits)
  show "snd (tx_post m s) = s" if "fst (tx_post m s) \<noteq> RUNTIME_BLE_OK"
    using that by (auto simp: tx_post_def m queue_tx_def split: option.splits if_splits)
  show "fst (tx_fetch f s) = tx_pending f s \<and> tx_inv (snd (tx_fetch f s))
        \<and> tx_pending f (snd (tx_fetch f s)) = None"
    using inv by (simp add: tx_fetch_pending tx_inv_def tx_pending_def)
qed

section \<open>Properties\<close>

text \<open>Result (tx_queue_result). \<^verbatim>\<open>queue_tx\<close> refuses a null pointer, an empty value and a value
  longer than the 512-byte buffer as invalid, refuses everything while the previous value has
  not been taken, and otherwise accepts; a refused call changes no static at all, and an
  accepted one leaves the caller's target, kind and bytes waiting, cut to \<open>VALUE_LEN\<close>.\<close>

theorem tx_queue_result:
  assumes "tx_inv s" "(rc, s') = queue_tx chr kind data len s"
  shows "rc = (if data = None \<or> len = 0 \<or> len > SEND_BUF_CAP then RUNTIME_BLE_ERR_INVALID
               else if SEND_REQ s then RUNTIME_BLE_ERR_NO_MEM else RUNTIME_BLE_OK)
     \<and> (rc \<noteq> RUNTIME_BLE_OK \<longrightarrow> s' = s)
     \<and> (rc = RUNTIME_BLE_OK \<longrightarrow> tx_inv s' \<and>
          tx_pending f s' = Some (chr, kind, take (VALUE_LEN f) (slice_or_empty data (unat len))))"
proof -
  let ?m = "(chr, kind, data, len)"
  have post: "tx_post ?m s = (rc, s')" using assms(2) by (simp add: tx_post_def)
  have "rc = (if data = None \<or> len = 0 \<or> len > SEND_BUF_CAP then RUNTIME_BLE_ERR_INVALID
               else if SEND_REQ s then RUNTIME_BLE_ERR_NO_MEM else RUNTIME_BLE_OK)"
    using txq.post_result[OF assms(1), of ?m f] post
    by (auto simp: tx_valid_def tx_pending_def not_less split: if_splits)
  moreover have "rc \<noteq> RUNTIME_BLE_OK \<longrightarrow> s' = s"
    using txq.refused_frame[OF assms(1), of ?m] post by auto
  moreover have "rc = RUNTIME_BLE_OK \<longrightarrow> tx_inv s' \<and>
          tx_pending f s' = Some (chr, kind, take (VALUE_LEN f) (slice_or_empty data (unat len)))"
    using txq.post_idle[OF assms(1), of ?m f] txq.post_ok_iff[OF assms(1), of ?m f]
      txq.inv_post[OF assms(1), of ?m] post
    by (auto simp: tx_view_def)
  ultimately show ?thesis by blast
qed

theorem tx_queue_result_witness:
  "tx_inv shared_init \<and>
   tx_pending minimum_build (snd (queue_tx 3 0 (Some (\<lambda>i. 7)) 2 shared_init)) = Some (3, 0, [7, 7])"
proof -
  let ?q = "queue_tx 3 0 (Some (\<lambda>i. 7)) 2 shared_init"
  have inv: "tx_inv shared_init" using shared_inv_init by (simp add: shared_inv_def)
  have "(fst ?q, snd ?q) = ?q" by simp
  then show ?thesis
    using tx_queue_result[OF inv, of "fst ?q" "snd ?q" 3 0 "Some (\<lambda>i. 7)" 2 minimum_build] inv
    by (simp add: queue_tx_def shared_init_def SEND_BUF_CAP_def result_codes
        slice_or_empty_def VALUE_LEN_def minimum_build_def from_raw_parts_def upt_rec)
qed

text \<open>Result (tx_queue_fifo). Over any interleaving of queued transmissions and of turns of the
  runtime's transmit loop, starting with nothing queued, the values handed to the link are
  exactly the accepted ones, in order, none lost and none sent twice, each cut to
  \<open>VALUE_LEN\<close> bytes; at most one accepted value is still waiting.\<close>

theorem tx_queue_fifo:
  assumes "tx_inv s" "\<not> SEND_REQ s"
    and "mb_run tx_post (tx_fetch f) ops s = (accepted, sent, s')"
  shows "map (tx_view f) accepted = sent @ opt_list (tx_pending f s')"
proof -
  have "tx_pending f s = None" using assms(2) by (simp add: tx_pending_def)
  then show ?thesis by (rule txq.run_fifo_from_idle[OF assms(1) _ assms(3)])
qed

definition tx_demo_ops :: "tx_msg mb_op list" where
  "tx_demo_ops = [Post (1, 0, Some (\<lambda>i. 5), 1), Post (2, 0, Some (\<lambda>i. 6), 1), Fetch,
                  Post (2, 1, Some (\<lambda>i. 6), 1)]"

theorem tx_queue_fifo_witness:
  "\<exists>accepted sent s'. mb_run tx_post (tx_fetch minimum_build) tx_demo_ops shared_init = (accepted, sent, s')
     \<and> length accepted = 2 \<and> map (tx_view minimum_build) accepted = sent @ opt_list (tx_pending minimum_build s')"
proof -
  obtain accepted sent s' where
    run: "mb_run tx_post (tx_fetch minimum_build) tx_demo_ops shared_init = (accepted, sent, s')"
    by (metis prod_cases3)
  have inv: "tx_inv shared_init" "\<not> SEND_REQ shared_init"
    using shared_inv_init by (simp_all add: shared_inv_def shared_init_def)
  have "length (fst (mb_run tx_post (tx_fetch minimum_build) tx_demo_ops shared_init)) = 2"
    by (simp add: tx_demo_ops_def tx_post_def queue_tx_def tx_fetch_def shared_init_def Let_def
        SEND_BUF_CAP_def result_codes)
  then show ?thesis using run tx_queue_fifo[OF inv run] by auto
qed

end
