(* ===== verification/LinkApi.thy ===== *)
theory LinkApi
  imports Shared Mailbox
begin

text \<open>
  The link-control calls of \<^verbatim>\<open>lib.rs\<close>: each stores its parameters and asks \<^verbatim>\<open>link_cmd\<close> to
  post the command, which the runtime takes with \<^verbatim>\<open>LINK_CMD.swap(LCMD_NONE)\<close>. The command
  numbers form a mailbox. It is not an atomic one: a call stores its parameters before it
  learns that another command is still waiting.
\<close>

section \<open>Operations\<close>

definition link_cmd :: "u32 \<Rightarrow> shared \<Rightarrow> c_int \<times> shared" where
  "link_cmd cmd s =
     (if LINK_CMD s \<noteq> LCMD_NONE then (RUNTIME_BLE_ERR_NO_MEM, s)
      else (RUNTIME_BLE_OK, s\<lparr>LINK_CMD := cmd\<rparr>))"

definition runtime_ble_set_phy :: "u8 \<Rightarrow> shared \<Rightarrow> c_int \<times> shared" where
  "runtime_ble_set_phy phy s =
     (if phy \<noteq> 1 \<and> phy \<noteq> 2 \<and> phy \<noteq> 3 then (RUNTIME_BLE_ERR_INVALID, s)
      else link_cmd LCMD_SET_PHY (s\<lparr>LINK_PHY := ucast phy\<rparr>))"

definition runtime_ble_update_data_length :: "u16 \<Rightarrow> u16 \<Rightarrow> shared \<Rightarrow> c_int \<times> shared" where
  "runtime_ble_update_data_length tx_octets tx_time_us s =
     link_cmd LCMD_DLE (s\<lparr>LINK_DLE_OCTETS := ucast tx_octets, LINK_DLE_TIME_US := ucast tx_time_us\<rparr>)"

definition runtime_ble_update_conn_params ::
  "u16 \<Rightarrow> u16 \<Rightarrow> u16 \<Rightarrow> u16 \<Rightarrow> shared \<Rightarrow> c_int \<times> shared" where
  "runtime_ble_update_conn_params min_interval_ms max_interval_ms latency timeout_ms s =
     link_cmd LCMD_CONN_PARAMS
       (s\<lparr>LINK_CONN_MIN_MS := ucast min_interval_ms,
          LINK_CONN_MAX_MS := ucast max_interval_ms,
          LINK_CONN_LATENCY := ucast latency,
          LINK_CONN_TIMEOUT_MS := ucast timeout_ms\<rparr>)"

definition runtime_ble_update_frame_space ::
  "u32 \<Rightarrow> u32 \<Rightarrow> u8 \<Rightarrow> u8 \<Rightarrow> shared \<Rightarrow> c_int \<times> shared" where
  "runtime_ble_update_frame_space min_us max_us phy_mask spacing_types s =
     link_cmd LCMD_FRAME_SPACE
       (s\<lparr>LINK_FRAME_SPACE_MIN_US := min_us,
          LINK_FRAME_SPACE_MAX_US := max_us,
          LINK_FRAME_SPACE_PHY_MASK := ucast phy_mask,
          LINK_FRAME_SPACE_TYPES := ucast spacing_types\<rparr>)"

definition runtime_ble_request_connection_rate ::
  "u16 \<Rightarrow> u16 \<Rightarrow> u16 \<Rightarrow> u16 \<Rightarrow> u16 \<Rightarrow> u16 \<Rightarrow> u16 \<Rightarrow> shared \<Rightarrow> c_int \<times> shared" where
  "runtime_ble_request_connection_rate min_interval_ms max_interval_ms subrate_min subrate_max
       latency continuation_number timeout_ms s =
     link_cmd LCMD_CONNECTION_RATE
       (s\<lparr>LINK_CONN_MIN_MS := ucast min_interval_ms,
          LINK_CONN_MAX_MS := ucast max_interval_ms,
          LINK_RATE_SUBRATE_MIN := ucast subrate_min,
          LINK_RATE_SUBRATE_MAX := ucast subrate_max,
          LINK_CONN_LATENCY := ucast latency,
          LINK_RATE_CONTINUATION := ucast continuation_number,
          LINK_CONN_TIMEOUT_MS := ucast timeout_ms\<rparr>)"

definition runtime_ble_read_rssi :: "shared \<Rightarrow> c_int \<times> shared" where
  "runtime_ble_read_rssi s = link_cmd LCMD_READ_RSSI s"

definition runtime_ble_read_att_mtu :: "shared \<Rightarrow> c_int \<times> shared" where
  "runtime_ble_read_att_mtu s = link_cmd LCMD_READ_ATT_MTU s"

definition runtime_ble_read_phy :: "shared \<Rightarrow> c_int \<times> shared" where
  "runtime_ble_read_phy s = link_cmd LCMD_READ_PHY s"

definition runtime_ble_read_security :: "shared \<Rightarrow> c_int \<times> shared" where
  "runtime_ble_read_security s = link_cmd LCMD_READ_SECURITY s"

definition runtime_ble_request_security :: "shared \<Rightarrow> c_int \<times> shared" where
  "runtime_ble_request_security s = link_cmd LCMD_SECURITY_REQUEST s"

definition runtime_ble_passkey_confirm :: "u8 \<Rightarrow> shared \<Rightarrow> c_int \<times> shared" where
  "runtime_ble_passkey_confirm accept s =
     link_cmd (if accept = 0 then LCMD_PASSKEY_CANCEL else LCMD_PASSKEY_CONFIRM) s"

definition runtime_ble_passkey_input :: "u32 \<Rightarrow> shared \<Rightarrow> c_int \<times> shared" where
  "runtime_ble_passkey_input passkey s =
     (if passkey > 999999 then (RUNTIME_BLE_ERR_INVALID, s)
      else link_cmd LCMD_PASSKEY_INPUT (s\<lparr>LINK_PASSKEY := passkey\<rparr>))"

text \<open>The link-control calls as a type, and the command each of them posts.\<close>

datatype link_call =
    SetPhy u8
  | UpdateDataLength u16 u16
  | UpdateConnParams u16 u16 u16 u16
  | UpdateFrameSpace u32 u32 u8 u8
  | RequestConnectionRate u16 u16 u16 u16 u16 u16 u16
  | ReadRssi
  | ReadAttMtu
  | ReadPhy
  | ReadSecurity
  | RequestSecurity
  | PasskeyConfirm u8
  | PasskeyInput u32

fun link_post :: "link_call \<Rightarrow> shared \<Rightarrow> c_int \<times> shared" where
  "link_post (SetPhy phy) s = runtime_ble_set_phy phy s"
| "link_post (UpdateDataLength oc t) s = runtime_ble_update_data_length oc t s"
| "link_post (UpdateConnParams mn mx l t) s = runtime_ble_update_conn_params mn mx l t s"
| "link_post (UpdateFrameSpace mn mx ph ty) s = runtime_ble_update_frame_space mn mx ph ty s"
| "link_post (RequestConnectionRate mn mx smn smx l cn t) s =
     runtime_ble_request_connection_rate mn mx smn smx l cn t s"
| "link_post ReadRssi s = runtime_ble_read_rssi s"
| "link_post ReadAttMtu s = runtime_ble_read_att_mtu s"
| "link_post ReadPhy s = runtime_ble_read_phy s"
| "link_post ReadSecurity s = runtime_ble_read_security s"
| "link_post RequestSecurity s = runtime_ble_request_security s"
| "link_post (PasskeyConfirm a) s = runtime_ble_passkey_confirm a s"
| "link_post (PasskeyInput p) s = runtime_ble_passkey_input p s"

fun link_call_valid :: "link_call \<Rightarrow> bool" where
  "link_call_valid (SetPhy phy) \<longleftrightarrow> phy = 1 \<or> phy = 2 \<or> phy = 3"
| "link_call_valid (PasskeyInput p) \<longleftrightarrow> p \<le> 999999"
| "link_call_valid _ \<longleftrightarrow> True"

fun link_call_cmd :: "link_call \<Rightarrow> u32" where
  "link_call_cmd (SetPhy _) = LCMD_SET_PHY"
| "link_call_cmd (UpdateDataLength _ _) = LCMD_DLE"
| "link_call_cmd (UpdateConnParams _ _ _ _) = LCMD_CONN_PARAMS"
| "link_call_cmd (UpdateFrameSpace _ _ _ _) = LCMD_FRAME_SPACE"
| "link_call_cmd (RequestConnectionRate _ _ _ _ _ _ _) = LCMD_CONNECTION_RATE"
| "link_call_cmd ReadRssi = LCMD_READ_RSSI"
| "link_call_cmd ReadAttMtu = LCMD_READ_ATT_MTU"
| "link_call_cmd ReadPhy = LCMD_READ_PHY"
| "link_call_cmd ReadSecurity = LCMD_READ_SECURITY"
| "link_call_cmd RequestSecurity = LCMD_SECURITY_REQUEST"
| "link_call_cmd (PasskeyConfirm a) = (if a = 0 then LCMD_PASSKEY_CANCEL else LCMD_PASSKEY_CONFIRM)"
| "link_call_cmd (PasskeyInput _) = LCMD_PASSKEY_INPUT"

lemmas link_api_defs =
  runtime_ble_set_phy_def runtime_ble_update_data_length_def runtime_ble_update_conn_params_def
  runtime_ble_update_frame_space_def runtime_ble_request_connection_rate_def
  runtime_ble_read_rssi_def runtime_ble_read_att_mtu_def runtime_ble_read_phy_def
  runtime_ble_read_security_def runtime_ble_request_security_def runtime_ble_passkey_confirm_def
  runtime_ble_passkey_input_def link_cmd_def

text \<open>\<^verbatim>\<open>LINK_CMD.swap(LCMD_NONE)\<close> at the top of \<^verbatim>\<open>link_control_once\<close>.\<close>

definition link_fetch :: "shared \<Rightarrow> u32 option \<times> shared" where
  "link_fetch s =
     (if LINK_CMD s = LCMD_NONE then None else Some (LINK_CMD s), s\<lparr>LINK_CMD := LCMD_NONE\<rparr>)"

definition link_pending :: "shared \<Rightarrow> u32 option" where
  "link_pending s = (if LINK_CMD s = LCMD_NONE then None else Some (LINK_CMD s))"

section \<open>The link commands as a mailbox\<close>

lemma link_call_cmd_not_none: "link_call_cmd c \<noteq> LCMD_NONE"
  by (cases c) (simp_all add: lcmd_defs)

text \<open>Every call is: its checks, then its parameter stores, then \<^verbatim>\<open>link_cmd\<close>. The stores
  are the function \<open>link_store\<close>.\<close>

fun link_store :: "link_call \<Rightarrow> shared \<Rightarrow> shared" where
  "link_store (SetPhy phy) s = s\<lparr>LINK_PHY := ucast phy\<rparr>"
| "link_store (UpdateDataLength oc t) s =
     s\<lparr>LINK_DLE_OCTETS := ucast oc, LINK_DLE_TIME_US := ucast t\<rparr>"
| "link_store (UpdateConnParams mn mx l t) s =
     s\<lparr>LINK_CONN_MIN_MS := ucast mn, LINK_CONN_MAX_MS := ucast mx, LINK_CONN_LATENCY := ucast l,
       LINK_CONN_TIMEOUT_MS := ucast t\<rparr>"
| "link_store (UpdateFrameSpace mn mx ph ty) s =
     s\<lparr>LINK_FRAME_SPACE_MIN_US := mn, LINK_FRAME_SPACE_MAX_US := mx,
       LINK_FRAME_SPACE_PHY_MASK := ucast ph, LINK_FRAME_SPACE_TYPES := ucast ty\<rparr>"
| "link_store (RequestConnectionRate mn mx smn smx l cn t) s =
     s\<lparr>LINK_CONN_MIN_MS := ucast mn, LINK_CONN_MAX_MS := ucast mx,
       LINK_RATE_SUBRATE_MIN := ucast smn, LINK_RATE_SUBRATE_MAX := ucast smx,
       LINK_CONN_LATENCY := ucast l, LINK_RATE_CONTINUATION := ucast cn,
       LINK_CONN_TIMEOUT_MS := ucast t\<rparr>"
| "link_store (PasskeyInput p) s = s\<lparr>LINK_PASSKEY := p\<rparr>"
| "link_store _ s = s"

lemma link_post_eq:
  "link_post c s = (if link_call_valid c then link_cmd (link_call_cmd c) (link_store c s)
                    else (RUNTIME_BLE_ERR_INVALID, s))"
  by (cases c) (auto simp: link_api_defs not_less)

lemma LINK_CMD_link_store [simp]: "LINK_CMD (link_store c s) = LINK_CMD s"
  by (cases c) simp_all

lemma ucast_phy: "phy \<in> {1, 2, 3} \<Longrightarrow> (ucast (phy :: u8) :: usize) \<in> {0, 1, 2, 3}"
  by auto

lemma link_inv_store: "link_inv s \<Longrightarrow> link_call_valid c \<Longrightarrow> link_inv (link_store c s)"
  by (cases c) (auto simp: link_inv_def)

lemma link_inv_cmd: "link_inv (snd (link_cmd cmd s)) \<longleftrightarrow> link_inv s"
  by (simp add: link_cmd_def link_inv_def)

lemma link_inv_post: "link_inv s \<Longrightarrow> link_inv (snd (link_post c s))"
  by (simp add: link_post_eq link_inv_cmd link_inv_store)

interpretation linkq: mailbox link_inv link_pending link_post link_fetch link_call_valid link_call_cmd
proof unfold_locales
  fix s :: shared and c :: link_call
  assume inv: "link_inv s"
  show "link_inv (snd (link_post c s))" using inv by (rule link_inv_post)
  show "fst (link_post c s) = RUNTIME_BLE_OK \<and> link_pending (snd (link_post c s)) = Some (link_call_cmd c)"
    if "link_call_valid c" "link_pending s = None"
    using that link_call_cmd_not_none[of c]
    by (simp add: link_post_eq link_cmd_def link_pending_def split: if_splits)
  show "fst (link_post c s) = RUNTIME_BLE_ERR_NO_MEM \<and> link_pending (snd (link_post c s)) = link_pending s"
    if "link_call_valid c" "link_pending s \<noteq> None"
    using that by (simp add: link_post_eq link_cmd_def link_pending_def split: if_splits)
  show "fst (link_post c s) = RUNTIME_BLE_ERR_INVALID \<and> link_pending (snd (link_post c s)) = link_pending s"
    if "\<not> link_call_valid c"
    using that by (simp add: link_post_eq)
  show "fst (link_fetch s) = link_pending s \<and> link_inv (snd (link_fetch s))
        \<and> link_pending (snd (link_fetch s)) = None"
    using inv by (simp add: link_fetch_def link_pending_def link_inv_def)
qed

section \<open>Properties\<close>

text \<open>Result (link_commands_fifo). Over any interleaving of link-control calls and of turns of
  the link loop, starting with no command waiting, the commands executed are exactly those
  of the accepted calls, in order; at most one accepted command is still waiting.\<close>

theorem link_commands_fifo:
  assumes "link_inv s" "LINK_CMD s = LCMD_NONE"
    and "mb_run link_post link_fetch ops s = (accepted, executed, s')"
  shows "map link_call_cmd accepted = executed @ opt_list (link_pending s')"
proof -
  have "link_pending s = None" using assms(2) by (simp add: link_pending_def)
  then show ?thesis by (rule linkq.run_fifo_from_idle[OF assms(1) _ assms(3)])
qed

definition link_demo_ops :: "link_call mb_op list" where
  "link_demo_ops = [Post (SetPhy 2), Post ReadRssi, Fetch, Post (SetPhy 7), Post ReadRssi]"

theorem link_commands_fifo_witness:
  "map link_call_cmd [SetPhy 2, ReadRssi] =
     fst (snd (mb_run link_post link_fetch link_demo_ops shared_init)) @ [LCMD_READ_RSSI]"
proof -
  let ?r = "mb_run link_post link_fetch link_demo_ops shared_init"
  have inv: "link_inv shared_init" "LINK_CMD shared_init = LCMD_NONE"
    using shared_inv_init by (simp_all add: shared_inv_def shared_init_def)
  obtain acc ex s' where run: "?r = (acc, ex, s')" by (metis prod_cases3)
  have "fst ?r = [SetPhy 2, ReadRssi] \<and> link_pending (snd (snd ?r)) = Some LCMD_READ_RSSI"
    by (simp add: link_demo_ops_def link_api_defs link_fetch_def link_pending_def shared_init_def
        result_codes lcmd_defs Let_def)
  then show ?thesis using link_commands_fifo[OF inv run] run by simp
qed

text \<open>Result (link_refused_overwrites). A refused call is not free of effects: while a PHY
  request is waiting, a second one is refused with \<open>RUNTIME_BLE_ERR_NO_MEM\<close>, but the
  command that then runs takes the refused call's PHY. The same holds for the connection
  parameters, which two different commands share.\<close>

theorem link_refused_overwrites:
  assumes "LINK_CMD s = LCMD_NONE" "phy \<in> {1, 2, 3}" "phy' \<in> {1, 2, 3}"
  shows "fst (runtime_ble_set_phy phy s) = RUNTIME_BLE_OK
     \<and> fst (runtime_ble_set_phy phy' (snd (runtime_ble_set_phy phy s))) = RUNTIME_BLE_ERR_NO_MEM
     \<and> link_pending (snd (runtime_ble_set_phy phy' (snd (runtime_ble_set_phy phy s)))) = Some LCMD_SET_PHY
     \<and> LINK_PHY (snd (runtime_ble_set_phy phy' (snd (runtime_ble_set_phy phy s)))) = ucast phy'
     \<and> fst (runtime_ble_update_conn_params mn mx l t
              (snd (runtime_ble_request_connection_rate a b c d e g h s))) = RUNTIME_BLE_ERR_NO_MEM
     \<and> LINK_CONN_MIN_MS (snd (runtime_ble_update_conn_params mn mx l t
              (snd (runtime_ble_request_connection_rate a b c d e g h s)))) = ucast mn"
  using assms by (auto simp: link_api_defs link_pending_def lcmd_defs)

theorem link_refused_overwrites_witness:
  "LINK_PHY (snd (runtime_ble_set_phy 3 (snd (runtime_ble_set_phy 2 shared_init)))) = 3"
  using link_refused_overwrites[of shared_init 2 3 0 0 0 0 0 0 0 0 0 0 0]
  by (simp add: shared_init_def)

end
