(* ===== verification/BondApi.thy ===== *)
theory BondApi
  imports Shared Mailbox
begin

text \<open>
  The bond administration calls of \<^verbatim>\<open>lib.rs\<close>. \<^verbatim>\<open>bond_admin_cmd\<close> checks that no command is
  waiting before it stores anything, so these calls form an atomic mailbox whose messages
  carry their parameter.
\<close>

section \<open>Operations\<close>

definition valid_io_capability :: "u8 \<Rightarrow> bool" where
  "valid_io_capability capability \<longleftrightarrow> capability \<le> 5"

definition bond_admin_cmd :: "u32 \<Rightarrow> usize \<Rightarrow> shared \<Rightarrow> c_int \<times> shared" where
  "bond_admin_cmd cmd v s =
     (if BOND_CMD s \<noteq> BCMD_NONE then (RUNTIME_BLE_ERR_NO_MEM, s)
      else
        let s1 = (if cmd = BCMD_DELETE then s\<lparr>BOND_INDEX := v\<rparr>
                  else if cmd = BCMD_SET_IO_CAPABILITY then s\<lparr>BOND_IO_CAPABILITY := v\<rparr>
                  else s)
        in (RUNTIME_BLE_OK, s1\<lparr>BOND_CMD := cmd\<rparr>))"

definition runtime_ble_set_io_capability :: "u8 \<Rightarrow> shared \<Rightarrow> c_int \<times> shared" where
  "runtime_ble_set_io_capability capability s =
     (if \<not> valid_io_capability capability then (RUNTIME_BLE_ERR_INVALID, s)
      else bond_admin_cmd BCMD_SET_IO_CAPABILITY (ucast capability) s)"

definition runtime_ble_bond_enumerate :: "shared \<Rightarrow> c_int \<times> shared" where
  "runtime_ble_bond_enumerate s = bond_admin_cmd BCMD_ENUMERATE 0 s"

definition runtime_ble_bond_delete :: "u8 \<Rightarrow> shared \<Rightarrow> c_int \<times> shared" where
  "runtime_ble_bond_delete index s = bond_admin_cmd BCMD_DELETE (ucast index) s"

definition runtime_ble_bond_delete_all :: "shared \<Rightarrow> c_int \<times> shared" where
  "runtime_ble_bond_delete_all s = bond_admin_cmd BCMD_DELETE_ALL 0 s"

datatype bond_call = SetIoCapability u8 | BondEnumerate | BondDelete u8 | BondDeleteAll

fun bond_post :: "bond_call \<Rightarrow> shared \<Rightarrow> c_int \<times> shared" where
  "bond_post (SetIoCapability c) s = runtime_ble_set_io_capability c s"
| "bond_post BondEnumerate s = runtime_ble_bond_enumerate s"
| "bond_post (BondDelete i) s = runtime_ble_bond_delete i s"
| "bond_post BondDeleteAll s = runtime_ble_bond_delete_all s"

fun bond_call_valid :: "bond_call \<Rightarrow> bool" where
  "bond_call_valid (SetIoCapability c) \<longleftrightarrow> c \<le> 5"
| "bond_call_valid _ \<longleftrightarrow> True"

lemmas bond_api_defs =
  runtime_ble_set_io_capability_def runtime_ble_bond_enumerate_def runtime_ble_bond_delete_def
  runtime_ble_bond_delete_all_def bond_admin_cmd_def valid_io_capability_def

section \<open>What the runtime reads\<close>

text \<open>The commands as \<^verbatim>\<open>bond_admin_loop\<close> decodes them: the swap of \<^verbatim>\<open>BOND_CMD\<close>, then the
  parameter of the command, narrowed to a byte.\<close>

datatype bond_request = ReqEnumerate | ReqDelete u8 | ReqDeleteAll | ReqSetIoCapability u8 | ReqNone

definition bond_decode :: "shared \<Rightarrow> bond_request" where
  "bond_decode s =
     (if BOND_CMD s = BCMD_ENUMERATE then ReqEnumerate
      else if BOND_CMD s = BCMD_DELETE then ReqDelete (ucast (min (BOND_INDEX s) 0xFF))
      else if BOND_CMD s = BCMD_DELETE_ALL then ReqDeleteAll
      else if BOND_CMD s = BCMD_SET_IO_CAPABILITY
        then ReqSetIoCapability (ucast (min (BOND_IO_CAPABILITY s) 0xFF))
      else ReqNone)"

definition bond_fetch :: "shared \<Rightarrow> bond_request option \<times> shared" where
  "bond_fetch s =
     (if BOND_CMD s = BCMD_NONE then None else Some (bond_decode s), s\<lparr>BOND_CMD := BCMD_NONE\<rparr>)"

definition bond_pending :: "shared \<Rightarrow> bond_request option" where
  "bond_pending s = (if BOND_CMD s = BCMD_NONE then None else Some (bond_decode s))"

fun bond_call_view :: "bond_call \<Rightarrow> bond_request" where
  "bond_call_view (SetIoCapability c) = ReqSetIoCapability c"
| "bond_call_view BondEnumerate = ReqEnumerate"
| "bond_call_view (BondDelete i) = ReqDelete i"
| "bond_call_view BondDeleteAll = ReqDeleteAll"

lemma ucast_min_ucast: "ucast (min (ucast (b :: u8) :: usize) 0xFF) = b"
proof -
  have "min (ucast b :: usize) 0xFF = ucast b" by (rule u8_range_min) simp
  then show ?thesis by (simp add: bit_eq_iff bit_simps)
qed

lemma unat_ucast_u8: "unat (ucast (b :: u8) :: usize) = unat b"
  by (simp add: unsigned_ucast_eq take_bit_nat_eq_self[OF less_le_trans[OF unsigned_less]])

lemma bond_admin_cmd_cases:
  "BOND_CMD s \<noteq> BCMD_NONE \<Longrightarrow> bond_admin_cmd cmd v s = (RUNTIME_BLE_ERR_NO_MEM, s)"
  "BOND_CMD s = BCMD_NONE \<Longrightarrow> fst (bond_admin_cmd cmd v s) = RUNTIME_BLE_OK"
  by (simp_all add: bond_admin_cmd_def Let_def)

lemma bond_post_cases:
  "bond_post c s =
     (if \<not> bond_call_valid c then (RUNTIME_BLE_ERR_INVALID, s)
      else case c of
          SetIoCapability i \<Rightarrow> bond_admin_cmd BCMD_SET_IO_CAPABILITY (ucast i) s
        | BondEnumerate \<Rightarrow> bond_admin_cmd BCMD_ENUMERATE 0 s
        | BondDelete i \<Rightarrow> bond_admin_cmd BCMD_DELETE (ucast i) s
        | BondDeleteAll \<Rightarrow> bond_admin_cmd BCMD_DELETE_ALL 0 s)"
  by (cases c) (simp_all add: runtime_ble_set_io_capability_def valid_io_capability_def
      runtime_ble_bond_enumerate_def runtime_ble_bond_delete_def runtime_ble_bond_delete_all_def)

lemma bond_post_refused: "fst (bond_post c s) \<noteq> RUNTIME_BLE_OK \<Longrightarrow> snd (bond_post c s) = s"
  by (cases "BOND_CMD s = BCMD_NONE"; cases "bond_call_valid c"; cases c)
    (simp_all add: bond_post_cases bond_admin_cmd_cases)

lemma bond_inv_post: "bond_inv s \<Longrightarrow> bond_inv (snd (bond_post c s))"
  by (cases c) (auto simp: bond_api_defs bond_inv_def Let_def word_le_nat_alt unat_ucast_u8)

interpretation bondq:
  atomic_mailbox bond_inv bond_pending bond_post bond_fetch bond_call_valid bond_call_view
proof unfold_locales
  fix s :: shared and c :: bond_call
  assume inv: "bond_inv s"
  show "bond_inv (snd (bond_post c s))" using inv by (rule bond_inv_post)
  show "fst (bond_post c s) = RUNTIME_BLE_OK \<and> bond_pending (snd (bond_post c s)) = Some (bond_call_view c)"
    if "bond_call_valid c" "bond_pending s = None"
    using that
    by (cases c) (auto simp: bond_api_defs bond_pending_def bond_decode_def bcmd_defs ucast_min_ucast
        split: if_splits)
  show "fst (bond_post c s) = RUNTIME_BLE_ERR_NO_MEM \<and> bond_pending (snd (bond_post c s)) = bond_pending s"
    if "bond_call_valid c" "bond_pending s \<noteq> None"
    using that by (cases c) (auto simp: bond_api_defs bond_pending_def split: if_splits)
  show "fst (bond_post c s) = RUNTIME_BLE_ERR_INVALID \<and> bond_pending (snd (bond_post c s)) = bond_pending s"
    if "\<not> bond_call_valid c"
    using that by (cases c) (auto simp: bond_api_defs)
  show "snd (bond_post c s) = s" if "fst (bond_post c s) \<noteq> RUNTIME_BLE_OK"
    using that by (rule bond_post_refused)
  show "fst (bond_fetch s) = bond_pending s \<and> bond_inv (snd (bond_fetch s))
        \<and> bond_pending (snd (bond_fetch s)) = None"
    using inv by (simp add: bond_fetch_def bond_pending_def bond_inv_def)
qed

section \<open>Properties\<close>

text \<open>Result (bond_commands_fifo). Over any interleaving of bond administration calls and of
  turns of the administration loop, starting with no command waiting, the requests executed
  are exactly the accepted calls with their own parameters, in order; a refused call changes
  nothing.\<close>

theorem bond_commands_fifo:
  assumes "bond_inv s" "BOND_CMD s = BCMD_NONE"
    and "mb_run bond_post bond_fetch ops s = (accepted, executed, s')"
  shows "map bond_call_view accepted = executed @ opt_list (bond_pending s')
     \<and> (fst (bond_post c s') \<noteq> RUNTIME_BLE_OK \<longrightarrow> snd (bond_post c s') = s')"
proof -
  have "bond_pending s = None" using assms(2) by (simp add: bond_pending_def)
  moreover have "bond_inv s'" using bondq.run_fifo[OF assms(1,3)] by simp
  ultimately show ?thesis
    using bondq.run_fifo_from_idle[OF assms(1) _ assms(3)] bondq.refused_frame[of s' c] by blast
qed

definition bond_demo_ops :: "bond_call mb_op list" where
  "bond_demo_ops = [Post (BondDelete 2), Post (BondDelete 1), Fetch, Post (SetIoCapability 9),
                    Post (SetIoCapability 3)]"

theorem bond_commands_fifo_witness:
  "[ReqDelete 2, ReqSetIoCapability 3] =
     fst (snd (mb_run bond_post bond_fetch bond_demo_ops shared_init)) @ [ReqSetIoCapability 3]"
proof -
  let ?r = "mb_run bond_post bond_fetch bond_demo_ops shared_init"
  have inv: "bond_inv shared_init" "BOND_CMD shared_init = BCMD_NONE"
    using shared_inv_init by (simp_all add: shared_inv_def shared_init_def)
  obtain acc ex s' where run: "?r = (acc, ex, s')" by (metis prod_cases3)
  have "fst ?r = [BondDelete 2, SetIoCapability 3]
      \<and> bond_pending (snd (snd ?r)) = Some (ReqSetIoCapability 3)"
    by (simp add: bond_demo_ops_def bond_api_defs bond_fetch_def bond_pending_def bond_decode_def
        shared_init_def result_codes bcmd_defs Let_def)
  then show ?thesis using bond_commands_fifo[OF inv run] run by simp
qed

end
