(* ===== verification/CentralApi.thy ===== *)
theory CentralApi
  imports Shared Mailbox
begin

text \<open>
  The central and GATT client calls of \<^verbatim>\<open>lib.rs\<close>. Without the \<open>central\<close> feature they
  return \<open>RUNTIME_BLE_ERR_INVALID\<close>; with it each stores its parameters and posts one
  command with one packed 32-bit word through \<^verbatim>\<open>central_cmd\<close>. A write shares the transmit
  buffer of the peripheral role.
\<close>

section \<open>Operations\<close>

definition central_cmd :: "features \<Rightarrow> u32 \<Rightarrow> u32 \<Rightarrow> shared \<Rightarrow> c_int \<times> shared" where
  "central_cmd f cmd handle s =
     (if f_central f then
        if CENTRAL_CMD s \<noteq> CCMD_NONE then (RUNTIME_BLE_ERR_NO_MEM, s)
        else (RUNTIME_BLE_OK, s\<lparr>CENTRAL_HANDLE := handle, CENTRAL_CMD := cmd\<rparr>)
      else (RUNTIME_BLE_ERR_INVALID, s))"

definition runtime_ble_scan_start_ex ::
  "features \<Rightarrow> u8 \<Rightarrow> u16 \<Rightarrow> u16 \<Rightarrow> u16 \<Rightarrow> u8 \<Rightarrow> u8 ptr \<Rightarrow> u8 \<Rightarrow> shared \<Rightarrow> c_int \<times> shared" where
  "runtime_ble_scan_start_ex f active interval_ms window_ms timeout_ms options filter_addr
       filter_addr_kind s =
     (if f_central f then
        central_cmd f CCMD_SCAN_START 0
          (s\<lparr>SCAN_ACTIVE := (active \<noteq> 0),
             SCAN_INTERVAL_MS := ucast interval_ms,
             SCAN_WINDOW_MS := ucast window_ms,
             SCAN_TIMEOUT_MS := ucast timeout_ms,
             SCAN_FILTER_DUPLICATES := (options AND 0x01 \<noteq> 0),
             SCAN_PHY_OPTIONS := ucast (options AND 0x0e),
             SCAN_FILTER_ADDR_ENABLED := (filter_addr \<noteq> None),
             SCAN_FILTER_ADDR :=
               (case filter_addr of None \<Rightarrow> SCAN_FILTER_ADDR s
                | Some m \<Rightarrow> blit (SCAN_FILTER_ADDR s) 0 (from_raw_parts m 6)),
             SCAN_FILTER_ADDR_KIND := ucast filter_addr_kind\<rparr>)
      else (RUNTIME_BLE_ERR_INVALID, s))"

definition runtime_ble_scan_start ::
  "features \<Rightarrow> u8 \<Rightarrow> u16 \<Rightarrow> u16 \<Rightarrow> u16 \<Rightarrow> shared \<Rightarrow> c_int \<times> shared" where
  "runtime_ble_scan_start f active interval_ms window_ms timeout_ms s =
     runtime_ble_scan_start_ex f active interval_ms window_ms timeout_ms 0 None 0 s"

definition runtime_ble_scan_stop :: "features \<Rightarrow> shared \<Rightarrow> c_int \<times> shared" where
  "runtime_ble_scan_stop f s = central_cmd f CCMD_SCAN_STOP 0 s"

definition runtime_ble_connect_addr :: "features \<Rightarrow> u8 ptr \<Rightarrow> u8 \<Rightarrow> shared \<Rightarrow> c_int \<times> shared" where
  "runtime_ble_connect_addr f addr kind s =
     (if f_central f then
        (case addr of
           None \<Rightarrow> (RUNTIME_BLE_ERR_INVALID, s)
         | Some m \<Rightarrow>
             central_cmd f CCMD_CONNECT 0
               (s\<lparr>CENTRAL_ADDR := blit (CENTRAL_ADDR s) 0 (from_raw_parts m 6),
                  CENTRAL_ADDR_KIND := ucast kind\<rparr>))
      else (RUNTIME_BLE_ERR_INVALID, s))"

definition runtime_ble_connect :: "features \<Rightarrow> u8 ptr \<Rightarrow> shared \<Rightarrow> c_int \<times> shared" where
  "runtime_ble_connect f addr s = runtime_ble_connect_addr f addr 0 s"

definition runtime_ble_disconnect :: "features \<Rightarrow> shared \<Rightarrow> c_int \<times> shared" where
  "runtime_ble_disconnect f s = central_cmd f CCMD_DISCONNECT 0 s"

definition runtime_ble_client_discover_services :: "features \<Rightarrow> shared \<Rightarrow> c_int \<times> shared" where
  "runtime_ble_client_discover_services f s = central_cmd f CCMD_DISCOVER_SERVICES 0 s"

definition runtime_ble_client_discover :: "features \<Rightarrow> u8 ptr \<Rightarrow> u8 \<Rightarrow> shared \<Rightarrow> c_int \<times> shared" where
  "runtime_ble_client_discover f uuid uuid_len s =
     (if f_central f then
        (case uuid of
           None \<Rightarrow> (RUNTIME_BLE_ERR_INVALID, s)
         | Some m \<Rightarrow>
             if uuid_len \<noteq> 2 \<and> uuid_len \<noteq> 16 then (RUNTIME_BLE_ERR_INVALID, s)
             else central_cmd f CCMD_DISCOVER 0
                    (s\<lparr>CENTRAL_UUID := blit (CENTRAL_UUID s) 0 (from_raw_parts m (unat uuid_len)),
                       CENTRAL_UUID_LEN := ucast uuid_len\<rparr>))
      else (RUNTIME_BLE_ERR_INVALID, s))"

definition runtime_ble_client_discover_all :: "features \<Rightarrow> shared \<Rightarrow> c_int \<times> shared" where
  "runtime_ble_client_discover_all f s = central_cmd f CCMD_DISCOVER_ALL 0 s"

definition runtime_ble_client_read :: "features \<Rightarrow> u16 \<Rightarrow> shared \<Rightarrow> c_int \<times> shared" where
  "runtime_ble_client_read f handle s = central_cmd f CCMD_READ (ucast handle) s"

definition runtime_ble_client_read_blob :: "features \<Rightarrow> u16 \<Rightarrow> u16 \<Rightarrow> shared \<Rightarrow> c_int \<times> shared" where
  "runtime_ble_client_read_blob f handle offset s =
     central_cmd f CCMD_READ_BLOB (push_bit 16 (ucast offset) OR ucast handle) s"

definition runtime_ble_client_read_by_uuid ::
  "features \<Rightarrow> u16 \<Rightarrow> u16 \<Rightarrow> u8 ptr \<Rightarrow> u8 \<Rightarrow> shared \<Rightarrow> c_int \<times> shared" where
  "runtime_ble_client_read_by_uuid f start_handle end_handle uuid uuid_len s =
     (if f_central f then
        if start_handle = 0 \<or> end_handle < start_handle \<or> uuid = None
           \<or> (uuid_len \<noteq> 2 \<and> uuid_len \<noteq> 16)
        then (RUNTIME_BLE_ERR_INVALID, s)
        else central_cmd f CCMD_READ_BY_UUID
               (push_bit 16 (ucast start_handle) OR ucast end_handle)
               (s\<lparr>CENTRAL_UUID := blit (CENTRAL_UUID s) 0 (slice_or_empty uuid (unat uuid_len)),
                  CENTRAL_UUID_LEN := ucast uuid_len\<rparr>)
      else (RUNTIME_BLE_ERR_INVALID, s))"

definition runtime_ble_client_read_descriptor :: "features \<Rightarrow> u16 \<Rightarrow> shared \<Rightarrow> c_int \<times> shared" where
  "runtime_ble_client_read_descriptor f handle s = runtime_ble_client_read f handle s"

definition runtime_ble_client_read_descriptor_blob ::
  "features \<Rightarrow> u16 \<Rightarrow> u16 \<Rightarrow> shared \<Rightarrow> c_int \<times> shared" where
  "runtime_ble_client_read_descriptor_blob f handle offset s =
     runtime_ble_client_read_blob f handle offset s"

definition runtime_ble_client_discover_descriptors ::
  "features \<Rightarrow> u16 \<Rightarrow> u16 \<Rightarrow> shared \<Rightarrow> c_int \<times> shared" where
  "runtime_ble_client_discover_descriptors f start_handle end_handle s =
     (if start_handle = 0 \<or> end_handle < start_handle then (RUNTIME_BLE_ERR_INVALID, s)
      else central_cmd f CCMD_DISCOVER_DESCRIPTORS
             (push_bit 16 (ucast start_handle) OR ucast end_handle) s)"

definition central_write ::
  "features \<Rightarrow> u32 \<Rightarrow> u16 \<Rightarrow> u8 ptr \<Rightarrow> usize \<Rightarrow> shared \<Rightarrow> c_int \<times> shared" where
  "central_write f cmd handle data len s =
     (if f_central f then
        (case data of
           None \<Rightarrow> (RUNTIME_BLE_ERR_INVALID, s)
         | Some m \<Rightarrow>
             if len = 0 \<or> len > SEND_BUF_CAP then (RUNTIME_BLE_ERR_INVALID, s)
             else central_cmd f cmd (ucast handle)
                    (s\<lparr>SEND_BUF := blit (SEND_BUF s) 0 (from_raw_parts m (unat len)),
                       SEND_LEN := len\<rparr>))
      else (RUNTIME_BLE_ERR_INVALID, s))"

definition runtime_ble_client_write ::
  "features \<Rightarrow> u16 \<Rightarrow> u8 ptr \<Rightarrow> usize \<Rightarrow> shared \<Rightarrow> c_int \<times> shared" where
  "runtime_ble_client_write f handle data len s = central_write f CCMD_WRITE handle data len s"

definition runtime_ble_client_write_no_rsp ::
  "features \<Rightarrow> u16 \<Rightarrow> u8 ptr \<Rightarrow> usize \<Rightarrow> shared \<Rightarrow> c_int \<times> shared" where
  "runtime_ble_client_write_no_rsp f handle data len s =
     central_write f CCMD_WRITE_NO_RSP handle data len s"

definition runtime_ble_client_write_descriptor ::
  "features \<Rightarrow> u16 \<Rightarrow> u8 ptr \<Rightarrow> usize \<Rightarrow> shared \<Rightarrow> c_int \<times> shared" where
  "runtime_ble_client_write_descriptor f handle data len s =
     runtime_ble_client_write f handle data len s"

definition runtime_ble_client_subscribe :: "features \<Rightarrow> u16 \<Rightarrow> shared \<Rightarrow> c_int \<times> shared" where
  "runtime_ble_client_subscribe f handle s = central_cmd f CCMD_SUBSCRIBE (ucast handle) s"

definition runtime_ble_client_subscribe_indicate :: "features \<Rightarrow> u16 \<Rightarrow> shared \<Rightarrow> c_int \<times> shared" where
  "runtime_ble_client_subscribe_indicate f handle s =
     central_cmd f CCMD_SUBSCRIBE_INDICATE (ucast handle) s"

definition runtime_ble_client_unsubscribe :: "features \<Rightarrow> u16 \<Rightarrow> shared \<Rightarrow> c_int \<times> shared" where
  "runtime_ble_client_unsubscribe f handle s = central_cmd f CCMD_UNSUBSCRIBE (ucast handle) s"

lemmas central_api_defs =
  runtime_ble_scan_start_ex_def runtime_ble_scan_start_def runtime_ble_scan_stop_def
  runtime_ble_connect_addr_def runtime_ble_connect_def runtime_ble_disconnect_def
  runtime_ble_client_discover_services_def runtime_ble_client_discover_def
  runtime_ble_client_discover_all_def runtime_ble_client_read_def
  runtime_ble_client_read_blob_def runtime_ble_client_read_by_uuid_def
  runtime_ble_client_read_descriptor_def runtime_ble_client_read_descriptor_blob_def
  runtime_ble_client_discover_descriptors_def central_write_def runtime_ble_client_write_def
  runtime_ble_client_write_no_rsp_def runtime_ble_client_write_descriptor_def
  runtime_ble_client_subscribe_def runtime_ble_client_subscribe_indicate_def
  runtime_ble_client_unsubscribe_def

section \<open>The calls as a mailbox\<close>

datatype (plugins only: code size) central_call =
    ScanStart u8 u16 u16 u16
  | ScanStartEx u8 u16 u16 u16 u8 "u8 ptr" u8
  | ScanStop
  | Connect "u8 ptr"
  | ConnectAddr "u8 ptr" u8
  | Disconnect
  | DiscoverServices
  | Discover "u8 ptr" u8
  | DiscoverAll
  | ClientRead u16
  | ReadBlob u16 u16
  | ReadByUuid u16 u16 "u8 ptr" u8
  | ReadDescriptor u16
  | ReadDescriptorBlob u16 u16
  | DiscoverDescriptors u16 u16
  | ClientWrite u16 "u8 ptr" usize
  | WriteNoRsp u16 "u8 ptr" usize
  | WriteDescriptor u16 "u8 ptr" usize
  | Subscribe u16
  | SubscribeIndicate u16
  | Unsubscribe u16

fun central_post :: "features \<Rightarrow> central_call \<Rightarrow> shared \<Rightarrow> c_int \<times> shared" where
  "central_post f (ScanStart a i w t) s = runtime_ble_scan_start f a i w t s"
| "central_post f (ScanStartEx a i w t opts addr k) s =
     runtime_ble_scan_start_ex f a i w t opts addr k s"
| "central_post f ScanStop s = runtime_ble_scan_stop f s"
| "central_post f (Connect addr) s = runtime_ble_connect f addr s"
| "central_post f (ConnectAddr addr k) s = runtime_ble_connect_addr f addr k s"
| "central_post f Disconnect s = runtime_ble_disconnect f s"
| "central_post f DiscoverServices s = runtime_ble_client_discover_services f s"
| "central_post f (Discover uuid n) s = runtime_ble_client_discover f uuid n s"
| "central_post f DiscoverAll s = runtime_ble_client_discover_all f s"
| "central_post f (ClientRead h) s = runtime_ble_client_read f h s"
| "central_post f (ReadBlob h off) s = runtime_ble_client_read_blob f h off s"
| "central_post f (ReadByUuid a b uuid n) s = runtime_ble_client_read_by_uuid f a b uuid n s"
| "central_post f (ReadDescriptor h) s = runtime_ble_client_read_descriptor f h s"
| "central_post f (ReadDescriptorBlob h off) s = runtime_ble_client_read_descriptor_blob f h off s"
| "central_post f (DiscoverDescriptors a b) s = runtime_ble_client_discover_descriptors f a b s"
| "central_post f (ClientWrite h d n) s = runtime_ble_client_write f h d n s"
| "central_post f (WriteNoRsp h d n) s = runtime_ble_client_write_no_rsp f h d n s"
| "central_post f (WriteDescriptor h d n) s = runtime_ble_client_write_descriptor f h d n s"
| "central_post f (Subscribe h) s = runtime_ble_client_subscribe f h s"
| "central_post f (SubscribeIndicate h) s = runtime_ble_client_subscribe_indicate f h s"
| "central_post f (Unsubscribe h) s = runtime_ble_client_unsubscribe f h s"

definition uuid_arg_ok :: "u8 ptr \<Rightarrow> u8 \<Rightarrow> bool" where
  "uuid_arg_ok uuid n \<longleftrightarrow> uuid \<noteq> None \<and> (n = 2 \<or> n = 16)"

definition data_arg_ok :: "u8 ptr \<Rightarrow> usize \<Rightarrow> bool" where
  "data_arg_ok d n \<longleftrightarrow> d \<noteq> None \<and> n \<noteq> 0 \<and> n \<le> SEND_BUF_CAP"

fun central_args_ok :: "central_call \<Rightarrow> bool" where
  "central_args_ok (Connect addr) \<longleftrightarrow> addr \<noteq> None"
| "central_args_ok (ConnectAddr addr _) \<longleftrightarrow> addr \<noteq> None"
| "central_args_ok (Discover uuid n) \<longleftrightarrow> uuid_arg_ok uuid n"
| "central_args_ok (ReadByUuid a b uuid n) \<longleftrightarrow> a \<noteq> 0 \<and> a \<le> b \<and> uuid_arg_ok uuid n"
| "central_args_ok (DiscoverDescriptors a b) \<longleftrightarrow> a \<noteq> 0 \<and> a \<le> b"
| "central_args_ok (ClientWrite _ d n) \<longleftrightarrow> data_arg_ok d n"
| "central_args_ok (WriteNoRsp _ d n) \<longleftrightarrow> data_arg_ok d n"
| "central_args_ok (WriteDescriptor _ d n) \<longleftrightarrow> data_arg_ok d n"
| "central_args_ok _ \<longleftrightarrow> True"

definition central_call_valid :: "features \<Rightarrow> central_call \<Rightarrow> bool" where
  "central_call_valid f c \<longleftrightarrow> f_central f \<and> central_args_ok c"

definition pack :: "u16 \<Rightarrow> u16 \<Rightarrow> u32" where
  "pack hi lo = push_bit 16 (ucast hi) OR ucast lo"

text \<open>The command and the packed word a call posts.\<close>

fun central_call_view :: "central_call \<Rightarrow> u32 \<times> u32" where
  "central_call_view (ScanStart _ _ _ _) = (CCMD_SCAN_START, 0)"
| "central_call_view (ScanStartEx _ _ _ _ _ _ _) = (CCMD_SCAN_START, 0)"
| "central_call_view ScanStop = (CCMD_SCAN_STOP, 0)"
| "central_call_view (Connect _) = (CCMD_CONNECT, 0)"
| "central_call_view (ConnectAddr _ _) = (CCMD_CONNECT, 0)"
| "central_call_view Disconnect = (CCMD_DISCONNECT, 0)"
| "central_call_view DiscoverServices = (CCMD_DISCOVER_SERVICES, 0)"
| "central_call_view (Discover _ _) = (CCMD_DISCOVER, 0)"
| "central_call_view DiscoverAll = (CCMD_DISCOVER_ALL, 0)"
| "central_call_view (ClientRead h) = (CCMD_READ, pack 0 h)"
| "central_call_view (ReadBlob h off) = (CCMD_READ_BLOB, pack off h)"
| "central_call_view (ReadByUuid a b _ _) = (CCMD_READ_BY_UUID, pack a b)"
| "central_call_view (ReadDescriptor h) = (CCMD_READ, pack 0 h)"
| "central_call_view (ReadDescriptorBlob h off) = (CCMD_READ_BLOB, pack off h)"
| "central_call_view (DiscoverDescriptors a b) = (CCMD_DISCOVER_DESCRIPTORS, pack a b)"
| "central_call_view (ClientWrite h _ _) = (CCMD_WRITE, pack 0 h)"
| "central_call_view (WriteNoRsp h _ _) = (CCMD_WRITE_NO_RSP, pack 0 h)"
| "central_call_view (WriteDescriptor h _ _) = (CCMD_WRITE, pack 0 h)"
| "central_call_view (Subscribe h) = (CCMD_SUBSCRIBE, pack 0 h)"
| "central_call_view (SubscribeIndicate h) = (CCMD_SUBSCRIBE_INDICATE, pack 0 h)"
| "central_call_view (Unsubscribe h) = (CCMD_UNSUBSCRIBE, pack 0 h)"

text \<open>The stores a call makes before it posts, whether or not the post succeeds.\<close>

definition store_scan ::
  "u8 \<Rightarrow> u16 \<Rightarrow> u16 \<Rightarrow> u16 \<Rightarrow> u8 \<Rightarrow> u8 ptr \<Rightarrow> u8 \<Rightarrow> shared \<Rightarrow> shared" where
  "store_scan a i w t opts addr k s =
     s\<lparr>SCAN_ACTIVE := (a \<noteq> 0), SCAN_INTERVAL_MS := ucast i, SCAN_WINDOW_MS := ucast w,
       SCAN_TIMEOUT_MS := ucast t, SCAN_FILTER_DUPLICATES := (opts AND 0x01 \<noteq> 0),
       SCAN_PHY_OPTIONS := ucast (opts AND 0x0e), SCAN_FILTER_ADDR_ENABLED := (addr \<noteq> None),
       SCAN_FILTER_ADDR := (case addr of None \<Rightarrow> SCAN_FILTER_ADDR s
          | Some m \<Rightarrow> blit (SCAN_FILTER_ADDR s) 0 (from_raw_parts m 6)),
       SCAN_FILTER_ADDR_KIND := ucast k\<rparr>"

definition store_addr :: "u8 ptr \<Rightarrow> u8 \<Rightarrow> shared \<Rightarrow> shared" where
  "store_addr addr k s =
     s\<lparr>CENTRAL_ADDR := blit (CENTRAL_ADDR s) 0 (slice_or_empty addr 6), CENTRAL_ADDR_KIND := ucast k\<rparr>"

definition store_uuid :: "u8 ptr \<Rightarrow> u8 \<Rightarrow> shared \<Rightarrow> shared" where
  "store_uuid uuid n s =
     s\<lparr>CENTRAL_UUID := blit (CENTRAL_UUID s) 0 (slice_or_empty uuid (unat n)),
       CENTRAL_UUID_LEN := ucast n\<rparr>"

definition store_data :: "u8 ptr \<Rightarrow> usize \<Rightarrow> shared \<Rightarrow> shared" where
  "store_data d n s = s\<lparr>SEND_BUF := blit (SEND_BUF s) 0 (slice_or_empty d (unat n)), SEND_LEN := n\<rparr>"

lemmas central_store_defs = store_scan_def store_addr_def store_uuid_def store_data_def

fun central_store :: "central_call \<Rightarrow> shared \<Rightarrow> shared" where
  "central_store (ScanStart a i w t) s = store_scan a i w t 0 None 0 s"
| "central_store (ScanStartEx a i w t opts addr k) s = store_scan a i w t opts addr k s"
| "central_store (Connect addr) s = store_addr addr 0 s"
| "central_store (ConnectAddr addr k) s = store_addr addr k s"
| "central_store (Discover uuid n) s = store_uuid uuid n s"
| "central_store (ReadByUuid _ _ uuid n) s = store_uuid uuid n s"
| "central_store (ClientWrite _ d n) s = store_data d n s"
| "central_store (WriteNoRsp _ d n) s = store_data d n s"
| "central_store (WriteDescriptor _ d n) s = store_data d n s"
| "central_store _ s = s"

lemma central_post_eq:
  "central_post f c s =
     (if central_call_valid f c
      then central_cmd f (fst (central_call_view c)) (snd (central_call_view c)) (central_store c s)
      else (RUNTIME_BLE_ERR_INVALID, s))"
  by (cases c)
    (auto simp: central_api_defs central_call_valid_def central_cmd_def central_store_defs pack_def
      uuid_arg_ok_def data_arg_ok_def slice_or_empty_def not_less split: option.splits)

text \<open>\<^verbatim>\<open>CENTRAL_CMD.swap(CCMD_NONE)\<close> with the load of \<^verbatim>\<open>CENTRAL_HANDLE\<close> that follows it in
  the commands that use it.\<close>

definition central_fetch :: "shared \<Rightarrow> (u32 \<times> u32) option \<times> shared" where
  "central_fetch s =
     (if CENTRAL_CMD s = CCMD_NONE then None else Some (CENTRAL_CMD s, CENTRAL_HANDLE s),
      s\<lparr>CENTRAL_CMD := CCMD_NONE\<rparr>)"

definition central_pending :: "shared \<Rightarrow> (u32 \<times> u32) option" where
  "central_pending s =
     (if CENTRAL_CMD s = CCMD_NONE then None else Some (CENTRAL_CMD s, CENTRAL_HANDLE s))"

definition central_tx_inv :: "shared \<Rightarrow> bool" where
  "central_tx_inv s \<longleftrightarrow> central_inv s \<and> tx_inv s"

lemma central_call_view_not_none: "fst (central_call_view c) \<noteq> CCMD_NONE"
  by (cases c) (simp_all add: ccmd_defs)

lemma central_store_frame [simp]:
  "CENTRAL_CMD (central_store c s) = CENTRAL_CMD s"
  "CENTRAL_HANDLE (central_store c s) = CENTRAL_HANDLE s"
  by (cases c; simp add: central_store_defs)+

lemma scan_phy_mask: "(ucast (b AND 0x0e) :: usize) AND 0x0e = ucast (b AND 0x0e)" for b :: u8
proof (rule bit_word_eqI)
  fix n
  show "bit ((ucast (b AND 0x0e) :: usize) AND 0x0e) n = bit (ucast (b AND 0x0e) :: usize) n"
  proof (cases "n < 8")
    case True
    then have "n \<in> {0, 1, 2, 3, 4, 5, 6, 7}" by auto
    then show ?thesis by (auto simp: bit_simps)
  qed (auto simp: bit_simps dest: bit_imp_le_length)
qed

lemma central_tx_inv_store:
  "central_tx_inv s \<Longrightarrow> central_args_ok c \<Longrightarrow> central_tx_inv (central_store c s)"
proof (cases c)
  case (ScanStart a i w t)
  then show "central_tx_inv s \<Longrightarrow> ?thesis"
    by (auto simp: central_tx_inv_def central_inv_def tx_inv_def store_scan_def)
next
  case (ScanStartEx a i w t opts addr k)
  then show "central_tx_inv s \<Longrightarrow> ?thesis"
    using scan_phy_mask[of opts]
    by (auto simp: central_tx_inv_def central_inv_def tx_inv_def store_scan_def split: option.split)
qed (auto simp: central_tx_inv_def central_inv_def tx_inv_def central_store_defs slice_or_empty_def
       uuid_arg_ok_def data_arg_ok_def SEND_BUF_CAP_def word_le_nat_alt)

lemma central_tx_inv_cmd: "central_tx_inv (snd (central_cmd f cmd h s)) \<longleftrightarrow> central_tx_inv s"
  by (simp add: central_cmd_def central_tx_inv_def central_inv_def tx_inv_def)

lemma central_tx_inv_post: "central_tx_inv s \<Longrightarrow> central_tx_inv (snd (central_post f c s))"
  by (simp add: central_post_eq central_tx_inv_cmd central_tx_inv_store central_call_valid_def)

interpretation centralq: mailbox central_tx_inv central_pending "central_post f" central_fetch
  "central_call_valid f" central_call_view
proof unfold_locales
  fix s :: shared and c :: central_call
  assume inv: "central_tx_inv s"
  show "central_tx_inv (snd (central_post f c s))" using inv by (rule central_tx_inv_post)
  show "fst (central_post f c s) = RUNTIME_BLE_OK
      \<and> central_pending (snd (central_post f c s)) = Some (central_call_view c)"
    if "central_call_valid f c" "central_pending s = None"
    using that central_call_view_not_none[of c]
    by (simp add: central_post_eq central_cmd_def central_pending_def central_call_valid_def
        split: if_splits)
  show "fst (central_post f c s) = RUNTIME_BLE_ERR_NO_MEM
      \<and> central_pending (snd (central_post f c s)) = central_pending s"
    if "central_call_valid f c" "central_pending s \<noteq> None"
    using that
    by (simp add: central_post_eq central_cmd_def central_pending_def central_call_valid_def
        split: if_splits)
  show "fst (central_post f c s) = RUNTIME_BLE_ERR_INVALID
      \<and> central_pending (snd (central_post f c s)) = central_pending s"
    if "\<not> central_call_valid f c"
    using that by (simp add: central_post_eq)
  show "fst (central_fetch s) = central_pending s \<and> central_tx_inv (snd (central_fetch s))
        \<and> central_pending (snd (central_fetch s)) = None"
    using inv
    by (simp add: central_fetch_def central_pending_def central_tx_inv_def central_inv_def tx_inv_def)
qed

section \<open>Properties\<close>

text \<open>What the runtime unpacks from the word of a command is what the caller passed.\<close>

lemma unpack_pack: "ucast (pack hi lo) = lo" "ucast (drop_bit 16 (pack hi lo)) = hi"
  by (rule bit_word_eqI; auto simp: pack_def bit_simps dest: bit_imp_le_length)+

text \<open>Result (central_commands_fifo). In a build with the central role, over any interleaving of
  central calls and of turns of the runtime's command loops, starting with no command
  waiting, the commands executed are exactly those of the accepted calls, in order, each
  with the word that packs its handle arguments; at most one accepted command is waiting.\<close>

theorem central_commands_fifo:
  assumes "central_tx_inv s" "CENTRAL_CMD s = CCMD_NONE"
    and "mb_run (central_post f) central_fetch ops s = (accepted, executed, s')"
  shows "map central_call_view accepted = executed @ opt_list (central_pending s')"
proof -
  have "central_pending s = None" using assms(2) by (simp add: central_pending_def)
  then show ?thesis by (rule centralq.run_fifo_from_idle[OF assms(1) _ assms(3)])
qed

definition central_demo_ops :: "central_call mb_op list" where
  "central_demo_ops = [Post (ClientRead 9), Post ScanStop, Fetch, Post (DiscoverDescriptors 0 4),
                       Post (ReadBlob 9 20)]"

theorem central_commands_fifo_witness:
  "map central_call_view [ClientRead 9, ReadBlob 9 20] =
     fst (snd (mb_run (central_post full_build) central_fetch central_demo_ops shared_init))
       @ [(CCMD_READ_BLOB, pack 20 9)]"
proof -
  let ?r = "mb_run (central_post full_build) central_fetch central_demo_ops shared_init"
  have inv: "central_tx_inv shared_init" "CENTRAL_CMD shared_init = CCMD_NONE"
    using shared_inv_init by (simp_all add: shared_inv_def central_tx_inv_def shared_init_def)
  obtain acc ex s' where run: "?r = (acc, ex, s')" by (metis prod_cases3)
  have "fst ?r = [ClientRead 9, ReadBlob 9 20]
      \<and> central_pending (snd (snd ?r)) = Some (CCMD_READ_BLOB, pack 20 9)"
    by (simp add: central_demo_ops_def central_post_eq central_call_valid_def full_build_def
        central_cmd_def central_fetch_def central_pending_def shared_init_def result_codes
        CCMD_NONE_def CCMD_READ_def CCMD_READ_BLOB_def Let_def)
  then show ?thesis using central_commands_fifo[OF inv run] run by simp
qed

end
