(* ===== verification/L2cap.thy ===== *)
theory L2cap
  imports Shared Mailbox
begin

text \<open>
  L2CAP connection-oriented channels: the calls \<^verbatim>\<open>runtime_ble_l2cap_send\<close> and
  \<^verbatim>\<open>runtime_ble_l2cap_disconnect\<close> of \<^verbatim>\<open>lib.rs\<close>, and \<^verbatim>\<open>l2cap_channel_config\<close>,
  \<^verbatim>\<open>l2cap_serve\<close>, \<^verbatim>\<open>l2cap_peripheral\<close> and \<^verbatim>\<open>l2cap_central\<close> of \<^verbatim>\<open>radio.rs\<close>. The
  outbound SDU is an atomic mailbox. \<^verbatim>\<open>l2cap_serve\<close> selects over three futures; a run of it
  is a list of events, each one turn of one of them or one call of the application between
  the turns.
\<close>

section \<open>Application calls\<close>

definition runtime_ble_l2cap_send :: "features \<Rightarrow> u8 ptr \<Rightarrow> usize \<Rightarrow> shared \<Rightarrow> c_int \<times> shared" where
  "runtime_ble_l2cap_send f data len s =
     (if f_l2cap f then
        (case data of
           None \<Rightarrow> (RUNTIME_BLE_ERR_INVALID, s)
         | Some m \<Rightarrow>
             if len = 0 \<or> len > SEND_BUF_CAP then (RUNTIME_BLE_ERR_INVALID, s)
             else if L2CAP_SEND_REQ s then (RUNTIME_BLE_ERR_NO_MEM, s)
             else (RUNTIME_BLE_OK,
                   s\<lparr>L2CAP_SEND_BUF := blit (L2CAP_SEND_BUF s) 0 (from_raw_parts m (unat len)),
                     L2CAP_SEND_LEN := len,
                     L2CAP_SEND_REQ := True\<rparr>))
      else (RUNTIME_BLE_ERR_INVALID, s))"

definition runtime_ble_l2cap_disconnect :: "features \<Rightarrow> shared \<Rightarrow> c_int \<times> shared" where
  "runtime_ble_l2cap_disconnect f s =
     (if f_l2cap f then (RUNTIME_BLE_OK, s\<lparr>L2CAP_DISCONNECT_REQ := True\<rparr>)
      else (RUNTIME_BLE_ERR_INVALID, s))"

section \<open>Channel configuration\<close>

datatype flow_policy = Every u16 | MinThreshold u16

record channel_config =
  ch_mtu :: "u16 option"
  ch_mps :: "u16 option"
  ch_flow_policy :: flow_policy
  ch_initial_credits :: "u16 option"

definition then_some :: "bool \<Rightarrow> 'a \<Rightarrow> 'a option" where
  "then_some b x = (if b then Some x else None)"

definition l2cap_channel_config :: "RuntimeCfg \<Rightarrow> channel_config" where
  "l2cap_channel_config cfg =
     (let policy_value =
            (if cfg_l2cap_credit_policy_value cfg = 0 then 1 else cfg_l2cap_credit_policy_value cfg);
          flow_policy =
            (if cfg_l2cap_credit_policy cfg = 1 then MinThreshold policy_value else Every policy_value)
      in \<lparr>ch_mtu = then_some (cfg_l2cap_mtu cfg \<noteq> 0) (cfg_l2cap_mtu cfg),
          ch_mps = then_some (cfg_l2cap_mps cfg \<noteq> 0) (cfg_l2cap_mps cfg),
          ch_flow_policy = flow_policy,
          ch_initial_credits =
            then_some (cfg_l2cap_initial_credits cfg \<noteq> 0) (cfg_l2cap_initial_credits cfg)\<rparr>)"

section \<open>Serving a channel\<close>

text \<open>What the runtime does to the channel.\<close>

datatype l2_out = L2Callback cb_event | L2Disconnect | L2Send "u8 list" | L2CreateFailed cb_event

text \<open>The second half of the body of the \<^verbatim>\<open>send\<close> loop: the queued SDU, cut to \<open>VALUE_LEN\<close>.\<close>

definition l2cap_take :: "features \<Rightarrow> shared \<Rightarrow> u8 list option \<times> shared" where
  "l2cap_take f s =
     (if L2CAP_SEND_REQ s then
        let len = min (unat (L2CAP_SEND_LEN s)) (VALUE_LEN f);
            b = blit (replicate (VALUE_LEN f) 0) 0 (take len (L2CAP_SEND_BUF s))
        in (Some (take len b), s\<lparr>L2CAP_SEND_REQ := False\<rparr>)
      else (None, s))"

text \<open>One turn of the \<^verbatim>\<open>send\<close> loop. The result of \<^verbatim>\<open>writer.send\<close> is discarded.\<close>

definition l2cap_send_turn :: "features \<Rightarrow> shared \<Rightarrow> l2_out list \<times> shared" where
  "l2cap_send_turn f s =
     (let (o1, s1) =
            (if L2CAP_DISCONNECT_REQ s
             then ([L2Disconnect], s\<lparr>L2CAP_DISCONNECT_REQ := False, L2CAP_SEND_REQ := False\<rparr>)
             else ([], s));
          (sdu, s2) = l2cap_take f s1
      in (o1 @ (case sdu of None \<Rightarrow> [] | Some b \<Rightarrow> [L2Send b]), s2))"

text \<open>The prologue: \<^verbatim>\<open>on_l2cap_connected\<close>, during which the application may call the API
  (\<open>app\<close> is what it does to the statics), and then the two resets.\<close>

definition l2cap_begin :: "RuntimeCfg \<Rightarrow> (shared \<Rightarrow> shared) \<Rightarrow> shared \<Rightarrow> l2_out list \<times> shared" where
  "l2cap_begin cfg app s =
     (let cb = on_l2cap_connected (cfg_callbacks cfg);
          s1 = (if cb then app s else s)
      in (map L2Callback (emit cb cfg OnL2capConnected),
          s1\<lparr>L2CAP_SEND_REQ := False, L2CAP_DISCONNECT_REQ := False\<rparr>))"

text \<open>The events of \<^verbatim>\<open>select3(recv, send, wait_unload())\<close>: an SDU or an error from the
  channel, a turn of the send loop, a poll of \<^verbatim>\<open>wait_unload\<close>, and anything another thread
  does to the statics in between.\<close>

datatype l2_event = L2Recv "u8 list" | L2RecvErr | L2SendTurn | L2PollUnload | L2App "shared \<Rightarrow> shared"

fun l2cap_select :: "features \<Rightarrow> RuntimeCfg \<Rightarrow> l2_event list \<Rightarrow> shared \<Rightarrow> l2_out list \<times> shared \<times> bool" where
  "l2cap_select f cfg [] s = ([], s, False)"
| "l2cap_select f cfg (L2Recv sdu # es) s =
     (let (outs, s', ended) = l2cap_select f cfg es s
      in (map L2Callback (emit (on_l2cap_data (cfg_callbacks cfg)) cfg (OnL2capData sdu)) @ outs, s', ended))"
| "l2cap_select f cfg (L2RecvErr # es) s = ([], s, True)"
| "l2cap_select f cfg (L2SendTurn # es) s =
     (let (o1, s1) = l2cap_send_turn f s; (outs, s', ended) = l2cap_select f cfg es s1
      in (o1 @ outs, s', ended))"
| "l2cap_select f cfg (L2PollUnload # es) s =
     (if UNLOAD_REQ s then ([], s, True) else l2cap_select f cfg es s)"
| "l2cap_select f cfg (L2App app # es) s = l2cap_select f cfg es (app s)"

text \<open>\<^verbatim>\<open>l2cap_serve\<close>; the flag says that it returned within the events given.\<close>

definition l2cap_serve ::
  "features \<Rightarrow> RuntimeCfg \<Rightarrow> (shared \<Rightarrow> shared) \<Rightarrow> l2_event list \<Rightarrow> shared \<Rightarrow> l2_out list \<times> shared \<times> bool" where
  "l2cap_serve f cfg app es s =
     (let (o1, s1) = l2cap_begin cfg app s;
          (o2, s2, ended) = l2cap_select f cfg es s1
      in (o1 @ o2 @
            (if ended
             then map L2Callback (emit (on_l2cap_disconnected (cfg_callbacks cfg)) cfg OnL2capDisconnected)
             else []),
          s2, ended))"

text \<open>\<^verbatim>\<open>l2cap_peripheral\<close>: one entry per \<^verbatim>\<open>listener.accept\<close>, \<open>None\<close> an error. The loop ends
  once an unload is requested after an iteration.\<close>

fun l2cap_peripheral ::
  "features \<Rightarrow> RuntimeCfg \<Rightarrow> ((shared \<Rightarrow> shared) \<times> l2_event list) option list \<Rightarrow> shared \<Rightarrow>
     l2_out list \<times> shared \<times> bool" where
  "l2cap_peripheral f cfg [] s = ([], s, False)"
| "l2cap_peripheral f cfg (a # as) s =
     (let (o1, s1, ended) =
            (case a of
               Some (app, es) \<Rightarrow> l2cap_serve f cfg app es s
             | None \<Rightarrow> ([], s, True))
      in if \<not> ended then (o1, s1, False)
         else if UNLOAD_REQ s1 then (o1, s1, True)
         else let (o2, s2, e2) = l2cap_peripheral f cfg as s1 in (o1 @ o2, s2, e2))"

text \<open>\<^verbatim>\<open>l2cap_central\<close>: the outcome of \<^verbatim>\<open>L2capChannel::create\<close>.\<close>

definition l2cap_central ::
  "features \<Rightarrow> RuntimeCfg \<Rightarrow> ((shared \<Rightarrow> shared) \<times> l2_event list) option \<Rightarrow> shared \<Rightarrow>
     l2_out list \<times> shared \<times> bool" where
  "l2cap_central f cfg created s =
     (case created of
        Some (app, es) \<Rightarrow> l2cap_serve f cfg app es s
      | None \<Rightarrow> (map L2Callback (log_str cfg ''[l2cap] create failed''), s, True))"

section \<open>The outbound SDU as a mailbox\<close>

type_synonym l2_msg = "u8 ptr \<times> usize"

definition l2_post :: "features \<Rightarrow> l2_msg \<Rightarrow> shared \<Rightarrow> c_int \<times> shared" where
  "l2_post f m s = runtime_ble_l2cap_send f (fst m) (snd m) s"

definition l2_valid :: "features \<Rightarrow> l2_msg \<Rightarrow> bool" where
  "l2_valid f m \<longleftrightarrow> f_l2cap f \<and> fst m \<noteq> None \<and> snd m \<noteq> 0 \<and> snd m \<le> SEND_BUF_CAP"

definition l2_view :: "features \<Rightarrow> l2_msg \<Rightarrow> u8 list" where
  "l2_view f m = take (VALUE_LEN f) (slice_or_empty (fst m) (unat (snd m)))"

definition l2_pending :: "features \<Rightarrow> shared \<Rightarrow> u8 list option" where
  "l2_pending f s =
     (if L2CAP_SEND_REQ s
      then Some (take (VALUE_LEN f) (take (unat (L2CAP_SEND_LEN s)) (L2CAP_SEND_BUF s))) else None)"

lemma l2_cap: "len \<le> SEND_BUF_CAP \<Longrightarrow> unat len \<le> 512"
  by (simp add: SEND_BUF_CAP_def word_le_nat_alt)

lemma l2cap_inv_send: "l2cap_inv s \<Longrightarrow> l2cap_inv (snd (runtime_ble_l2cap_send f data len s))"
  using l2_cap[of len]
  by (auto simp: runtime_ble_l2cap_send_def l2cap_inv_def not_less split: option.split)

lemma l2cap_inv_disconnect: "l2cap_inv s \<Longrightarrow> l2cap_inv (snd (runtime_ble_l2cap_disconnect f s))"
  by (simp add: runtime_ble_l2cap_disconnect_def l2cap_inv_def)

lemma l2cap_take_eq:
  assumes "l2cap_inv s"
  shows "l2cap_take f s = (l2_pending f s, s\<lparr>L2CAP_SEND_REQ := False\<rparr>)"
proof -
  let ?n = "min (unat (L2CAP_SEND_LEN s)) (VALUE_LEN f)"
  have "unat (L2CAP_SEND_LEN s) \<le> 512" "length (L2CAP_SEND_BUF s) = 512"
    using assms l2_cap by (auto simp: l2cap_inv_def)
  then have len: "?n = length (take ?n (L2CAP_SEND_BUF s))" by simp
  have "take ?n (blit (replicate (VALUE_LEN f) 0) 0 (take ?n (L2CAP_SEND_BUF s)))
      = take ?n (L2CAP_SEND_BUF s)"
    by (rule take_blit_0'[OF len])
  then show ?thesis by (simp add: l2cap_take_def l2_pending_def Let_def min.commute)
qed

lemma l2_post_ok:
  assumes "l2cap_inv s" "l2_valid f m" "l2_pending f s = None"
  shows "fst (l2_post f m s) = RUNTIME_BLE_OK \<and> l2_pending f (snd (l2_post f m s)) = Some (l2_view f m)"
proof -
  obtain p where p: "fst m = Some p" using assms(2) by (auto simp: l2_valid_def)
  show ?thesis
    using assms p
    by (auto simp: l2_post_def runtime_ble_l2cap_send_def l2_valid_def l2_pending_def l2_view_def
        slice_or_empty_def not_less split: if_splits)
qed

lemma l2_send_refused:
  "fst (runtime_ble_l2cap_send f d n s) \<noteq> RUNTIME_BLE_OK \<Longrightarrow> snd (runtime_ble_l2cap_send f d n s) = s"
  by (cases d; cases "f_l2cap f"; cases "L2CAP_SEND_REQ s"; cases "n = 0 \<or> n > SEND_BUF_CAP")
    (simp_all add: runtime_ble_l2cap_send_def)

interpretation l2q: atomic_mailbox l2cap_inv "l2_pending f" "l2_post f" "l2cap_take f" "l2_valid f" "l2_view f"
proof unfold_locales
  fix s :: shared and m :: l2_msg
  assume inv: "l2cap_inv s"
  show "l2cap_inv (snd (l2_post f m s))" using inv by (simp add: l2_post_def l2cap_inv_send)
  show "fst (l2_post f m s) = RUNTIME_BLE_OK \<and> l2_pending f (snd (l2_post f m s)) = Some (l2_view f m)"
    if "l2_valid f m" "l2_pending f s = None"
    using l2_post_ok[OF inv that] .
  show "fst (l2_post f m s) = RUNTIME_BLE_ERR_NO_MEM \<and> l2_pending f (snd (l2_post f m s)) = l2_pending f s"
    if "l2_valid f m" "l2_pending f s \<noteq> None"
    using that
    by (auto simp: l2_post_def runtime_ble_l2cap_send_def l2_valid_def l2_pending_def not_less split: if_splits)
  show "fst (l2_post f m s) = RUNTIME_BLE_ERR_INVALID \<and> l2_pending f (snd (l2_post f m s)) = l2_pending f s"
    if "\<not> l2_valid f m"
    using that
    by (auto simp: l2_post_def runtime_ble_l2cap_send_def l2_valid_def not_less split: option.splits)
  show "snd (l2_post f m s) = s" if "fst (l2_post f m s) \<noteq> RUNTIME_BLE_OK"
    using that l2_send_refused[of f "fst m" "snd m" s] by (simp add: l2_post_def)
  show "fst (l2cap_take f s) = l2_pending f s \<and> l2cap_inv (snd (l2cap_take f s))
        \<and> l2_pending f (snd (l2cap_take f s)) = None"
    using inv by (simp add: l2cap_take_eq l2_pending_def l2cap_inv_def)
qed

lemma l2cap_send_turn_eq:
  assumes "l2cap_inv s"
  shows "l2cap_send_turn f s =
     (if L2CAP_DISCONNECT_REQ s then [L2Disconnect] else map L2Send (opt_list (l2_pending f s)),
      s\<lparr>L2CAP_DISCONNECT_REQ := False, L2CAP_SEND_REQ := False\<rparr>)"
proof -
  have i: "l2cap_inv (s\<lparr>L2CAP_DISCONNECT_REQ := False, L2CAP_SEND_REQ := False\<rparr>)"
    using assms by (simp add: l2cap_inv_def)
  show ?thesis
    using l2cap_take_eq[OF assms, of f] l2cap_take_eq[OF i, of f]
    by (simp add: l2cap_send_turn_def l2_pending_def opt_list_def)
qed

section \<open>The trace of a channel\<close>

text \<open>The SDUs the application is given, and those the peer is sent.\<close>

fun l2_delivered :: "l2_out list \<Rightarrow> u8 list list" where
  "l2_delivered [] = []"
| "l2_delivered (L2Callback (OnL2capData d, _) # os) = d # l2_delivered os"
| "l2_delivered (_ # os) = l2_delivered os"

fun l2_received :: "l2_event list \<Rightarrow> u8 list list" where
  "l2_received [] = []"
| "l2_received (L2Recv d # es) = d # l2_received es"
| "l2_received (_ # es) = l2_received es"

fun is_bracket :: "l2_out \<Rightarrow> bool" where
  "is_bracket (L2Callback (OnL2capConnected, _)) = True"
| "is_bracket (L2Callback (OnL2capDisconnected, _)) = True"
| "is_bracket _ = False"

lemma l2_delivered_append [simp]: "l2_delivered (xs @ ys) = l2_delivered xs @ l2_delivered ys"
  by (induction xs rule: l2_delivered.induct) simp_all

lemma l2_delivered_turn [simp]: "l2_delivered (fst (l2cap_send_turn f s)) = []"
  by (simp add: l2cap_send_turn_def Let_def split: prod.split option.split)

lemma no_bracket_turn: "x \<in> set (fst (l2cap_send_turn f s)) \<Longrightarrow> \<not> is_bracket x"
  by (auto simp: l2cap_send_turn_def Let_def split: prod.splits option.splits if_splits)

lemma l2cap_select_no_bracket:
  "x \<in> set (fst (l2cap_select f cfg es s)) \<Longrightarrow> \<not> is_bracket x"
proof (induction es arbitrary: s)
  case (Cons e es)
  then show ?case
    using no_bracket_turn[of x f s]
    by (cases e) (auto simp: case_prod_beta emit_def split: if_splits)
qed simp

lemma l2cap_select_delivered:
  "on_l2cap_data (cfg_callbacks cfg) \<Longrightarrow>
     \<exists>rest. l2_received es = l2_delivered (fst (l2cap_select f cfg es s)) @ rest
          \<and> (\<not> snd (snd (l2cap_select f cfg es s)) \<longrightarrow> rest = [])"
proof (induction es arbitrary: s)
  case (Cons e es)
  then show ?case by (cases e) (simp_all add: case_prod_beta emit_def)
qed simp

section \<open>Properties\<close>

text \<open>Result (l2cap_config_sound). For a configuration that \<open>runtime_ble_init\<close> accepted, every
  MTU and MPS the channel is opened with explicitly is at least the 23 bytes L2CAP requires,
  no credit count is zero, and the flow policy is the one configured with a threshold of at
  least one.\<close>

theorem l2cap_config_sound:
  assumes "runtime_ble_init (Some c) CONFIG = (RUNTIME_BLE_OK, Some cfg)"
  shows "(\<forall>m. ch_mtu (l2cap_channel_config cfg) = Some m \<longrightarrow> 23 \<le> m)
     \<and> (\<forall>m. ch_mps (l2cap_channel_config cfg) = Some m \<longrightarrow> 23 \<le> m)
     \<and> ch_initial_credits (l2cap_channel_config cfg) \<noteq> Some 0
     \<and> (\<exists>v. v \<noteq> 0 \<and> (if l2_credit_policy (c_l2cap c) = 0 then ch_flow_policy (l2cap_channel_config cfg) = Every v
             else ch_flow_policy (l2cap_channel_config cfg) = MinThreshold v))"
proof -
  have cfg: "cfg = flatten_config c" "cfg_ok cfg"
    using assms
    by (auto simp: runtime_ble_init_def result_codes config_valid_iff_cfg_ok split: if_splits)
  then have p: "l2_credit_policy (c_l2cap c) = cfg_l2cap_credit_policy cfg" "cfg_l2cap_credit_policy cfg \<le> 1"
    by (simp_all add: flatten_config_def cfg_ok_def)
  then have "cfg_l2cap_credit_policy cfg = 0 \<or> cfg_l2cap_credit_policy cfg = 1"
    by (simp add: u8_le_1)
  then show ?thesis
    using cfg(2) p
    by (auto simp: l2cap_channel_config_def then_some_def cfg_ok_def Let_def split: if_splits)
qed

theorem l2cap_config_sound_witness:
  "ch_mtu (l2cap_channel_config (flatten_config (zero_config\<lparr>c_l2cap := (c_l2cap zero_config)\<lparr>l2_mtu := 64\<rparr>\<rparr>)))
     = Some 64"
proof -
  let ?c = "zero_config\<lparr>c_l2cap := (c_l2cap zero_config)\<lparr>l2_mtu := 64\<rparr>\<rparr>"
  have "runtime_ble_init (Some ?c) None = (RUNTIME_BLE_OK, Some (flatten_config ?c))"
    by (simp add: runtime_ble_init_def zero_config_def config_valid_def)
  from l2cap_config_sound[OF this] show ?thesis
    by (simp add: l2cap_channel_config_def flatten_config_def then_some_def zero_config_def Let_def)
qed

text \<open>Result (l2cap_queue_fifo). While a channel is served and no disconnect is requested, the
  SDUs written to the channel are exactly those \<open>runtime_ble_l2cap_send\<close> accepted, in order,
  each once and cut to \<open>VALUE_LEN\<close> bytes.\<close>

theorem l2cap_queue_fifo:
  assumes "l2cap_inv s" "\<not> L2CAP_SEND_REQ s"
    and "mb_run (l2_post f) (l2cap_take f) ops s = (accepted, written, s')"
  shows "map (l2_view f) accepted = written @ opt_list (l2_pending f s')"
proof -
  have "l2_pending f s = None" using assms(2) by (simp add: l2_pending_def)
  then show ?thesis by (rule l2q.run_fifo_from_idle[OF assms(1) _ assms(3)])
qed

definition l2_demo_ops :: "l2_msg mb_op list" where
  "l2_demo_ops = [Post (Some (\<lambda>i. 5), 1), Post (Some (\<lambda>i. 6), 1), Fetch, Post (Some (\<lambda>i. 6), 2)]"

theorem l2cap_queue_fifo_witness:
  "fst (snd (mb_run (l2_post full_build) (l2cap_take full_build) l2_demo_ops shared_init)) = [[5]]
   \<and> map (l2_view full_build) (fst (mb_run (l2_post full_build) (l2cap_take full_build) l2_demo_ops shared_init))
       = [[5], [6, 6]]"
proof -
  let ?r = "mb_run (l2_post full_build) (l2cap_take full_build) l2_demo_ops shared_init"
  have inv: "l2cap_inv shared_init" "\<not> L2CAP_SEND_REQ shared_init"
    using shared_inv_init by (simp_all add: shared_inv_def shared_init_def)
  obtain acc w s' where run: "?r = (acc, w, s')" by (metis prod_cases3)
  have "fst (snd ?r) = [[5]] \<and> l2_pending full_build (snd (snd ?r)) = Some [6, 6]"
    by (simp add: l2_demo_ops_def l2_post_def runtime_ble_l2cap_send_def l2cap_take_def l2_pending_def
        shared_init_def full_build_def SEND_BUF_CAP_def result_codes Let_def blit_def VALUE_LEN_def
        from_raw_parts_def upt_rec)
  then show ?thesis using l2cap_queue_fifo[OF inv run] run by simp
qed

text \<open>C24 (l2cap_disconnect_flushes). A disconnect request is stronger than a queued SDU,
  whichever was made first: the next turn of the send loop closes the channel, sends
  nothing, and leaves both requests cleared, so no SDU leaks into a later channel.\<close>

theorem l2cap_disconnect_flushes:
  assumes "l2cap_inv s" "f_l2cap f"
  shows "l2cap_send_turn f (snd (runtime_ble_l2cap_send f data len (snd (runtime_ble_l2cap_disconnect f s))))
       = ([L2Disconnect],
          (snd (runtime_ble_l2cap_send f data len (snd (runtime_ble_l2cap_disconnect f s))))
            \<lparr>L2CAP_DISCONNECT_REQ := False, L2CAP_SEND_REQ := False\<rparr>)
     \<and> fst (l2cap_send_turn f (snd (runtime_ble_l2cap_disconnect f (snd (runtime_ble_l2cap_send f data len s)))))
       = [L2Disconnect]"
proof -
  have keep: "L2CAP_DISCONNECT_REQ (snd (runtime_ble_l2cap_send f data len s1)) = L2CAP_DISCONNECT_REQ s1" for s1
    by (simp add: runtime_ble_l2cap_send_def split: option.split)
  have req: "L2CAP_DISCONNECT_REQ (snd (runtime_ble_l2cap_disconnect f s1))" for s1
    using assms(2) by (simp add: runtime_ble_l2cap_disconnect_def)
  show ?thesis
    using keep req assms(1) by (simp add: l2cap_send_turn_eq l2cap_inv_send l2cap_inv_disconnect)
qed

theorem l2cap_disconnect_flushes_witness:
  "fst (l2cap_send_turn full_build (snd (runtime_ble_l2cap_disconnect full_build
     (snd (runtime_ble_l2cap_send full_build (Some (\<lambda>i. 1)) 4 shared_init))))) = [L2Disconnect]"
  using l2cap_disconnect_flushes[of shared_init full_build "Some (\<lambda>i. 1)" 4] shared_inv_init
  by (simp add: shared_inv_def full_build_def)


definition l2_demo_cfg :: RuntimeCfg where
  "l2_demo_cfg = (flatten_config zero_config)\<lparr>cfg_callbacks :=
     no_callbacks\<lparr>on_l2cap_connected := True, on_l2cap_data := True, on_l2cap_disconnected := True\<rparr>\<rparr>"


text \<open>C39 (l2cap_sdu_queued_in_callback_lost). An SDU that the application queues from inside
  \<open>on_l2cap_connected\<close> is accepted with \<open>RUNTIME_BLE_OK\<close> and then lost: \<open>l2cap_serve\<close>
  clears the request after the callback, so the first turn of the send loop sends nothing.\<close>

theorem l2cap_sdu_queued_in_callback_lost:
  assumes "f_l2cap f" "l2cap_inv s" "\<not> L2CAP_SEND_REQ s" "len \<noteq> 0" "len \<le> SEND_BUF_CAP"
    and "on_l2cap_connected (cfg_callbacks cfg)"
  shows "fst (runtime_ble_l2cap_send f (Some m) len s) = RUNTIME_BLE_OK
     \<and> fst (l2cap_send_turn f (snd (l2cap_begin cfg (\<lambda>t. snd (runtime_ble_l2cap_send f (Some m) len t)) s))) = []"
  using assms leD[OF assms(5)]
  by (auto simp: runtime_ble_l2cap_send_def l2cap_begin_def l2cap_send_turn_def l2cap_take_def Let_def)

theorem l2cap_sdu_queued_in_callback_lost_witness:
  "fst (runtime_ble_l2cap_send full_build (Some (\<lambda>i. 9)) 2 shared_init) = RUNTIME_BLE_OK
   \<and> fst (l2cap_send_turn full_build (snd (l2cap_begin l2_demo_cfg
         (\<lambda>t. snd (runtime_ble_l2cap_send full_build (Some (\<lambda>i. 9)) 2 t)) shared_init))) = []"
  by (rule l2cap_sdu_queued_in_callback_lost)
    (use shared_inv_init in \<open>simp_all add: full_build_def shared_inv_def shared_init_def SEND_BUF_CAP_def l2_demo_cfg_def\<close>)

end
