(* ===== verification/Api.thy ===== *)
theory Api
  imports TxApi LinkApi BondApi CentralApi L2cap
begin

text \<open>
  The C API as a whole: every call an application can make while a session runs, as one
  datatype; what all of them keep and what a refusal means; the resets of
  \<^verbatim>\<open>runtime_ble_run\<close> and the load status. The properties that span several channels are
  here: the statics' invariant, the effect-freeness of invalid calls, and the two places
  where channels share state they should not.
\<close>

section \<open>Calls\<close>

definition runtime_ble_signal_unload :: "shared \<Rightarrow> shared" where
  "runtime_ble_signal_unload s = s\<lparr>UNLOAD_REQ := True\<rparr>"

definition runtime_ble_load_status :: "shared \<Rightarrow> c_int" where
  "runtime_ble_load_status s = LOAD_STATUS s"

text \<open>The stores at the head of \<^verbatim>\<open>runtime_ble_run\<close>.\<close>

definition runtime_ble_run_reset :: "shared \<Rightarrow> shared" where
  "runtime_ble_run_reset s = s\<lparr>UNLOAD_REQ := False, SEND_REQ := False\<rparr>"

datatype (plugins only: code size) api_call =
    ApiSend "u8 ptr" usize
  | ApiNotify u16 "u8 ptr" usize
  | ApiIndicate u16 "u8 ptr" usize
  | ApiLink link_call
  | ApiBond bond_call
  | ApiCentral central_call
  | ApiL2capSend "u8 ptr" usize
  | ApiL2capDisconnect
  | ApiSignalUnload

fun api_step :: "features \<Rightarrow> api_call \<Rightarrow> shared \<Rightarrow> c_int \<times> shared" where
  "api_step f (ApiSend d n) s = runtime_ble_send d n s"
| "api_step f (ApiNotify c d n) s = runtime_ble_notify c d n s"
| "api_step f (ApiIndicate c d n) s = runtime_ble_indicate c d n s"
| "api_step f (ApiLink c) s = link_post c s"
| "api_step f (ApiBond c) s = bond_post c s"
| "api_step f (ApiCentral c) s = central_post f c s"
| "api_step f (ApiL2capSend d n) s = runtime_ble_l2cap_send f d n s"
| "api_step f ApiL2capDisconnect s = runtime_ble_l2cap_disconnect f s"
| "api_step f ApiSignalUnload s = (RUNTIME_BLE_OK, runtime_ble_signal_unload s)"

primrec api_run :: "features \<Rightarrow> api_call list \<Rightarrow> shared \<Rightarrow> shared" where
  "api_run f [] s = s"
| "api_run f (c # cs) s = api_run f cs (snd (api_step f c s))"

lemmas tx_api_defs = runtime_ble_send_def runtime_ble_notify_def runtime_ble_indicate_def

section \<open>Channels do not disturb one another's invariants\<close>

named_theorems channel_frames

lemma queue_tx_frame [channel_frames]:
  "l2cap_inv (snd (queue_tx c k d n s)) = l2cap_inv s"
  "central_inv (snd (queue_tx c k d n s)) = central_inv s"
  "link_inv (snd (queue_tx c k d n s)) = link_inv s"
  "bond_inv (snd (queue_tx c k d n s)) = bond_inv s"
  by (simp_all add: queue_tx_def channel_inv_defs split: option.split)

lemma l2cap_send_frame [channel_frames]:
  "tx_inv (snd (runtime_ble_l2cap_send f d n s)) = tx_inv s"
  "central_inv (snd (runtime_ble_l2cap_send f d n s)) = central_inv s"
  "link_inv (snd (runtime_ble_l2cap_send f d n s)) = link_inv s"
  "bond_inv (snd (runtime_ble_l2cap_send f d n s)) = bond_inv s"
  by (simp_all add: runtime_ble_l2cap_send_def channel_inv_defs split: option.split)

lemma link_post_frame [channel_frames]:
  "tx_inv (snd (link_post c s)) = tx_inv s"
  "l2cap_inv (snd (link_post c s)) = l2cap_inv s"
  "central_inv (snd (link_post c s)) = central_inv s"
  "bond_inv (snd (link_post c s)) = bond_inv s"
proof -
  have "tx_inv (link_store c s) = tx_inv s" "l2cap_inv (link_store c s) = l2cap_inv s"
    "central_inv (link_store c s) = central_inv s" "bond_inv (link_store c s) = bond_inv s"
    by (cases c; simp add: channel_inv_defs)+
  moreover have "tx_inv (snd (link_cmd m t)) = tx_inv t" "l2cap_inv (snd (link_cmd m t)) = l2cap_inv t"
    "central_inv (snd (link_cmd m t)) = central_inv t" "bond_inv (snd (link_cmd m t)) = bond_inv t" for m t
    by (simp_all add: link_cmd_def channel_inv_defs)
  ultimately show "tx_inv (snd (link_post c s)) = tx_inv s"
    "l2cap_inv (snd (link_post c s)) = l2cap_inv s"
    "central_inv (snd (link_post c s)) = central_inv s"
    "bond_inv (snd (link_post c s)) = bond_inv s"
    by (simp_all add: link_post_eq)
qed

lemma bond_cmd_frame:
  "tx_inv (snd (bond_admin_cmd m v s)) = tx_inv s"
  "l2cap_inv (snd (bond_admin_cmd m v s)) = l2cap_inv s"
  "central_inv (snd (bond_admin_cmd m v s)) = central_inv s"
  "link_inv (snd (bond_admin_cmd m v s)) = link_inv s"
  by (simp_all add: bond_admin_cmd_def channel_inv_defs Let_def)

lemma bond_post_frame [channel_frames]:
  "tx_inv (snd (bond_post c s)) = tx_inv s"
  "l2cap_inv (snd (bond_post c s)) = l2cap_inv s"
  "central_inv (snd (bond_post c s)) = central_inv s"
  "link_inv (snd (bond_post c s)) = link_inv s"
  by (cases c; simp add: bond_post_cases bond_cmd_frame)+

lemma central_post_frame [channel_frames]:
  "l2cap_inv (snd (central_post f c s)) = l2cap_inv s"
  "link_inv (snd (central_post f c s)) = link_inv s"
  "bond_inv (snd (central_post f c s)) = bond_inv s"
proof -
  have "l2cap_inv (central_store c s) = l2cap_inv s" "link_inv (central_store c s) = link_inv s"
    "bond_inv (central_store c s) = bond_inv s"
    by (cases c; simp add: central_store_defs channel_inv_defs)+
  moreover have "l2cap_inv (snd (central_cmd f m h t)) = l2cap_inv t"
    "link_inv (snd (central_cmd f m h t)) = link_inv t"
    "bond_inv (snd (central_cmd f m h t)) = bond_inv t" for m h t
    by (simp_all add: central_cmd_def channel_inv_defs)
  ultimately show "l2cap_inv (snd (central_post f c s)) = l2cap_inv s"
    "link_inv (snd (central_post f c s)) = link_inv s"
    "bond_inv (snd (central_post f c s)) = bond_inv s"
    by (simp_all add: central_post_eq)
qed

lemma shared_inv_parts:
  "shared_inv s \<longleftrightarrow> central_tx_inv s \<and> l2cap_inv s \<and> link_inv s \<and> bond_inv s"
  by (auto simp: shared_inv_def central_tx_inv_def)

lemma shared_inv_step: "shared_inv s \<Longrightarrow> shared_inv (snd (api_step f c s))"
proof (cases c)
  case (ApiCentral x)
  then show "shared_inv s \<Longrightarrow> ?thesis"
    by (simp add: shared_inv_parts channel_frames central_tx_inv_post)
next
  case (ApiSignalUnload)
  then show "shared_inv s \<Longrightarrow> ?thesis"
    by (simp add: shared_inv_def runtime_ble_signal_unload_def channel_inv_defs)
next
  case (ApiL2capDisconnect)
  then show "shared_inv s \<Longrightarrow> ?thesis"
    by (simp add: shared_inv_def runtime_ble_l2cap_disconnect_def channel_inv_defs)
qed (simp_all add: shared_inv_def channel_frames tx_api_defs tx_inv_queue_tx link_inv_post bond_inv_post
       l2cap_inv_send)

text \<open>No call withdraws an unload request.\<close>

lemma api_step_unload: "UNLOAD_REQ s \<Longrightarrow> UNLOAD_REQ (snd (api_step f c s))"
proof (cases c)
  case (ApiLink x)
  have "UNLOAD_REQ (link_store x s) = UNLOAD_REQ s" by (cases x) simp_all
  then show "UNLOAD_REQ s \<Longrightarrow> ?thesis" using ApiLink by (simp add: link_post_eq link_cmd_def)
next
  case (ApiBond x)
  then show "UNLOAD_REQ s \<Longrightarrow> ?thesis" by (cases x) (simp_all add: bond_post_cases bond_admin_cmd_def Let_def)
next
  case (ApiCentral x)
  have "UNLOAD_REQ (central_store x s) = UNLOAD_REQ s" by (cases x) (simp_all add: central_store_defs)
  then show "UNLOAD_REQ s \<Longrightarrow> ?thesis" using ApiCentral by (simp add: central_post_eq central_cmd_def)
qed (simp_all add: tx_api_defs queue_tx_def runtime_ble_l2cap_send_def runtime_ble_l2cap_disconnect_def
       runtime_ble_signal_unload_def split: option.split)

section \<open>Properties\<close>

text \<open>C8 (api_preserves_inv). Whatever calls an application makes, with whatever arguments
  and in whatever order, from the initial state on, the statics keep their invariant: the
  buffers keep their sizes, queued lengths fit their buffers, and every parameter word holds
  a value in the range that the runtime's narrowing conversions preserve. Starting a session
  keeps it too.\<close>

theorem api_preserves_inv:
  "shared_inv (api_run f calls shared_init)
   \<and> shared_inv (runtime_ble_run_reset (api_run f calls shared_init))"
proof -
  have "shared_inv s \<Longrightarrow> shared_inv (api_run f calls s)" for s
    by (induction calls arbitrary: s) (simp_all add: shared_inv_step)
  then have "shared_inv (api_run f calls shared_init)" using shared_inv_init by blast
  then show ?thesis by (simp add: runtime_ble_run_reset_def shared_inv_def channel_inv_defs)
qed

text \<open>C28 (api_invalid_is_effect_free). Every call returns \<open>RUNTIME_BLE_OK\<close>,
  \<open>RUNTIME_BLE_ERR_INVALID\<close> or \<open>RUNTIME_BLE_ERR_NO_MEM\<close>; a call refused as invalid has no
  effect at all, in any build.\<close>

theorem api_invalid_is_effect_free:
  "(fst (api_step f c s) = RUNTIME_BLE_OK \<or> fst (api_step f c s) = RUNTIME_BLE_ERR_INVALID
      \<or> fst (api_step f c s) = RUNTIME_BLE_ERR_NO_MEM)
   \<and> (fst (api_step f c s) = RUNTIME_BLE_ERR_INVALID \<longrightarrow> snd (api_step f c s) = s)"
proof -
  have q: "(r = RUNTIME_BLE_OK \<or> r = RUNTIME_BLE_ERR_INVALID \<or> r = RUNTIME_BLE_ERR_NO_MEM)
      \<and> (r = RUNTIME_BLE_ERR_INVALID \<longrightarrow> s' = s)" if "queue_tx a k d n s = (r, s')" for a k d n r s'
    using that by (auto simp: queue_tx_def result_codes split: option.splits if_splits)
  have l2: "(r = RUNTIME_BLE_OK \<or> r = RUNTIME_BLE_ERR_INVALID \<or> r = RUNTIME_BLE_ERR_NO_MEM)
      \<and> (r = RUNTIME_BLE_ERR_INVALID \<longrightarrow> s' = s)" if "runtime_ble_l2cap_send f d n s = (r, s')" for d n r s'
    using that by (auto simp: runtime_ble_l2cap_send_def result_codes split: option.splits if_splits)
  show ?thesis
  proof (cases c)
    case (ApiLink x)
    then show ?thesis by (auto simp: link_post_eq link_cmd_def result_codes)
  next
    case (ApiBond x)
    then show ?thesis
      by (cases x) (auto simp: bond_post_cases bond_admin_cmd_def result_codes Let_def)
  next
    case (ApiCentral x)
    then show ?thesis by (auto simp: central_post_eq central_cmd_def central_call_valid_def result_codes)
  next
    case ApiL2capDisconnect
    then show ?thesis by (simp add: runtime_ble_l2cap_disconnect_def result_codes)
  next
    case ApiSignalUnload
    then show ?thesis by (simp add: result_codes)
  qed (use q l2 in \<open>auto simp: tx_api_defs prod_eq_iff\<close>)
qed

text \<open>The theorem at a PHY the API does not know.\<close>

theorem api_invalid_is_effect_free_witness:
  "snd (api_step minimum_build (ApiLink (SetPhy 4)) shared_init) = shared_init"
proof -
  have "fst (api_step minimum_build (ApiLink (SetPhy 4)) shared_init) = RUNTIME_BLE_ERR_INVALID"
    by (simp add: runtime_ble_set_phy_def)
  then show ?thesis
    using api_invalid_is_effect_free[of minimum_build "ApiLink (SetPhy 4)" shared_init] by blast
qed

text \<open>C37 (dual_role_write_clobbers_notification). The client write shares the transmit buffer
  of the peripheral role: with both roles running, a notification accepted with
  \<open>RUNTIME_BLE_OK\<close> and still waiting is replaced, when a client write is accepted, by the
  bytes of that write, and they go out as the notification of the same characteristic.\<close>

theorem dual_role_write_clobbers_notification:
  assumes "tx_inv s" "\<not> SEND_REQ s" "CENTRAL_CMD s = CCMD_NONE" "f_central f"
    and "n \<noteq> 0" "n \<le> SEND_BUF_CAP" "k \<noteq> 0" "k \<le> SEND_BUF_CAP"
  shows "fst (runtime_ble_notify chr (Some m) n s) = RUNTIME_BLE_OK
     \<and> fst (runtime_ble_client_write f h (Some p) k (snd (runtime_ble_notify chr (Some m) n s))) = RUNTIME_BLE_OK
     \<and> fst (tx_fetch f (snd (runtime_ble_client_write f h (Some p) k (snd (runtime_ble_notify chr (Some m) n s)))))
         = Some (ucast chr, SEND_KIND_AUTO, take (VALUE_LEN f) (from_raw_parts p (unat k)))"
proof -
  let ?s1 = "snd (runtime_ble_notify chr (Some m) n s)"
  let ?s2 = "snd (runtime_ble_client_write f h (Some p) k ?s1)"
  have n: "\<not> n > SEND_BUF_CAP" "\<not> k > SEND_BUF_CAP" using assms by (simp_all add: not_less)
  have 1: "fst (runtime_ble_notify chr (Some m) n s) = RUNTIME_BLE_OK"
    using assms n by (auto simp: runtime_ble_notify_def queue_tx_def)
  have s1: "tx_inv ?s1" using tx_inv_queue_tx[OF assms(1)] by (simp add: runtime_ble_notify_def)
  have s1': "CENTRAL_CMD ?s1 = CCMD_NONE" "SEND_REQ ?s1" "SEND_CHR ?s1 = ucast chr"
    "SEND_KIND ?s1 = SEND_KIND_AUTO"
    using assms n by (auto simp: runtime_ble_notify_def queue_tx_def)
  have s2: "runtime_ble_client_write f h (Some p) k ?s1 = (RUNTIME_BLE_OK,
      ?s1\<lparr>SEND_BUF := blit (SEND_BUF ?s1) 0 (from_raw_parts p (unat k)), SEND_LEN := k,
          CENTRAL_HANDLE := ucast h, CENTRAL_CMD := CCMD_WRITE\<rparr>)"
    using s1' assms n by (auto simp: runtime_ble_client_write_def central_write_def central_cmd_def)
  have inv2: "tx_inv ?s2" using s1 s2 assms(8) unat_le_cap[OF assms(8)] by (simp add: tx_inv_def)
  have "fst (tx_fetch f ?s2) = tx_pending f ?s2" using txq.fetch_pending[OF inv2, of f] by simp
  then show ?thesis using 1 s1' s2 by (simp add: tx_pending_def)
qed

theorem dual_role_write_clobbers_notification_witness:
  "fst (tx_fetch full_build (snd (runtime_ble_client_write full_build 7 (Some (\<lambda>i. 0xBB)) 2
         (snd (runtime_ble_notify 3 (Some (\<lambda>i. 0xAA)) 3 shared_init)))))
     = Some (3, SEND_KIND_AUTO, [0xBB, 0xBB])"
  using dual_role_write_clobbers_notification[of shared_init full_build 3 2 3 "\<lambda>i. 0xAA" 7 "\<lambda>i. 0xBB"]
    shared_inv_init
  by (simp add: shared_inv_def shared_init_def full_build_def SEND_BUF_CAP_def VALUE_LEN_def
      from_raw_parts_def upt_rec)

text \<open>Result (reload_runs_stale_commands). Starting a session clears the transmit request and the
  unload request, and nothing else: a link, central or bond command that was accepted while
  no session could run it, or too late in the previous session, is still waiting when the
  next session starts, and is what its loops execute first.\<close>

theorem reload_runs_stale_commands:
  "tx_pending f (runtime_ble_run_reset s) = None \<and> \<not> UNLOAD_REQ (runtime_ble_run_reset s)
   \<and> link_pending (runtime_ble_run_reset s) = link_pending s
   \<and> central_pending (runtime_ble_run_reset s) = central_pending s
   \<and> bond_pending (runtime_ble_run_reset s) = bond_pending s"
  by (simp add: runtime_ble_run_reset_def tx_pending_def link_pending_def central_pending_def
      bond_pending_def bond_decode_def)

end
