(* ===== verification/AdvPayload.thy ===== *)
theory AdvPayload
  imports Codes
begin

text \<open>
  Advertising payloads of \<^verbatim>\<open>radio.rs\<close>: the two builders of advertising data, into a
  31-byte array for legacy advertising and into a bounded vector of 255 bytes for extended
  advertising, and the functions that choose between built and caller-supplied data.

  Both builders append advertising data (AD) structures, a length byte, a type byte and the
  data. What they share is the locale \<open>ad_sink\<close>: a buffer that takes a structure exactly
  when it still fits. The specification is the list of structures the configuration asks
  for, and the parser a scanner applies to the bytes.
\<close>

section \<open>Operations\<close>

definition LE_LIMITED_DISCOVERABLE :: u8 where "LE_LIMITED_DISCOVERABLE = 0x01"
definition EXT_ADV_DATA_MAX :: nat where "EXT_ADV_DATA_MAX = 255"

definition discoverability_flags :: "gap_consts \<Rightarrow> RuntimeCfg \<Rightarrow> u8" where
  "discoverability_flags gap cfg =
     (if cfg_discoverable cfg = 1 then LE_LIMITED_DISCOVERABLE OR BR_EDR_NOT_SUPPORTED gap
      else if cfg_discoverable cfg = 2 then BR_EDR_NOT_SUPPORTED gap
      else LE_GENERAL_DISCOVERABLE gap OR BR_EDR_NOT_SUPPORTED gap)"

text \<open>\<open>push_ad\<close> on the array and the position; \<open>None\<close> is \<^verbatim>\<open>false\<close>, which leaves both alone.\<close>

definition push_ad :: "u8 list \<times> nat \<Rightarrow> u8 \<Rightarrow> u8 list \<Rightarrow> (u8 list \<times> nat) option" where
  "push_ad s ty data =
     (let (dst, pos) = s; need = length data + 2
      in if pos + need > length dst \<or> length data > 254 then None
         else let dst = dst[pos := of_nat (length data + 1)];
                  dst = dst[pos + 1 := ty];
                  dst = blit dst (pos + 2) data
              in Some (dst, pos + need))"

text \<open>\<open>push_ad_ext\<close>; on failure every caller drops the vector.\<close>

definition push_ad_ext :: "u8 hvec \<Rightarrow> u8 list \<Rightarrow> u8 \<Rightarrow> u8 list \<Rightarrow> u8 list option" where
  "push_ad_ext hv dst ty data =
     (let need = length data + 2
      in if length data > 254 \<or> length dst + need > EXT_ADV_DATA_MAX then None
         else case hv_push hv dst (of_nat (length data + 1)) of
           None \<Rightarrow> None
         | Some d1 \<Rightarrow> (case hv_push hv d1 ty of
             None \<Rightarrow> None
           | Some d2 \<Rightarrow> hv_extend hv d2 data))"

definition manufacturer_slice :: "RuntimeCfg \<Rightarrow> u8 list" where
  "manufacturer_slice cfg =
     (case cfg_manufacturer_data cfg of
        Some m \<Rightarrow> if cfg_manufacturer_data_len cfg > 0
                  then from_raw_parts m (unat (cfg_manufacturer_data_len cfg)) else []
      | None \<Rightarrow> [])"

definition adv_uuid_ok :: "u8 ptr \<Rightarrow> u8 \<Rightarrow> bool" where
  "adv_uuid_ok p n \<longleftrightarrow> \<not> is_null p \<and> (n = 2 \<or> n = 16)"

definition adv_service_data_ok :: "RuntimeCfg \<Rightarrow> bool" where
  "adv_service_data_ok cfg \<longleftrightarrow>
     \<not> is_null (cfg_adv_service_data_uuid cfg) \<and> \<not> is_null (cfg_adv_service_data cfg)
     \<and> cfg_adv_service_data_len cfg > 0
     \<and> (cfg_adv_service_data_uuid_len cfg = 2 \<or> cfg_adv_service_data_uuid_len cfg = 16)"

definition adv_appearance_value :: "gap_consts \<Rightarrow> RuntimeCfg \<Rightarrow> u16" where
  "adv_appearance_value gap cfg =
     (if cfg_appearance cfg = 0 then GENERIC_POWER_DEVICE gap else cfg_appearance cfg)"

text \<open>The steps of \<open>build_adv_payload\<close>; an early \<^verbatim>\<open>return None\<close> is \<open>None\<close>.\<close>

definition push_manufacturer :: "RuntimeCfg \<Rightarrow> u8 list \<Rightarrow> u8 list \<times> nat \<Rightarrow> (u8 list \<times> nat) option" where
  "push_manufacturer cfg man s =
     (if cfg_manufacturer_id cfg \<noteq> 0 \<or> man \<noteq> []
      then let total = 2 + length man
           in if total > 29 then None
              else let buf = blit (replicate 29 0) 0 (u16_to_le_bytes (cfg_manufacturer_id cfg));
                       buf = blit buf 2 man
                   in push_ad s 0xff (take total buf)
      else Some s)"

definition push_service_data :: "RuntimeCfg \<Rightarrow> u8 list \<times> nat \<Rightarrow> (u8 list \<times> nat) option" where
  "push_service_data cfg s =
     (if adv_service_data_ok cfg
      then let uuid_len = unat (cfg_adv_service_data_uuid_len cfg);
               data_len = unat (cfg_adv_service_data_len cfg);
               total = uuid_len + data_len
           in if total > 29 then None
              else let buf = blit (replicate 29 0) 0 (slice_or_empty (cfg_adv_service_data_uuid cfg) uuid_len);
                       buf = blit buf uuid_len (slice_or_empty (cfg_adv_service_data cfg) data_len)
                   in push_ad s (if cfg_adv_service_data_uuid_len cfg = 2 then 0x16 else 0x21) (take total buf)
      else Some s)"

definition push_name :: "u8 list \<Rightarrow> u8 list \<times> nat \<Rightarrow> (u8 list \<times> nat) option" where
  "push_name name s =
     (case push_ad s 0x09 name of
        Some s' \<Rightarrow> Some s'
      | None \<Rightarrow>
          let avail = length (fst s) - snd s
          in if avail < 3 then None
             else let short_len = min (length name) (avail - 2)
                  in push_ad s 0x08 (take short_len name))"

definition build_adv_payload ::
  "gap_consts \<Rightarrow> RuntimeCfg \<Rightarrow> u8 \<Rightarrow> u8 list \<Rightarrow> u8 list \<Rightarrow> u8 list \<Rightarrow> (u8 list \<times> nat) option" where
  "build_adv_payload gap cfg flags man name dst =
     Option.bind (push_ad (dst, 0) 0x01 [flags]) (\<lambda>s.
     Option.bind (push_manufacturer cfg man s) (\<lambda>s.
     Option.bind (if adv_uuid_ok (cfg_adv_service_uuid cfg) (cfg_adv_service_uuid_len cfg)
                  then push_ad s (if cfg_adv_service_uuid_len cfg = 2 then 0x03 else 0x07)
                         (slice_or_empty (cfg_adv_service_uuid cfg) (unat (cfg_adv_service_uuid_len cfg)))
                  else Some s) (\<lambda>s.
     Option.bind (push_service_data cfg s) (\<lambda>s.
     Option.bind (if cfg_adv_appearance cfg \<noteq> 0
                  then push_ad s 0x19 (u16_to_le_bytes (adv_appearance_value gap cfg))
                  else Some s) (\<lambda>s.
     Option.bind (if cfg_adv_tx_power_present cfg \<noteq> 0
                  then push_ad s 0x0a [cfg_adv_tx_power_dbm cfg] else Some s) (\<lambda>s.
     push_name name s))))))"

text \<open>The same for \<open>build_adv_payload_ext\<close>, whose vectors do their own bounds checks.\<close>

definition push_manufacturer_ext :: "u8 hvec \<Rightarrow> RuntimeCfg \<Rightarrow> u8 list \<Rightarrow> u8 list \<Rightarrow> u8 list option" where
  "push_manufacturer_ext hv cfg man dst =
     (if cfg_manufacturer_id cfg \<noteq> 0 \<or> man \<noteq> []
      then Option.bind (hv_extend hv [] (u16_to_le_bytes (cfg_manufacturer_id cfg))) (\<lambda>m.
           Option.bind (hv_extend hv m man) (\<lambda>m.
           push_ad_ext hv dst 0xff m))
      else Some dst)"

definition push_service_data_ext :: "u8 hvec \<Rightarrow> RuntimeCfg \<Rightarrow> u8 list \<Rightarrow> u8 list option" where
  "push_service_data_ext hv cfg dst =
     (if adv_service_data_ok cfg
      then Option.bind (hv_extend hv [] (slice_or_empty (cfg_adv_service_data_uuid cfg)
                          (unat (cfg_adv_service_data_uuid_len cfg)))) (\<lambda>d.
           Option.bind (hv_extend hv d (slice_or_empty (cfg_adv_service_data cfg)
                          (unat (cfg_adv_service_data_len cfg)))) (\<lambda>d.
           push_ad_ext hv dst (if cfg_adv_service_data_uuid_len cfg = 2 then 0x16 else 0x21) d))
      else Some dst)"

definition build_adv_payload_ext ::
  "gap_consts \<Rightarrow> u8 hvec \<Rightarrow> RuntimeCfg \<Rightarrow> u8 \<Rightarrow> u8 list \<Rightarrow> u8 list \<Rightarrow> u8 list \<Rightarrow> u8 list option" where
  "build_adv_payload_ext gap hv cfg flags man name dst =
     Option.bind (push_ad_ext hv dst 0x01 [flags]) (\<lambda>s.
     Option.bind (push_manufacturer_ext hv cfg man s) (\<lambda>s.
     Option.bind (if adv_uuid_ok (cfg_adv_service_uuid cfg) (cfg_adv_service_uuid_len cfg)
                  then push_ad_ext hv s (if cfg_adv_service_uuid_len cfg = 2 then 0x03 else 0x07)
                         (slice_or_empty (cfg_adv_service_uuid cfg) (unat (cfg_adv_service_uuid_len cfg)))
                  else Some s) (\<lambda>s.
     Option.bind (push_service_data_ext hv cfg s) (\<lambda>s.
     Option.bind (if cfg_adv_appearance cfg \<noteq> 0
                  then push_ad_ext hv s 0x19 (u16_to_le_bytes (adv_appearance_value gap cfg))
                  else Some s) (\<lambda>s.
     Option.bind (if cfg_adv_tx_power_present cfg \<noteq> 0
                  then push_ad_ext hv s 0x0a [cfg_adv_tx_power_dbm cfg] else Some s) (\<lambda>s.
     if name \<noteq> [] then push_ad_ext hv s 0x09 name else Some s))))))"

definition advertising_payload ::
  "gap_consts \<Rightarrow> RuntimeCfg \<Rightarrow> u8 \<Rightarrow> u8 list \<Rightarrow> u8 list \<Rightarrow> (u8 list \<times> nat) option" where
  "advertising_payload gap cfg flags man name =
     (let adv = replicate 31 0
      in if \<not> is_null (cfg_adv_data cfg) \<and> cfg_adv_data_len cfg > 0
         then let len = unat (cfg_adv_data_len cfg)
              in if len > length adv then None
                 else Some (blit adv 0 (slice_or_empty (cfg_adv_data cfg) len), len)
         else build_adv_payload gap cfg flags man name adv)"

definition advertising_payload_ext ::
  "gap_consts \<Rightarrow> u8 hvec \<Rightarrow> RuntimeCfg \<Rightarrow> u8 \<Rightarrow> u8 list \<Rightarrow> u8 list \<Rightarrow> u8 list option" where
  "advertising_payload_ext gap hv cfg flags man name =
     (if \<not> is_null (cfg_adv_data cfg) \<and> cfg_adv_data_len cfg > 0
      then hv_extend hv [] (slice_or_empty (cfg_adv_data cfg) (unat (cfg_adv_data_len cfg)))
      else build_adv_payload_ext gap hv cfg flags man name [])"

text \<open>The advertising data and the scan response of \<open>advertising_parts\<close> and
  \<open>advertising_parts_ext\<close>; \<open>None\<close> is \<^verbatim>\<open>InvalidValue\<close>. Their third part is
  \<open>advertising_params\<close>.\<close>

definition legacy_scan_data :: "RuntimeCfg \<Rightarrow> u8 list" where
  "legacy_scan_data cfg =
     (if \<not> is_null (cfg_scan_response_data cfg) \<and> cfg_scan_response_data_len cfg > 0
      then slice_or_empty (cfg_scan_response_data cfg) (unat (min (cfg_scan_response_data_len cfg) 31))
      else [])"

definition advertising_parts :: "gap_consts \<Rightarrow> RuntimeCfg \<Rightarrow> (u8 list \<times> nat \<times> u8 list) option" where
  "advertising_parts gap cfg =
     (let name = device_name cfg;
          flags = discoverability_flags gap cfg;
          man = manufacturer_slice cfg
      in case advertising_payload gap cfg flags man name of
           None \<Rightarrow> None
         | Some (adv, adv_len) \<Rightarrow> Some (adv, adv_len, legacy_scan_data cfg))"

definition advertising_parts_ext :: "gap_consts \<Rightarrow> u8 hvec \<Rightarrow> RuntimeCfg \<Rightarrow> (u8 list \<times> u8 list) option" where
  "advertising_parts_ext gap hv cfg =
     (let name = device_name cfg;
          flags = discoverability_flags gap cfg;
          man = manufacturer_slice cfg
      in case advertising_payload_ext gap hv cfg flags man name of
           None \<Rightarrow> None
         | Some adv \<Rightarrow>
             if \<not> is_null (cfg_scan_response_data cfg) \<and> cfg_scan_response_data_len cfg > 0
             then case hv_extend hv [] (slice_or_empty (cfg_scan_response_data cfg)
                          (unat (cfg_scan_response_data_len cfg))) of
                    None \<Rightarrow> None
                  | Some scan_data \<Rightarrow> Some (adv, scan_data)
             else Some (adv, []))"

lemma unat_of_nat_u8: "k < 256 \<Longrightarrow> unat (of_nat k :: u8) = k"
  by (simp add: unat_of_nat)

section \<open>Specification\<close>

type_synonym ad = "u8 \<times> u8 list"

definition encode_ad :: "ad \<Rightarrow> u8 list" where
  "encode_ad a = of_nat (length (snd a) + 1) # fst a # snd a"

definition encode_ads :: "ad list \<Rightarrow> u8 list" where
  "encode_ads as = concat (map encode_ad as)"

text \<open>The parser of the Bluetooth Core specification: a zero length byte ends the data
  early, and a structure that runs past the end is an error.\<close>

function parse_ads :: "u8 list \<Rightarrow> ad list option" where
  "parse_ads [] = Some []"
| "parse_ads (n # bs) =
     (if n = 0 then Some []
      else if length bs < unat n then None
      else map_option (\<lambda>rest. (hd bs, take (unat n - 1) (tl bs)) # rest) (parse_ads (drop (unat n) bs)))"
  by pat_completeness auto
termination by (relation "measure length") auto

text \<open>The structures a configuration asks for, before the name.\<close>

definition adv_fields :: "gap_consts \<Rightarrow> RuntimeCfg \<Rightarrow> u8 \<Rightarrow> u8 list \<Rightarrow> ad list" where
  "adv_fields gap cfg flags man =
     [(0x01, [flags])]
     @ (if cfg_manufacturer_id cfg \<noteq> 0 \<or> man \<noteq> []
        then [(0xff, u16_to_le_bytes (cfg_manufacturer_id cfg) @ man)] else [])
     @ (if adv_uuid_ok (cfg_adv_service_uuid cfg) (cfg_adv_service_uuid_len cfg)
        then [(if cfg_adv_service_uuid_len cfg = 2 then 0x03 else 0x07,
               slice_or_empty (cfg_adv_service_uuid cfg) (unat (cfg_adv_service_uuid_len cfg)))] else [])
     @ (if adv_service_data_ok cfg
        then [(if cfg_adv_service_data_uuid_len cfg = 2 then 0x16 else 0x21,
               slice_or_empty (cfg_adv_service_data_uuid cfg) (unat (cfg_adv_service_data_uuid_len cfg))
               @ slice_or_empty (cfg_adv_service_data cfg) (unat (cfg_adv_service_data_len cfg)))] else [])
     @ (if cfg_adv_appearance cfg \<noteq> 0
        then [(0x19, u16_to_le_bytes (adv_appearance_value gap cfg))] else [])
     @ (if cfg_adv_tx_power_present cfg \<noteq> 0 then [(0x0a, [cfg_adv_tx_power_dbm cfg])] else [])"

lemma encode_ads_simps [simp]:
  "encode_ads [] = []" "encode_ads (a # as) = encode_ad a @ encode_ads as"
  "encode_ads (as @ bs) = encode_ads as @ encode_ads bs"
  by (simp_all add: encode_ads_def)

lemma length_encode_ad [simp]: "length (encode_ad a) = length (snd a) + 2"
  by (simp add: encode_ad_def)

lemma parse_encode_ads:
  "\<forall>a \<in> set as. length (snd a) \<le> 254 \<Longrightarrow> parse_ads (encode_ads as) = Some as"
proof (induction as)
  case (Cons a as)
  then have n: "unat (of_nat (length (snd a) + 1) :: u8) = length (snd a) + 1"
    by (intro unat_of_nat_u8) simp
  then have "(of_nat (length (snd a) + 1) :: u8) \<noteq> 0" by auto
  then show ?case using Cons n by (simp add: encode_ad_def del: of_nat_add of_nat_Suc)
qed simp

lemma encode_ads_short: "length (encode_ads as) \<le> n \<Longrightarrow> a \<in> set as \<Longrightarrow> length (snd a) + 2 \<le> n"
proof (induction as)
  case (Cons x xs)
  then show ?case by (cases "a = x") auto
qed simp

section \<open>A buffer for structures\<close>

primrec push_all :: "('s \<Rightarrow> u8 \<Rightarrow> u8 list \<Rightarrow> 's option) \<Rightarrow> ad list \<Rightarrow> 's \<Rightarrow> 's option" where
  "push_all push [] s = Some s"
| "push_all push (a # as) s =
     Option.bind (push s (fst a) (snd a)) (push_all push as)"

lemma push_all_append:
  "push_all push (as @ bs) s = Option.bind (push_all push as s) (push_all push bs)"
  by (induction as arbitrary: s) (simp_all add: Option.bind_assoc cong: Option.bind_cong)

locale ad_sink =
  fixes inv :: "'s \<Rightarrow> bool"
    and contents :: "'s \<Rightarrow> u8 list"
    and cap :: nat
    and push :: "'s \<Rightarrow> u8 \<Rightarrow> u8 list \<Rightarrow> 's option"
  assumes push_fits: "inv s \<Longrightarrow> length (contents s) + length d + 2 \<le> cap \<Longrightarrow>
      \<exists>s'. push s ty d = Some s' \<and> inv s' \<and> contents s' = contents s @ encode_ad (ty, d)"
    and push_full: "inv s \<Longrightarrow> length (contents s) + length d + 2 > cap \<Longrightarrow> push s ty d = None"
begin

lemma push_all_fits:
  assumes "inv s" "length (contents s) + length (encode_ads as) \<le> cap"
  shows "\<exists>s'. push_all push as s = Some s' \<and> inv s' \<and> contents s' = contents s @ encode_ads as"
  using assms
proof (induction as arbitrary: s)
  case (Cons a as)
  obtain s1 where s1: "push s (fst a) (snd a) = Some s1" "inv s1" "contents s1 = contents s @ encode_ad a"
    using push_fits[of s "snd a" "fst a"] Cons.prems by auto
  then show ?case using Cons.IH[of s1] Cons.prems by auto
qed simp

lemma push_all_full:
  assumes "inv s" "length (contents s) \<le> cap" "length (contents s) + length (encode_ads as) > cap"
  shows "push_all push as s = None"
  using assms
proof (induction as arbitrary: s)
  case (Cons a as)
  show ?case
  proof (cases "length (contents s) + length (snd a) + 2 \<le> cap")
    case True
    then obtain s1 where s1: "push s (fst a) (snd a) = Some s1" "inv s1" "contents s1 = contents s @ encode_ad a"
      using push_fits[of s "snd a" "fst a"] Cons.prems by auto
    then show ?thesis using Cons.IH[of s1] Cons.prems True by auto
  next
    case False
    then show ?thesis using push_full[of s "snd a" "fst a"] Cons.prems by simp
  qed
qed simp

lemma push_all_iff:
  assumes "inv s" "length (contents s) \<le> cap"
  shows "(\<exists>s'. push_all push as s = Some s') \<longleftrightarrow> length (contents s) + length (encode_ads as) \<le> cap"
proof (cases "length (contents s) + length (encode_ads as) \<le> cap")
  case True
  then show ?thesis using push_all_fits[OF assms(1)] by blast
next
  case False
  then show ?thesis using push_all_full[OF assms, of as] by simp
qed

end

text \<open>The legacy array and the extended vector are such buffers.\<close>

definition legacy_inv :: "u8 list \<times> nat \<Rightarrow> bool" where
  "legacy_inv s \<longleftrightarrow> length (fst s) = 31 \<and> snd s \<le> 31"

definition legacy_contents :: "u8 list \<times> nat \<Rightarrow> u8 list" where
  "legacy_contents s = take (snd s) (fst s)"

lemma push_ad_eq:
  "push_ad (dst, pos) ty d =
     (if pos + length d + 2 > length dst \<or> length d > 254 then None
      else Some (blit dst pos (encode_ad (ty, d)), pos + length d + 2))"
proof -
  have "blit (dst[pos := x, Suc pos := ty]) (Suc (Suc pos)) d = blit dst pos (x # ty # d)"
    if "pos + length d + 2 \<le> length dst" for x
  proof (rule nth_equalityI)
    show "length (blit (dst[pos := x, Suc pos := ty]) (Suc (Suc pos)) d) = length (blit dst pos (x # ty # d))"
      using that by (simp add: blit_def)
  next
    fix i assume "i < length (blit (dst[pos := x, Suc pos := ty]) (Suc (Suc pos)) d)"
    then show "blit (dst[pos := x, Suc pos := ty]) (Suc (Suc pos)) d ! i = blit dst pos (x # ty # d) ! i"
      using that by (auto simp: blit_def nth_append nth_Cons' nth_list_update)
  qed
  then show ?thesis by (auto simp: push_ad_def encode_ad_def Let_def)
qed

interpretation legacy: ad_sink legacy_inv legacy_contents 31 push_ad
proof unfold_locales
  fix s :: "u8 list \<times> nat" and d ty
  assume inv: "legacy_inv s"
  obtain dst pos where s: "s = (dst, pos)" by (cases s)
  then have l: "length dst = 31" "pos \<le> 31" using inv by (simp_all add: legacy_inv_def)
  show "\<exists>s'. push_ad s ty d = Some s' \<and> legacy_inv s' \<and> legacy_contents s' = legacy_contents s @ encode_ad (ty, d)"
    if "length (legacy_contents s) + length d + 2 \<le> 31"
    using that l s take_blit_end[of pos dst "pos + length d + 2" "encode_ad (ty, d)"]
    by (simp add: push_ad_eq legacy_inv_def legacy_contents_def)
  show "push_ad s ty d = None" if "length (legacy_contents s) + length d + 2 > 31"
    using that l s by (simp add: push_ad_eq legacy_contents_def)
qed

definition ext_inv :: "u8 hvec \<Rightarrow> u8 list \<Rightarrow> bool" where
  "ext_inv hv s \<longleftrightarrow> hvec_ok EXT_ADV_DATA_MAX hv"

interpretation extended: ad_sink "ext_inv hv" "\<lambda>s. s" EXT_ADV_DATA_MAX "push_ad_ext hv"
proof unfold_locales
  fix s :: "u8 list" and d ty
  assume "ext_inv hv s"
  then have hv: "hvec_ok EXT_ADV_DATA_MAX hv" by (simp add: ext_inv_def)
  show "\<exists>s'. push_ad_ext hv s ty d = Some s' \<and> ext_inv hv s' \<and> s' = s @ encode_ad (ty, d)"
    if "length s + length d + 2 \<le> EXT_ADV_DATA_MAX"
    using that hv
    by (simp add: push_ad_ext_def hv_push[OF hv] hv_extend[OF hv] ext_inv_def encode_ad_def EXT_ADV_DATA_MAX_def)
  show "push_ad_ext hv s ty d = None" if "length s + length d + 2 > EXT_ADV_DATA_MAX"
    using that by (simp add: push_ad_ext_def)
qed

section \<open>The builders append the fields\<close>

lemma push_all_one [simp]: "push_all push [(ty, d)] s = push s ty d"
  by (cases "push s ty d") simp_all

lemma push_all_opt:
  "push_all push (if c then [(ty, d)] else []) s = (if c then push s ty d else Some s)"
  by (cases c) (simp_all del: push_all.simps(2))

lemma push_ad_length: "push_ad s ty d = Some s' \<Longrightarrow> length (fst s') = length (fst s)"
  by (cases s) (auto simp: push_ad_def Let_def split: if_splits)

lemma push_ad_opt_length:
  "(if c then push_ad s ty d else Some s) = Some s' \<Longrightarrow> length (fst s') = length (fst s)"
  by (auto dest: push_ad_length split: if_splits)

lemma joined_buffer:
  assumes "length a + length b \<le> n"
  shows "take (length a + length b) (blit (blit (replicate n 0) 0 a) (length a) b) = a @ b"
  using assms take_blit_end[of "length a" "blit (replicate n 0) 0 a" "length a + length b" b] by simp

lemma push_ad_joined:
  assumes "length (fst s) = 31" "m = length a" "n = length b"
  shows "(if m + n > 29 then None
          else push_ad s ty (take (m + n) (blit (blit (replicate 29 0) 0 a) m b))) = push_ad s ty (a @ b)"
proof (cases "length a + length b > 29")
  case True
  then show ?thesis using assms by (cases s) (simp add: push_ad_def)
next
  case False
  then show ?thesis using joined_buffer[of a b 29] assms(2,3) by simp
qed

lemma length_slice_or_empty [simp]: "length (slice_or_empty (Some m) n) = n"
  by (simp add: slice_or_empty_def)

lemma push_manufacturer_eq:
  assumes "length (fst s) = 31"
  shows "push_manufacturer cfg man s =
    (if cfg_manufacturer_id cfg \<noteq> 0 \<or> man \<noteq> []
     then push_ad s 0xff (u16_to_le_bytes (cfg_manufacturer_id cfg) @ man) else Some s)"
  unfolding push_manufacturer_def Let_def
  by (subst push_ad_joined[OF assms]) simp_all

lemma push_service_data_eq:
  assumes "length (fst s) = 31"
  shows "push_service_data cfg s =
    (if adv_service_data_ok cfg
     then push_ad s (if cfg_adv_service_data_uuid_len cfg = 2 then 0x16 else 0x21)
            (slice_or_empty (cfg_adv_service_data_uuid cfg) (unat (cfg_adv_service_data_uuid_len cfg))
             @ slice_or_empty (cfg_adv_service_data cfg) (unat (cfg_adv_service_data_len cfg)))
     else Some s)"
proof (cases "adv_service_data_ok cfg")
  case True
  then obtain p q where "cfg_adv_service_data_uuid cfg = Some p" "cfg_adv_service_data cfg = Some q"
    by (auto simp: adv_service_data_ok_def is_null_def)
  then show ?thesis
    unfolding push_service_data_def Let_def by (subst push_ad_joined[OF assms]) simp_all
qed (simp add: push_service_data_def)

lemma build_adv_payload_eq:
  assumes "length dst = 31"
  shows "build_adv_payload gap cfg flags man name dst =
     Option.bind (push_all push_ad (adv_fields gap cfg flags man) (dst, 0)) (push_name name)"
  unfolding build_adv_payload_def adv_fields_def push_all_append push_all_opt push_all_one Option.bind_assoc
proof (intro Option.bind_cong refl)
  fix s0 assume "push_ad (dst, 0) 0x01 [flags] = Some s0"
  then have "length (fst s0) = 31" using push_ad_length assms by fastforce
  then show "push_manufacturer cfg man s0 =
     (if cfg_manufacturer_id cfg \<noteq> 0 \<or> man \<noteq> []
      then push_ad s0 0xff (u16_to_le_bytes (cfg_manufacturer_id cfg) @ man) else Some s0)"
    by (rule push_manufacturer_eq)
  fix s1 s2
  assume s1: "(if cfg_manufacturer_id cfg \<noteq> 0 \<or> man \<noteq> []
      then push_ad s0 0xff (u16_to_le_bytes (cfg_manufacturer_id cfg) @ man) else Some s0) = Some s1"
    and s2: "(if adv_uuid_ok (cfg_adv_service_uuid cfg) (cfg_adv_service_uuid_len cfg)
        then push_ad s1 (if cfg_adv_service_uuid_len cfg = 2 then 0x03 else 0x07)
               (slice_or_empty (cfg_adv_service_uuid cfg) (unat (cfg_adv_service_uuid_len cfg))) else Some s1) = Some s2"
  have "length (fst s2) = 31"
    using push_ad_opt_length[OF s1] push_ad_opt_length[OF s2] \<open>length (fst s0) = 31\<close> by simp
  then show "push_service_data cfg s2 =
    (if adv_service_data_ok cfg
     then push_ad s2 (if cfg_adv_service_data_uuid_len cfg = 2 then 0x16 else 0x21)
            (slice_or_empty (cfg_adv_service_data_uuid cfg) (unat (cfg_adv_service_data_uuid_len cfg))
             @ slice_or_empty (cfg_adv_service_data cfg) (unat (cfg_adv_service_data_len cfg)))
     else Some s2)"
    by (rule push_service_data_eq)
qed

lemma push_joined_ext:
  assumes "hvec_ok EXT_ADV_DATA_MAX hv"
  shows "Option.bind (hv_extend hv [] a) (\<lambda>m. Option.bind (hv_extend hv m b) (\<lambda>m. push_ad_ext hv s ty m))
       = push_ad_ext hv s ty (a @ b)"
proof -
  have "push_ad_ext hv s ty (a @ b) = None" if "length a + length b > EXT_ADV_DATA_MAX"
    using that by (simp add: push_ad_ext_def EXT_ADV_DATA_MAX_def)
  then show ?thesis by (auto simp: hv_extend[OF assms])
qed

lemma build_adv_payload_ext_eq:
  assumes "hvec_ok EXT_ADV_DATA_MAX hv"
  shows "build_adv_payload_ext gap hv cfg flags man name dst =
     push_all (push_ad_ext hv) (adv_fields gap cfg flags man @ (if name \<noteq> [] then [(0x09, name)] else [])) dst"
  unfolding build_adv_payload_ext_def adv_fields_def push_all_append push_all_opt push_all_one Option.bind_assoc
    push_manufacturer_ext_def push_service_data_ext_def push_joined_ext[OF assms] ..

section \<open>Exact results\<close>

text \<open>The payload is built, not supplied by the caller.\<close>

definition adv_built :: "RuntimeCfg \<Rightarrow> bool" where
  "adv_built cfg \<longleftrightarrow> is_null (cfg_adv_data cfg) \<or> cfg_adv_data_len cfg = 0"

definition fields_len :: "gap_consts \<Rightarrow> RuntimeCfg \<Rightarrow> u8 \<Rightarrow> u8 list \<Rightarrow> nat" where
  "fields_len gap cfg flags man = length (encode_ads (adv_fields gap cfg flags man))"

text \<open>The name structure of the legacy payload, given the length of what precedes it.\<close>

definition legacy_name_ad :: "nat \<Rightarrow> u8 list \<Rightarrow> ad" where
  "legacy_name_ad n name = (if n + length name + 2 \<le> 31 then (0x09, name) else (0x08, take (29 - n) name))"

lemma push_name_eq:
  assumes "legacy_inv s" "n = length (legacy_contents s)"
  shows "n + length name + 2 \<le> 31 \<or> n \<le> 28 \<Longrightarrow>
      \<exists>s'. push_name name s = Some s' \<and> legacy_inv s' \<and>
        legacy_contents s' = legacy_contents s @ encode_ad (legacy_name_ad n name)"
    and "\<not> (n + length name + 2 \<le> 31 \<or> n \<le> 28) \<Longrightarrow> push_name name s = None"
proof -
  have pos: "snd s = n" "length (fst s) = 31" "n \<le> 31"
    using assms by (auto simp: legacy_inv_def legacy_contents_def)
  show "\<exists>s'. push_name name s = Some s' \<and> legacy_inv s' \<and>
        legacy_contents s' = legacy_contents s @ encode_ad (legacy_name_ad n name)"
    if "n + length name + 2 \<le> 31 \<or> n \<le> 28"
  proof (cases "n + length name + 2 \<le> 31")
    case True
    then show ?thesis
      using legacy.push_fits[OF assms(1), of name "0x09"] assms(2)
      by (auto simp: push_name_def legacy_name_ad_def)
  next
    case False
    then have "push_ad s 0x09 name = None" "min (length name) (31 - n - 2) = 29 - n" "n \<le> 28"
      using legacy.push_full[OF assms(1), of name "0x09"] assms(2) that by auto
    then show ?thesis
      using legacy.push_fits[OF assms(1), of "take (29 - n) name" "0x08"] assms(2) False pos
      by (auto simp: push_name_def legacy_name_ad_def Let_def)
  qed
  show "push_name name s = None" if c: "\<not> (n + length name + 2 \<le> 31 \<or> n \<le> 28)"
  proof -
    have "push_ad s 0x09 name = None" "length (fst s) - snd s < 3"
      using c legacy.push_full[OF assms(1), of name "0x09"] assms(2) pos by auto
    then show ?thesis by (simp add: push_name_def Let_def)
  qed
qed

lemma legacy_start: "legacy_inv (replicate 31 0, 0)" "legacy_contents (replicate 31 0, 0) = []"
  by (simp_all add: legacy_inv_def legacy_contents_def)

lemma legacy_built_cases:
  fixes gap cfg flags man name
  defines "L \<equiv> fields_len gap cfg flags man"
  assumes "adv_built cfg"
  shows "L + length name + 2 \<le> 31 \<or> L \<le> 28 \<Longrightarrow>
      \<exists>adv n. advertising_payload gap cfg flags man name = Some (adv, n) \<and> length adv = 31 \<and> n \<le> 31 \<and>
        take n adv = encode_ads (adv_fields gap cfg flags man @ [legacy_name_ad L name])"
    and "\<not> (L + length name + 2 \<le> 31 \<or> L \<le> 28) \<Longrightarrow> advertising_payload gap cfg flags man name = None"
proof -
  let ?fs = "adv_fields gap cfg flags man"
  have p: "advertising_payload gap cfg flags man name =
      Option.bind (push_all push_ad ?fs (replicate 31 0, 0)) (push_name name)"
    using assms(2) by (auto simp: advertising_payload_def adv_built_def build_adv_payload_eq)
  have fits: "\<exists>s. push_all push_ad ?fs (replicate 31 0, 0) = Some s \<and> legacy_inv s \<and> legacy_contents s = encode_ads ?fs"
    if "L \<le> 31"
    using legacy.push_all_fits[OF legacy_start(1), of ?fs] that by (simp add: L_def fields_len_def legacy_start(2))
  show "\<exists>adv n. advertising_payload gap cfg flags man name = Some (adv, n) \<and> length adv = 31 \<and> n \<le> 31 \<and>
        take n adv = encode_ads (?fs @ [legacy_name_ad L name])"
    if c: "L + length name + 2 \<le> 31 \<or> L \<le> 28"
  proof -
    obtain s where s: "push_all push_ad ?fs (replicate 31 0, 0) = Some s" "legacy_inv s" "legacy_contents s = encode_ads ?fs"
      using fits c by auto
    then have "L = length (legacy_contents s)" by (simp add: L_def fields_len_def)
    then obtain s' where "push_name name s = Some s'" "legacy_inv s'"
        "legacy_contents s' = legacy_contents s @ encode_ad (legacy_name_ad L name)"
      using push_name_eq(1)[OF s(2) _ c] by blast
    then show ?thesis using p s by (cases s') (auto simp: legacy_inv_def legacy_contents_def)
  qed
  show "advertising_payload gap cfg flags man name = None" if c: "\<not> (L + length name + 2 \<le> 31 \<or> L \<le> 28)"
  proof (cases "L \<le> 31")
    case True
    then obtain s where s: "push_all push_ad ?fs (replicate 31 0, 0) = Some s" "legacy_inv s" "legacy_contents s = encode_ads ?fs"
      using fits by auto
    then have "L = length (legacy_contents s)" by (simp add: L_def fields_len_def)
    then show ?thesis using p s push_name_eq(2)[OF s(2) _ c] by simp
  next
    case False
    then have "push_all push_ad ?fs (replicate 31 0, 0) = None"
      by (intro legacy.push_all_full[OF legacy_start(1)]) (simp_all add: legacy_start(2) L_def fields_len_def)
    then show ?thesis using p by simp
  qed
qed

lemma ext_built_cases:
  fixes gap cfg flags man name
  defines "fs \<equiv> adv_fields gap cfg flags man @ (if name \<noteq> [] then [(0x09, name)] else [])"
  assumes "adv_built cfg" "hvec_ok EXT_ADV_DATA_MAX hv"
  shows "advertising_payload_ext gap hv cfg flags man name =
     (if length (encode_ads fs) \<le> 255 then Some (encode_ads fs) else None)"
proof -
  have p: "advertising_payload_ext gap hv cfg flags man name = push_all (push_ad_ext hv) fs []"
    using assms(2) by (auto simp: advertising_payload_ext_def adv_built_def build_adv_payload_ext_eq[OF assms(3)] fs_def)
  have inv: "ext_inv hv []" using assms(3) by (simp add: ext_inv_def)
  show ?thesis
    using extended.push_all_fits[OF inv, of fs] extended.push_all_full[OF inv, of fs] p
    by (auto simp: EXT_ADV_DATA_MAX_def)
qed

section \<open>Properties\<close>

text \<open>C19 (legacy_payload_parses). What legacy advertising sends is well formed and says what was
  configured: whenever a payload is built, it fits the 31 bytes, and a scanner that parses it
  gets exactly the configured structures, in order, followed by the complete name if it
  fits and otherwise by its longest prefix that does, marked as shortened.\<close>

theorem legacy_payload_parses:
  assumes "adv_built cfg" "advertising_payload gap cfg flags man name = Some (adv, n)"
  shows "length adv = 31 \<and> n \<le> 31
     \<and> parse_ads (take n adv) =
         Some (adv_fields gap cfg flags man @ [legacy_name_ad (fields_len gap cfg flags man) name])"
proof -
  let ?L = "fields_len gap cfg flags man"
  let ?fs = "adv_fields gap cfg flags man @ [legacy_name_ad ?L name]"
  have "?L + length name + 2 \<le> 31 \<or> ?L \<le> 28"
    using legacy_built_cases(2)[OF assms(1)] assms(2) by force
  then have r: "length adv = 31" "n \<le> 31" "take n adv = encode_ads ?fs"
    using legacy_built_cases(1)[OF assms(1), of gap flags man name] assms(2) by auto
  then have "length (encode_ads ?fs) \<le> 31" by (metis length_take min.bounded_iff nle_le)
  then have "\<forall>a \<in> set ?fs. length (snd a) \<le> 254" using encode_ads_short by fastforce
  then have "parse_ads (encode_ads ?fs) = Some ?fs" by (rule parse_encode_ads)
  then show ?thesis using r by simp
qed

definition adv_demo_cfg :: RuntimeCfg where
  "adv_demo_cfg = (flatten_config zero_config)\<lparr>cfg_manufacturer_id := 0x0059, cfg_adv_tx_power_present := 1\<rparr>"

theorem legacy_payload_parses_witness:
  "\<exists>adv n. advertising_payload gap_std adv_demo_cfg 6 [1, 2] (replicate 20 65) = Some (adv, n)
     \<and> parse_ads (take n adv) = Some [(0x01, [6]), (0xff, [0x59, 0, 1, 2]), (0x0a, [0]), (0x08, replicate 17 65)]"
proof -
  have b: "adv_built adv_demo_cfg"
    by (simp add: adv_built_def adv_demo_cfg_def flatten_config_def zero_config_def)
  have f: "adv_fields gap_std adv_demo_cfg 6 [1, 2] = [(0x01, [6]), (0xff, [0x59, 0, 1, 2]), (0x0a, [0])]"
    by (simp add: adv_fields_def adv_demo_cfg_def flatten_config_def zero_config_def adv_uuid_ok_def
        adv_service_data_ok_def u16_to_le_bytes_def le_bytes_def upt_rec)
  then have L: "fields_len gap_std adv_demo_cfg 6 [1, 2] = 12"
    by (simp add: fields_len_def encode_ads_def encode_ad_def)
  then obtain adv n where r: "advertising_payload gap_std adv_demo_cfg 6 [1, 2] (replicate 20 65) = Some (adv, n)"
    using legacy_built_cases(1)[OF b, of gap_std 6 "[1, 2]" "replicate 20 65"] by auto
  from legacy_payload_parses[OF b r] show ?thesis
    using r f L by (simp add: legacy_name_ad_def)
qed

text \<open>Result (legacy_payload_fails_iff). Legacy advertising can be built exactly when the caller's
  payload has at most 31 bytes, or the configured structures leave room for the complete
  name or for at least one byte of it.\<close>

theorem legacy_payload_fails_iff:
  "advertising_payload gap cfg flags man name = None \<longleftrightarrow>
     (if adv_built cfg
      then fields_len gap cfg flags man + length name > 29 \<and> fields_len gap cfg flags man > 28
      else cfg_adv_data_len cfg > 31)"
proof (cases "adv_built cfg")
  case True
  show ?thesis
  proof (cases "fields_len gap cfg flags man + length name + 2 \<le> 31 \<or> fields_len gap cfg flags man \<le> 28")
    case fits: True
    then obtain r where "advertising_payload gap cfg flags man name = Some r"
      using legacy_built_cases(1)[OF True fits] by blast
    then show ?thesis using True fits by auto
  next
    case full: False
    then show ?thesis using legacy_built_cases(2)[OF True full] True by auto
  qed
next
  case False
  then have "advertising_payload gap cfg flags man name = None \<longleftrightarrow> unat (cfg_adv_data_len cfg) > 31"
    by (simp add: advertising_payload_def adv_built_def Let_def word_gt_0)
  then show ?thesis using False by (simp add: word_less_nat_alt)
qed

text \<open>Result (ext_payload_exact). The extended payload is built exactly when the configured
  structures and the name fit 255 bytes; it then is their encoding, nothing is shortened, and
  a scanner parses back exactly those structures.\<close>

theorem ext_payload_exact:
  assumes "adv_built cfg" "hvec_ok EXT_ADV_DATA_MAX hv"
    and "fs = adv_fields gap cfg flags man @ (if name \<noteq> [] then [(0x09, name)] else [])"
  shows "(advertising_payload_ext gap hv cfg flags man name = None \<longleftrightarrow> length (encode_ads fs) > 255)
     \<and> (\<forall>adv. advertising_payload_ext gap hv cfg flags man name = Some adv \<longrightarrow>
          length adv \<le> 255 \<and> parse_ads adv = Some fs)"
proof -
  have "parse_ads (encode_ads fs) = Some fs" if "length (encode_ads fs) \<le> 255"
  proof (rule parse_encode_ads)
    show "\<forall>a \<in> set fs. length (snd a) \<le> 254" using encode_ads_short[OF that] by fastforce
  qed
  then show ?thesis using ext_built_cases[OF assms(1,2), of gap flags man name] assms(3) by auto
qed

theorem ext_payload_exact_witness:
  "\<exists>adv. advertising_payload_ext gap_std (hvec_std 255) adv_demo_cfg 6 [] [65, 66] = Some adv
     \<and> parse_ads adv = Some [(0x01, [6]), (0xff, [0x59, 0]), (0x0a, [0]), (0x09, [65, 66])]"
proof -
  have b: "adv_built adv_demo_cfg"
    by (simp add: adv_built_def adv_demo_cfg_def flatten_config_def zero_config_def)
  have hv: "hvec_ok EXT_ADV_DATA_MAX (hvec_std 255)"
    using hvec_ok_std[of 255] by (simp add: EXT_ADV_DATA_MAX_def)
  have f: "adv_fields gap_std adv_demo_cfg 6 [] @ (if [65, 66] \<noteq> ([] :: u8 list) then [(0x09, [65, 66])] else [])
      = [(0x01, [6]), (0xff, [0x59, 0]), (0x0a, [0]), (0x09, [65, 66])]"
    by (simp add: adv_fields_def adv_demo_cfg_def flatten_config_def zero_config_def adv_uuid_ok_def
        adv_service_data_ok_def u16_to_le_bytes_def le_bytes_def upt_rec)
  have l: "\<not> length (encode_ads [(0x01, [6]), (0xff, [0x59, 0]), (0x0a, [0]), (0x09, [65, 66])]) > 255"
    by (simp add: encode_ads_def encode_ad_def)
  from ext_payload_exact[OF b hv refl, of gap_std 6 "[]" "[65, 66]"] show ?thesis
    unfolding f using l by (cases "advertising_payload_ext gap_std (hvec_std 255) adv_demo_cfg 6 [] [65, 66]") auto
qed

text \<open>Result (legacy_ext_agree). The two builders are one specification: a legacy payload with
  the complete, non-empty name is byte for byte the extended payload of the same
  configuration.\<close>

theorem legacy_ext_agree:
  assumes "adv_built cfg" "hvec_ok EXT_ADV_DATA_MAX hv" "name \<noteq> []"
    and "advertising_payload gap cfg flags man name = Some (adv, n)"
    and "fields_len gap cfg flags man + length name + 2 \<le> 31"
  shows "advertising_payload_ext gap hv cfg flags man name = Some (take n adv)"
proof -
  let ?fs = "adv_fields gap cfg flags man @ [(0x09, name)]"
  have t: "take n adv = encode_ads ?fs"
    using legacy_built_cases(1)[OF assms(1), of gap flags man name] assms(4,5) by (auto simp: legacy_name_ad_def)
  have "length (encode_ads ?fs) \<le> 255" using assms(5) by (simp add: fields_len_def)
  then show ?thesis using ext_built_cases[OF assms(1,2), of gap flags man name] assms(3) t by simp
qed

theorem legacy_ext_agree_witness:
  "\<exists>adv n. advertising_payload gap_std (flatten_config zero_config) 6 [] [65] = Some (adv, n)
     \<and> advertising_payload_ext gap_std (hvec_std 255) (flatten_config zero_config) 6 [] [65] = Some (take n adv)"
proof -
  let ?c = "flatten_config zero_config"
  have b: "adv_built ?c" by (simp add: adv_built_def flatten_config_def zero_config_def)
  have hv: "hvec_ok EXT_ADV_DATA_MAX (hvec_std 255)"
    using hvec_ok_std[of 255] by (simp add: EXT_ADV_DATA_MAX_def)
  have L: "fields_len gap_std ?c 6 [] = 3"
    by (simp add: fields_len_def adv_fields_def flatten_config_def zero_config_def adv_uuid_ok_def
        adv_service_data_ok_def)
  then obtain adv n where r: "advertising_payload gap_std ?c 6 [] [65] = Some (adv, n)"
    using legacy_built_cases(1)[OF b, of gap_std 6 "[]" "[65]"] by auto
  from legacy_ext_agree[OF b hv _ r] show ?thesis using r L by auto
qed

end
