(* ===== verification/Advertise.thy ===== *)
theory Advertise
  imports AdvPayload
begin

text \<open>
  Advertising in \<^verbatim>\<open>radio.rs\<close>: the advertising parameters, the accept list, periodic
  advertising, and the choice of the advertising set in \<^verbatim>\<open>advertise_connectable\<close> and
  \<^verbatim>\<open>advertise_nonconnectable\<close>.

  The host and the controller are seen through the requests made to them: an operation is
  the list of requests it makes and its result, under an oracle \<open>ok\<close> that says which
  requests succeed (no operation makes the same request twice). Durations are in
  milliseconds.
\<close>

section \<open>Parameters\<close>

datatype (plugins only: code size) tx_power =
    Minus40dBm | Minus20dBm | Minus16dBm | Minus12dBm | Minus8dBm | Minus4dBm | ZerodBm
  | Plus2dBm | Plus3dBm | Plus4dBm | Plus5dBm | Plus6dBm | Plus7dBm | Plus8dBm | Plus10dBm
  | Plus12dBm | Plus14dBm | Plus16dBm | Plus18dBm | Plus20dBm

definition adv_tx_power :: "RuntimeCfg \<Rightarrow> tx_power" where
  "adv_tx_power cfg =
     (if cfg_adv_tx_power_present cfg = 0 then ZerodBm
      else let p = cfg_adv_tx_power_dbm cfg
      in if p = -40 then Minus40dBm
         else if p = -20 then Minus20dBm
         else if p = -16 then Minus16dBm
         else if p = -12 then Minus12dBm
         else if p = -8 then Minus8dBm
         else if p = -4 then Minus4dBm
         else if p = 2 then Plus2dBm
         else if p = 3 then Plus3dBm
         else if p = 4 then Plus4dBm
         else if p = 5 then Plus5dBm
         else if p = 6 then Plus6dBm
         else if p = 7 then Plus7dBm
         else if p = 8 then Plus8dBm
         else if p = 10 then Plus10dBm
         else if p = 12 then Plus12dBm
         else if p = 14 then Plus14dBm
         else if p = 16 then Plus16dBm
         else if p = 18 then Plus18dBm
         else if p = 20 then Plus20dBm
         else ZerodBm)"

datatype adv_filter = Unfiltered | FilterScan | FilterConn | FilterConnAndScan

definition adv_filter_policy :: "RuntimeCfg \<Rightarrow> adv_filter" where
  "adv_filter_policy cfg =
     (if cfg_adv_filter_policy cfg = 1 then FilterScan
      else if cfg_adv_filter_policy cfg = 2 then FilterConn
      else if cfg_adv_filter_policy cfg = 3 then FilterConnAndScan
      else Unfiltered)"

text \<open>The channels 37, 38 and 39; \<open>None\<close> leaves the choice to the host.\<close>

definition adv_channel_map :: "RuntimeCfg \<Rightarrow> (bool \<times> bool \<times> bool) option" where
  "adv_channel_map cfg =
     (let bits = cfg_adv_channel_map cfg AND 0x07
      in if bits = 0 then None
         else Some (bits AND 0x01 \<noteq> 0, bits AND 0x02 \<noteq> 0, bits AND 0x04 \<noteq> 0))"

text \<open>The fields of \<^verbatim>\<open>AdvertisementParameters\<close> the code sets; the others are the host's
  defaults.\<close>

record adv_params =
  interval_min :: nat
  interval_max :: nat
  primary_phy :: phy_kind
  secondary_phy :: phy_kind
  ap_tx_power :: tx_power
  channel_map :: "(bool \<times> bool \<times> bool) option"
  filter_policy :: adv_filter

definition advertising_params :: "RuntimeCfg \<Rightarrow> adv_params" where
  "advertising_params cfg =
     (let min_ms = (if cfg_adv_interval_min_ms cfg = 0 then 30 else unat (cfg_adv_interval_min_ms cfg));
          max_ms = (if cfg_adv_interval_max_ms cfg = 0 then 60 else unat (cfg_adv_interval_max_ms cfg))
      in \<lparr>interval_min = min_ms,
          interval_max = max_ms,
          primary_phy = adv_phy_from_c (cfg_adv_primary_phy cfg),
          secondary_phy = adv_phy_from_c (if cfg_adv_secondary_phy cfg = 0 then cfg_adv_primary_phy cfg
                                          else cfg_adv_secondary_phy cfg),
          ap_tx_power = adv_tx_power cfg,
          channel_map = adv_channel_map cfg,
          filter_policy = adv_filter_policy cfg\<rparr>)"

definition adv_accept_peer :: "('k, 'l, 'i) bt_ops \<Rightarrow> RuntimeCfg \<Rightarrow> 'k address option" where
  "adv_accept_peer bt cfg =
     (case cfg_adv_accept_address cfg of
        None \<Rightarrow> None
      | Some m \<Rightarrow> Some (peer_address bt (from_raw_parts m 6) (cfg_adv_accept_address_kind cfg)))"

definition directed_peer :: "('k, 'l, 'i) bt_ops \<Rightarrow> RuntimeCfg \<Rightarrow> 'k address option" where
  "directed_peer bt cfg =
     (case cfg_directed_peer_address cfg of
        None \<Rightarrow> None
      | Some m \<Rightarrow> Some (peer_address bt (from_raw_parts m 6) (cfg_directed_peer_address_kind cfg)))"

section \<open>Requests\<close>

datatype 'k advertisement =
    ConnectableScannableUndirected "u8 list" "u8 list"
  | ConnectableNonscannableDirected "'k address"
  | ConnectableNonscannableDirectedHighDuty "'k address"
  | NonconnectableNonscannableUndirected "u8 list"
  | NonconnectableScannableUndirected "u8 list" "u8 list"
  | ExtConnectableNonscannableUndirected "u8 list"
  | ExtConnectableNonscannableDirected "'k address" "u8 list"
  | ExtNonconnectableNonscannableUndirected "u8 list"
  | ExtNonconnectableScannableUndirected "u8 list"

datatype 'k adv_req =
    SetFilterAcceptList "'k address list"
  | AdvertiseLegacy adv_params "'k advertisement"
  | AdvertiseExt adv_params "'k advertisement"
  | SetPeriodicParams nat nat bool
  | SetPeriodicData "u8 list"
  | SetPeriodicEnable
  | Accept
  | AdvLog cb_event
  | WaitUnload

text \<open>An operation: its requests, and whether it returned \<^verbatim>\<open>Ok\<close>; \<open>req\<close> is \<^verbatim>\<open>...await?\<close> and
  \<open>andThen\<close> goes on after an \<^verbatim>\<open>Ok\<close> only.\<close>

type_synonym 'k adv_op = "'k adv_req list \<times> bool"

definition req :: "('k adv_req \<Rightarrow> bool) \<Rightarrow> 'k adv_req \<Rightarrow> 'k adv_op" where
  "req ok r = ([r], ok r)"

definition andThen :: "'k adv_op \<Rightarrow> 'k adv_op \<Rightarrow> 'k adv_op" where
  "andThen a b = (if snd a then (fst a @ fst b, snd b) else a)"

definition done_ok :: "'k adv_op" where "done_ok = ([], True)"
definition invalid_value :: "'k adv_op" where "invalid_value = ([], False)"

definition adv_log :: "RuntimeCfg \<Rightarrow> string \<Rightarrow> 'k adv_op" where
  "adv_log cfg s = (map AdvLog (log_str cfg s), True)"

definition wait_unload_op :: "'k adv_op" where "wait_unload_op = ([WaitUnload], True)"

lemmas op_defs = req_def andThen_def done_ok_def invalid_value_def adv_log_def wait_unload_op_def

section \<open>Operations\<close>

definition apply_adv_accept_list ::
  "('k, 'l, 'i) bt_ops \<Rightarrow> ('k adv_req \<Rightarrow> bool) \<Rightarrow> RuntimeCfg \<Rightarrow> 'k adv_op" where
  "apply_adv_accept_list bt ok cfg =
     (if cfg_adv_filter_policy cfg = 0 then done_ok
      else case adv_accept_peer bt cfg of
        None \<Rightarrow> done_ok
      | Some peer \<Rightarrow> req ok (SetFilterAcceptList [peer]))"

definition periodic_intervals :: "RuntimeCfg \<Rightarrow> nat \<times> nat" where
  "periodic_intervals cfg =
     (let min_ms = (if cfg_periodic_adv_interval_min_ms cfg = 0 then 100
                    else cfg_periodic_adv_interval_min_ms cfg);
          max_ms = (if cfg_periodic_adv_interval_max_ms cfg = 0 then 250
                    else max (cfg_periodic_adv_interval_max_ms cfg) min_ms)
      in (unat min_ms, unat max_ms))"

definition enable_periodic_advertising :: "('k adv_req \<Rightarrow> bool) \<Rightarrow> RuntimeCfg \<Rightarrow> 'k adv_op" where
  "enable_periodic_advertising ok cfg =
     (if cfg_periodic_adv cfg = 0 then done_ok
      else
        let (min_ms, max_ms) = periodic_intervals cfg;
            data = (if \<not> is_null (cfg_periodic_adv_data cfg) \<and> cfg_periodic_adv_data_len cfg > 0
                    then slice_or_empty (cfg_periodic_adv_data cfg) (unat (cfg_periodic_adv_data_len cfg))
                    else [])
        in andThen (req ok (SetPeriodicParams min_ms max_ms (cfg_periodic_adv_include_tx_power cfg \<noteq> 0)))
          (andThen (req ok (SetPeriodicData data))
          (andThen (req ok SetPeriodicEnable)
            (adv_log cfg ''[adv] periodic advertising enabled''))))"

definition advertise_connectable ::
  "('k, 'l, 'i) bt_ops \<Rightarrow> gap_consts \<Rightarrow> u8 hvec \<Rightarrow> ('k adv_req \<Rightarrow> bool) \<Rightarrow> RuntimeCfg \<Rightarrow> 'k adv_op" where
  "advertise_connectable bt gap hv ok cfg =
     andThen (apply_adv_accept_list bt ok cfg)
       (case directed_peer bt cfg of
          Some peer \<Rightarrow>
            if cfg_adv_extended cfg \<noteq> 0 \<and> cfg_directed_high_duty cfg = 0
            then case advertising_parts_ext gap hv cfg of
                   None \<Rightarrow> invalid_value
                 | Some (adv, _) \<Rightarrow>
                     andThen (req ok (AdvertiseExt (advertising_params cfg) (ExtConnectableNonscannableDirected peer adv)))
                       (andThen (enable_periodic_advertising ok cfg) (req ok Accept))
            else andThen (req ok (AdvertiseLegacy (advertising_params cfg)
                            (if cfg_directed_high_duty cfg \<noteq> 0
                             then ConnectableNonscannableDirectedHighDuty peer
                             else ConnectableNonscannableDirected peer)))
                   (req ok Accept)
        | None \<Rightarrow>
            if cfg_adv_extended cfg \<noteq> 0
            then case advertising_parts_ext gap hv cfg of
                   None \<Rightarrow> invalid_value
                 | Some (adv, _) \<Rightarrow>
                     andThen (req ok (AdvertiseExt (advertising_params cfg) (ExtConnectableNonscannableUndirected adv)))
                       (andThen (enable_periodic_advertising ok cfg) (req ok Accept))
            else case advertising_parts gap cfg of
                   None \<Rightarrow> invalid_value
                 | Some (adv, adv_len, scan_data) \<Rightarrow>
                     andThen (req ok (AdvertiseLegacy (advertising_params cfg)
                                (ConnectableScannableUndirected (take adv_len adv) scan_data)))
                       (req ok Accept))"

definition advertise_nonconnectable ::
  "('k, 'l, 'i) bt_ops \<Rightarrow> gap_consts \<Rightarrow> u8 hvec \<Rightarrow> ('k adv_req \<Rightarrow> bool) \<Rightarrow> RuntimeCfg \<Rightarrow> 'k adv_op" where
  "advertise_nonconnectable bt gap hv ok cfg =
     andThen (apply_adv_accept_list bt ok cfg)
       (if cfg_adv_extended cfg \<noteq> 0
        then case advertising_parts_ext gap hv cfg of
               None \<Rightarrow> invalid_value
             | Some (adv, scan_data) \<Rightarrow>
                 (case hv_extend hv adv scan_data of
                    None \<Rightarrow> invalid_value
                  | Some scan_payload \<Rightarrow>
                      andThen (req ok (AdvertiseExt (advertising_params cfg)
                                 (if cfg_periodic_adv cfg \<noteq> 0
                                  then ExtNonconnectableNonscannableUndirected scan_payload
                                  else ExtNonconnectableScannableUndirected scan_payload)))
                        (andThen (enable_periodic_advertising ok cfg)
                        (andThen (adv_log cfg ''[adv] extended advertising started'') wait_unload_op)))
        else case advertising_parts gap cfg of
               None \<Rightarrow> invalid_value
             | Some (adv, adv_len, scan_data) \<Rightarrow>
                 andThen (req ok (AdvertiseLegacy (advertising_params cfg)
                            (if scan_data = []
                             then NonconnectableNonscannableUndirected (take adv_len adv)
                             else NonconnectableScannableUndirected (take adv_len adv) scan_data)))
                   (andThen (adv_log cfg ''[adv] legacy advertising started'') wait_unload_op))"

section \<open>What is sent\<close>

fun adv_data_bytes :: "'k advertisement \<Rightarrow> u8 list list" where
  "adv_data_bytes (ConnectableScannableUndirected a s) = [a, s]"
| "adv_data_bytes (ConnectableNonscannableDirected _) = []"
| "adv_data_bytes (ConnectableNonscannableDirectedHighDuty _) = []"
| "adv_data_bytes (NonconnectableNonscannableUndirected a) = [a]"
| "adv_data_bytes (NonconnectableScannableUndirected a s) = [a, s]"
| "adv_data_bytes (ExtConnectableNonscannableUndirected a) = [a]"
| "adv_data_bytes (ExtConnectableNonscannableDirected _ a) = [a]"
| "adv_data_bytes (ExtNonconnectableNonscannableUndirected a) = [a]"
| "adv_data_bytes (ExtNonconnectableScannableUndirected a) = [a]"

text \<open>Every block of advertising data a request carries fits its kind of advertising.\<close>

fun req_fits :: "'k adv_req \<Rightarrow> bool" where
  "req_fits (AdvertiseLegacy _ a) \<longleftrightarrow> (\<forall>d \<in> set (adv_data_bytes a). length d \<le> 31)"
| "req_fits (AdvertiseExt _ a) \<longleftrightarrow> (\<forall>d \<in> set (adv_data_bytes a). length d \<le> 255)"
| "req_fits (SetPeriodicData d) \<longleftrightarrow> length d \<le> 255"
| "req_fits _ \<longleftrightarrow> True"

definition all_reqs :: "('k adv_req \<Rightarrow> bool) \<Rightarrow> 'k adv_op \<Rightarrow> bool" where
  "all_reqs P a \<longleftrightarrow> (\<forall>r \<in> set (fst a). P r)"

lemma all_reqs_andThen: "all_reqs P a \<Longrightarrow> all_reqs P b \<Longrightarrow> all_reqs P (andThen a b)"
  by (auto simp: all_reqs_def andThen_def)

lemma all_reqs_base:
  "P r \<Longrightarrow> all_reqs P (req ok r)" "all_reqs P done_ok" "all_reqs P invalid_value"
  "(\<And>e. P (AdvLog e)) \<Longrightarrow> all_reqs P (adv_log cfg m)" "P WaitUnload \<Longrightarrow> all_reqs P wait_unload_op"
  by (auto simp: all_reqs_def op_defs)

lemma all_reqs_accept:
  "cfg_adv_filter_policy cfg = 0 \<or> (\<forall>l. P (SetFilterAcceptList l)) \<Longrightarrow> all_reqs P (apply_adv_accept_list bt ok cfg)"
  by (auto simp: apply_adv_accept_list_def all_reqs_base split: option.split)

lemmas all_reqs_intros = all_reqs_andThen all_reqs_base all_reqs_accept

lemma u8_le_3: "b \<le> 3 \<longleftrightarrow> b = 0 \<or> b = 1 \<or> b = 2 \<or> b = 3" for b :: u8
  by (auto simp: word_le_nat_alt word_unat_eq_iff)

lemma unat_max: "unat (max a b) = max (unat a) (unat b)" for a b :: "'a::len word"
  by (simp add: max_def word_le_nat_alt)

lemma unat_u8_le: "unat (b :: u8) \<le> 255"
proof -
  have "(unsigned b :: nat) < 256" using unsigned_less[of b] by simp
  then show ?thesis by simp
qed

definition periodic_data :: "RuntimeCfg \<Rightarrow> u8 list" where
  "periodic_data cfg =
     (if \<not> is_null (cfg_periodic_adv_data cfg) \<and> cfg_periodic_adv_data_len cfg > 0
      then slice_or_empty (cfg_periodic_adv_data cfg) (unat (cfg_periodic_adv_data_len cfg)) else [])"

lemma periodic_data_len: "length (periodic_data cfg) \<le> 255"
  using unat_u8_le by (auto simp: periodic_data_def slice_or_empty_def split: option.split)

lemma all_reqs_periodic:
  assumes "\<And>mn mx t. P (SetPeriodicParams mn mx t)" "P (SetPeriodicData (periodic_data cfg))" "P SetPeriodicEnable"
    and "\<And>e. P (AdvLog e)"
  shows "all_reqs P (enable_periodic_advertising ok cfg)"
proof (cases "cfg_periodic_adv cfg = 0")
  case True
  then show ?thesis by (simp add: enable_periodic_advertising_def all_reqs_base)
next
  case False
  then show ?thesis
    unfolding enable_periodic_advertising_def Let_def case_prod_beta if_not_P[OF False] periodic_data_def[symmetric]
    by (intro all_reqs_andThen all_reqs_base assms)
qed

lemma payload_bounds:
  "advertising_payload gap cfg flags man name = Some (adv, n) \<Longrightarrow> length (take n adv) \<le> 31"
proof (cases "adv_built cfg")
  case True
  assume r: "advertising_payload gap cfg flags man name = Some (adv, n)"
  have "fields_len gap cfg flags man + length name + 2 \<le> 31 \<or> fields_len gap cfg flags man \<le> 28"
    using legacy_built_cases(2)[OF True] r by force
  then have "length adv = 31" using legacy_built_cases(1)[OF True, of gap flags man name] r by auto
  then show ?thesis by simp
next
  case False
  assume "advertising_payload gap cfg flags man name = Some (adv, n)"
  then show ?thesis using False by (auto simp: advertising_payload_def adv_built_def Let_def word_gt_0 split: if_splits)
qed

lemma parts_bounds:
  "advertising_parts gap cfg = Some (adv, n, scan) \<Longrightarrow> length (take n adv) \<le> 31 \<and> length scan \<le> 31"
proof -
  assume a: "advertising_parts gap cfg = Some (adv, n, scan)"
  have "unat (min (cfg_scan_response_data_len cfg) 31) \<le> 31"
    by (simp add: min_def word_le_nat_alt)
  then have "length (legacy_scan_data cfg) \<le> 31"
    by (auto simp: legacy_scan_data_def slice_or_empty_def split: option.split)
  then show ?thesis
    using a payload_bounds by (auto simp: advertising_parts_def Let_def split: option.splits prod.splits)
qed

lemma parts_ext_bounds:
  assumes "hvec_ok EXT_ADV_DATA_MAX hv" "advertising_parts_ext gap hv cfg = Some (adv, scan)"
  shows "length adv \<le> 255"
proof -
  have "length adv \<le> 255" if "advertising_payload_ext gap hv cfg fl man name = Some adv" for fl man name
  proof (cases "adv_built cfg")
    case True
    then show ?thesis
      using ext_built_cases[OF True assms(1), of gap fl man name] that by (auto split: if_splits)
  next
    case False
    then show ?thesis
      using that by (auto simp: advertising_payload_ext_def adv_built_def hv_extend[OF assms(1)] EXT_ADV_DATA_MAX_def word_gt_0
          split: if_splits)
  qed
  then show ?thesis using assms(2) by (auto simp: advertising_parts_ext_def Let_def split: option.splits if_splits)
qed

text \<open>A request is made only after everything before it succeeded: the list of requests of an
  operation ends with the first failure, and an operation that returns \<open>Ok\<close> had none.\<close>

definition all_ok :: "('k adv_req \<Rightarrow> bool) \<Rightarrow> 'k adv_req list \<Rightarrow> bool" where
  "all_ok ok rs \<longleftrightarrow> (\<forall>r \<in> set rs. (case r of AdvLog _ \<Rightarrow> True | WaitUnload \<Rightarrow> True | _ \<Rightarrow> ok r))"

definition op_sound :: "('k adv_req \<Rightarrow> bool) \<Rightarrow> 'k adv_op \<Rightarrow> bool" where
  "op_sound ok a \<longleftrightarrow> all_ok ok (butlast (fst a)) \<and> (snd a \<longrightarrow> all_ok ok (fst a))"

lemma op_sound_andThen: "op_sound ok a \<Longrightarrow> op_sound ok b \<Longrightarrow> op_sound ok (andThen a b)"
  by (auto simp: op_sound_def andThen_def all_ok_def butlast_append)

lemma op_sound_base:
  "op_sound ok (req ok r)" "op_sound ok done_ok" "op_sound ok invalid_value" "op_sound ok wait_unload_op"
  "op_sound ok (adv_log cfg m)"
  by (auto simp: op_sound_def op_defs all_ok_def dest: in_set_butlastD split: adv_req.split)

lemma op_sound_accept: "op_sound ok (apply_adv_accept_list bt ok cfg)"
  by (simp add: apply_adv_accept_list_def op_sound_base split: option.split)

lemma op_sound_periodic: "op_sound ok (enable_periodic_advertising ok cfg)"
  unfolding enable_periodic_advertising_def Let_def case_prod_beta
  by (simp add: op_sound_andThen op_sound_base)

lemmas op_sound_intros = op_sound_andThen op_sound_base op_sound_accept op_sound_periodic

lemma op_sound_connectable: "op_sound ok (advertise_connectable bt gap hv ok cfg)"
  unfolding advertise_connectable_def
  by (intro op_sound_andThen op_sound_accept) (auto intro!: op_sound_intros split: option.split prod.split)

lemma op_sound_nonconnectable: "op_sound ok (advertise_nonconnectable bt gap hv ok cfg)"
  unfolding advertise_nonconnectable_def
  by (intro op_sound_andThen op_sound_accept) (auto intro!: op_sound_intros split: option.split prod.split)

lemma fits_connectable:
  assumes "hvec_ok EXT_ADV_DATA_MAX hv"
  shows "all_reqs req_fits (advertise_connectable bt gap hv ok cfg)"
  unfolding advertise_connectable_def
  using parts_bounds[of gap cfg] parts_ext_bounds[OF assms, of gap cfg]
  by (auto intro!: all_reqs_intros all_reqs_periodic periodic_data_len split: option.split prod.split simp del: length_take)

lemma fits_nonconnectable:
  assumes "hvec_ok EXT_ADV_DATA_MAX hv"
  shows "all_reqs req_fits (advertise_nonconnectable bt gap hv ok cfg)"
  unfolding advertise_nonconnectable_def
  using parts_bounds[of gap cfg]
  by (auto intro!: all_reqs_intros all_reqs_periodic periodic_data_len split: option.split prod.split if_splits
      simp: hv_extend[OF assms] EXT_ADV_DATA_MAX_def simp del: length_take)

text \<open>Without a filter policy no accept list is set.\<close>

definition not_accept_list :: "'k adv_req \<Rightarrow> bool" where
  "not_accept_list r \<longleftrightarrow> (\<forall>l. r \<noteq> SetFilterAcceptList l)"

lemma no_accept_list:
  assumes "cfg_adv_filter_policy cfg = 0"
  shows "all_reqs not_accept_list (advertise_connectable bt gap hv ok cfg)"
    and "all_reqs not_accept_list (advertise_nonconnectable bt gap hv ok cfg)"
  unfolding advertise_connectable_def advertise_nonconnectable_def
  using assms
  by (auto intro!: all_reqs_intros all_reqs_periodic simp: not_accept_list_def split: option.split prod.split)

section \<open>Properties\<close>


lemma hvec_std_ext: "hvec_ok EXT_ADV_DATA_MAX (hvec_std 255)"
  using hvec_ok_std[of 255] by (simp add: EXT_ADV_DATA_MAX_def)


text \<open>Result (accept_list_first). With a filter policy in an accepted configuration, the first
  request, before any advertising, installs the accept list with exactly the configured peer;
  without a policy no accept list is touched.\<close>

theorem accept_list_first:
  assumes "cfg_ok cfg" "a = advertise_connectable bt gap hv ok cfg \<or> a = advertise_nonconnectable bt gap hv ok cfg"
  shows "if cfg_adv_filter_policy cfg = 0
     then \<forall>l. SetFilterAcceptList l \<notin> set (fst a)
     else \<exists>m rest. cfg_adv_accept_address cfg = Some m
       \<and> fst a = SetFilterAcceptList [peer_address bt (from_raw_parts m 6) (cfg_adv_accept_address_kind cfg)] # rest
       \<and> filter_policy (advertising_params cfg) \<noteq> Unfiltered"
proof (cases "cfg_adv_filter_policy cfg = 0")
  case True
  then show ?thesis
    using no_accept_list[OF True, of bt gap hv ok] assms(2) by (auto simp: all_reqs_def not_accept_list_def)
next
  case False
  then obtain m where m: "cfg_adv_accept_address cfg = Some m" using assms(1) by (auto simp: cfg_ok_def)
  have "cfg_adv_filter_policy cfg \<in> {1, 2, 3}"
    using assms(1) False by (auto simp: cfg_ok_def u8_le_3)
  then have "filter_policy (advertising_params cfg) \<noteq> Unfiltered"
    by (auto simp: advertising_params_def adv_filter_policy_def)
  then show ?thesis
    using False m assms(2)
    by (auto simp: advertise_connectable_def advertise_nonconnectable_def apply_adv_accept_list_def adv_accept_peer_def
        req_def andThen_def)
qed

theorem accept_list_first_witness:
  "\<exists>rest. fst (advertise_connectable bt_std gap_std (hvec_std 255) (\<lambda>_. True)
        ((flatten_config zero_config)\<lparr>cfg_adv_filter_policy := 2, cfg_adv_accept_address := Some (\<lambda>i. 7)\<rparr>)) =
      SetFilterAcceptList [\<lparr>addr_kind = 1, addr_raw = [7, 7, 7, 7, 7, 7]\<rparr>] # rest"
proof -
  let ?c = "(flatten_config zero_config)\<lparr>cfg_adv_filter_policy := 2, cfg_adv_accept_address := Some (\<lambda>i. 7)\<rparr>"
  have ok: "cfg_ok ?c" by (simp add: cfg_ok_def flatten_config_def zero_config_def)
  have k: "cfg_adv_accept_address_kind ?c = 0" "cfg_adv_filter_policy ?c = 2" "cfg_adv_accept_address ?c = Some (\<lambda>i. 7)"
    by (simp_all add: flatten_config_def zero_config_def)
  from accept_list_first[OF ok, of _ bt_std gap_std "hvec_std 255" "\<lambda>_. True"] show ?thesis
    using k by (auto simp: peer_address_def c_addr_kind_def bt_std_def RTBLE_ADDR_PUBLIC_def from_raw_parts_def upt_rec)
qed

text \<open>Result (channel_and_phy_selection). The advertising channels are exactly those whose bits are
  set, and the host's choice when none is; the secondary PHY defaults to the primary; an
  accepted configuration names every PHY it sets.\<close>

theorem channel_and_phy_selection:
  "(channel_map (advertising_params cfg) = None \<longleftrightarrow>
      \<not> bit (cfg_adv_channel_map cfg) 0 \<and> \<not> bit (cfg_adv_channel_map cfg) 1 \<and> \<not> bit (cfg_adv_channel_map cfg) 2)
   \<and> (\<forall>a b c. channel_map (advertising_params cfg) = Some (a, b, c) \<longrightarrow>
        a = bit (cfg_adv_channel_map cfg) 0 \<and> b = bit (cfg_adv_channel_map cfg) 1 \<and> c = bit (cfg_adv_channel_map cfg) 2)
   \<and> (cfg_adv_secondary_phy cfg = 0 \<longrightarrow>
        secondary_phy (advertising_params cfg) = primary_phy (advertising_params cfg))
   \<and> (cfg_ok cfg \<and> cfg_adv_primary_phy cfg \<noteq> 0 \<longrightarrow>
        phy_to_c (primary_phy (advertising_params cfg)) = cfg_adv_primary_phy cfg)"
proof -
  let ?m = "cfg_adv_channel_map cfg"
  have b: "(?m AND 7) AND 1 = 0 \<longleftrightarrow> \<not> bit ?m 0" "(?m AND 7) AND 2 = 0 \<longleftrightarrow> \<not> bit ?m 1"
    "(?m AND 7) AND 4 = 0 \<longleftrightarrow> \<not> bit ?m 2"
    by (simp_all add: mask_bits bit_simps)
  have ph: "phy_to_c (adv_phy_from_c p) = p" if "p \<le> 3" "p \<noteq> 0" for p
    using that by (auto simp: adv_phy_from_c_def u8_le_3)
  show ?thesis
    using b by (auto simp: advertising_params_def adv_channel_map_def and_low_bits_eq_0 Let_def cfg_ok_def ph)
qed

theorem channel_and_phy_selection_witness:
  "channel_map (advertising_params ((flatten_config zero_config)\<lparr>cfg_adv_channel_map := 0xFC\<rparr>)) = Some (False, False, True)"
proof -
  let ?c = "(flatten_config zero_config)\<lparr>cfg_adv_channel_map := 0xFC\<rparr>"
  have "bit (0xFC :: u8) 2" "\<not> bit (0xFC :: u8) 0" "\<not> bit (0xFC :: u8) 1" by simp_all
  then show ?thesis
    using channel_and_phy_selection[of ?c] by (cases "channel_map (advertising_params ?c)") auto
qed

text \<open>Result (interval_order). The minimum advertising interval is positive and at most the maximum
  whenever both or neither is configured in order, and always for periodic advertising with
  a configured maximum; but the defaults are filled in separately, so a minimum alone above
  60 ms (above 250 ms for periodic advertising) leaves the range empty.\<close>

theorem interval_order:
  "0 < interval_min (advertising_params cfg) \<and> 0 < interval_max (advertising_params cfg)
   \<and> (interval_min (advertising_params cfg) \<le> interval_max (advertising_params cfg) \<longleftrightarrow>
        (if cfg_adv_interval_max_ms cfg = 0 then cfg_adv_interval_min_ms cfg \<le> 60
         else if cfg_adv_interval_min_ms cfg = 0 then 30 \<le> cfg_adv_interval_max_ms cfg
         else cfg_adv_interval_min_ms cfg \<le> cfg_adv_interval_max_ms cfg))
   \<and> (fst (periodic_intervals cfg) \<le> snd (periodic_intervals cfg) \<longleftrightarrow>
        (if cfg_periodic_adv_interval_max_ms cfg = 0 then cfg_periodic_adv_interval_min_ms cfg \<le> 250 else True))"
  by (auto simp: advertising_params_def periodic_intervals_def Let_def word_le_nat_alt unat_gt_0 word_neq_0_conv unat_max)

definition tx_power_dbm :: "tx_power \<Rightarrow> i8" where
  "tx_power_dbm p = (case p of Minus40dBm \<Rightarrow> -40 | Minus20dBm \<Rightarrow> -20 | Minus16dBm \<Rightarrow> -16 | Minus12dBm \<Rightarrow> -12
     | Minus8dBm \<Rightarrow> -8 | Minus4dBm \<Rightarrow> -4 | ZerodBm \<Rightarrow> 0 | Plus2dBm \<Rightarrow> 2 | Plus3dBm \<Rightarrow> 3 | Plus4dBm \<Rightarrow> 4
     | Plus5dBm \<Rightarrow> 5 | Plus6dBm \<Rightarrow> 6 | Plus7dBm \<Rightarrow> 7 | Plus8dBm \<Rightarrow> 8 | Plus10dBm \<Rightarrow> 10 | Plus12dBm \<Rightarrow> 12
     | Plus14dBm \<Rightarrow> 14 | Plus16dBm \<Rightarrow> 16 | Plus18dBm \<Rightarrow> 18 | Plus20dBm \<Rightarrow> 20)"

text \<open>Result (radio_tx_power). The transmit power the controller is asked for is the configured one
  exactly for the values it supports and 0 dBm otherwise, while the advertised TX power
  field is always the configured value.\<close>

theorem radio_tx_power:
  assumes "cfg_adv_tx_power_present cfg \<noteq> 0"
  shows "tx_power_dbm (ap_tx_power (advertising_params cfg)) =
       (if cfg_adv_tx_power_dbm cfg \<in> {-40, -20, -16, -12, -8, -4, 2, 3, 4, 5, 6, 7, 8, 10, 12, 14, 16, 18, 20}
        then cfg_adv_tx_power_dbm cfg else 0)
     \<and> (0x0a, [cfg_adv_tx_power_dbm cfg]) \<in> set (adv_fields gap cfg flags man)"
proof
  show "tx_power_dbm (ap_tx_power (advertising_params cfg)) =
       (if cfg_adv_tx_power_dbm cfg \<in> {-40, -20, -16, -12, -8, -4, 2, 3, 4, 5, 6, 7, 8, 10, 12, 14, 16, 18, 20}
        then cfg_adv_tx_power_dbm cfg else 0)"
    using assms by (simp add: advertising_params_def Let_def adv_tx_power_def tx_power_dbm_def)
  show "(0x0a, [cfg_adv_tx_power_dbm cfg]) \<in> set (adv_fields gap cfg flags man)"
    using assms by (simp add: adv_fields_def)
qed

theorem radio_tx_power_witness:
  "tx_power_dbm (ap_tx_power (advertising_params
     ((flatten_config zero_config)\<lparr>cfg_adv_tx_power_present := 1, cfg_adv_tx_power_dbm := 9\<rparr>))) = 0"
  by (subst radio_tx_power[THEN conjunct1]) simp_all

end
