(* ===== verification/LinkControl.thy ===== *)
theory LinkControl
  imports LinkApi
begin

text \<open>
  The runtime's side of the link commands: \<^verbatim>\<open>link_control_once\<close> of \<^verbatim>\<open>radio.rs\<close> takes the
  waiting command, reads its parameters from the statics and makes one request to the
  connection or one callback. The connection is a parameter: the values its getters return,
  and \<^verbatim>\<open>RequestedConnParams::is_valid\<close>; the results of its requests are discarded by the
  code. Durations are in milliseconds, for the frame spacing in microseconds.
\<close>

section \<open>The connection\<close>

record conn_params =
  cp_min_interval :: nat
  cp_max_interval :: nat
  cp_max_latency :: u16
  cp_min_event :: nat
  cp_max_event :: nat
  cp_timeout :: nat

record rate_params =
  rp_min_interval :: nat
  rp_max_interval :: nat
  rp_subrate_min :: u16
  rp_subrate_max :: u16
  rp_max_latency :: u16
  rp_continuation :: u16
  rp_timeout :: nat
  rp_min_ce :: nat
  rp_max_ce :: nat

record conn_view =
  cv_params_valid :: "conn_params \<Rightarrow> bool"
  cv_rssi :: "i8 option"
  cv_phy :: "(phy_kind \<times> phy_kind) option"
  cv_att_mtu :: u16
  cv_security_level :: "security_level option"
  cv_key_len :: "u8 option"
  cv_bonded_peer :: bool

text \<open>The bits of \<^verbatim>\<open>PhyMask\<close> (1M, 2M, coded) and of \<^verbatim>\<open>SpacingTypes\<close> (the two ACL
  interframe spaces, the connection event spacing and the two isochronous ones), in the
  order they are set.\<close>

type_synonym phy_mask = "bool \<times> bool \<times> bool"
type_synonym spacing_types = "bool \<times> bool \<times> bool \<times> bool \<times> bool"

datatype link_req =
    ReqSetPhy phy_kind
  | ReqUpdateDataLength u16 u16
  | ReqUpdateConnParams conn_params
  | ReqUpdateFrameSpace nat nat phy_mask spacing_types
  | ReqConnectionRate rate_params
  | ReqSecurity
  | ReqPassKeyConfirm
  | ReqPassKeyCancel
  | ReqPassKeyInput u32
  | LinkCallback cb_event

section \<open>Callbacks about the link\<close>

definition emit_att_mtu :: "conn_view \<Rightarrow> RuntimeCfg \<Rightarrow> cb_event list" where
  "emit_att_mtu cv cfg = emit (on_att_mtu (cfg_callbacks cfg)) cfg (OnAttMtu (cv_att_mtu cv))"

definition emit_security_event ::
  "RuntimeCfg \<Rightarrow> u8 \<Rightarrow> security_level \<Rightarrow> u32 \<Rightarrow> bool \<Rightarrow> cb_event list" where
  "emit_security_event cfg event level passkey bonded =
     emit (on_security_event (cfg_callbacks cfg)) cfg
       (OnSecurityEvent event (security_level_to_c level) passkey (if bonded then 1 else 0))"

definition emit_security_state :: "conn_view \<Rightarrow> RuntimeCfg \<Rightarrow> cb_event list" where
  "emit_security_state cv cfg =
     (let level = unwrap_or (map_option security_level_to_c (cv_security_level cv)) 0;
          key_len = unwrap_or (cv_key_len cv) 0;
          flags = (if cv_bonded_peer cv then 1 else 0)
      in emit (on_security_state (cfg_callbacks cfg)) cfg (OnSecurityState level key_len flags))"

section \<open>One turn\<close>

definition usize_to_u16 :: "usize \<Rightarrow> u16" where
  "usize_to_u16 w = ucast (min w 0xFFFF)"

definition or_default :: "usize \<Rightarrow> nat \<Rightarrow> nat" where
  "or_default w d = (if w = 0 then d else unat w)"

definition link_phy :: "shared \<Rightarrow> phy_kind" where
  "link_phy s = (if LINK_PHY s = 2 then Le2M else if LINK_PHY s = 3 then LeCoded else Le1M)"

definition link_conn_params :: "shared \<Rightarrow> conn_params" where
  "link_conn_params s = \<lparr>
     cp_min_interval = or_default (LINK_CONN_MIN_MS s) 80,
     cp_max_interval = or_default (LINK_CONN_MAX_MS s) 80,
     cp_max_latency = usize_to_u16 (LINK_CONN_LATENCY s),
     cp_min_event = 0,
     cp_max_event = 0,
     cp_timeout = or_default (LINK_CONN_TIMEOUT_MS s) 8000\<rparr>"

definition link_rate_params :: "shared \<Rightarrow> rate_params" where
  "link_rate_params s = \<lparr>
     rp_min_interval = or_default (LINK_CONN_MIN_MS s) 80,
     rp_max_interval = or_default (LINK_CONN_MAX_MS s) 80,
     rp_subrate_min = (if LINK_RATE_SUBRATE_MIN s = 0 then 1 else usize_to_u16 (LINK_RATE_SUBRATE_MIN s)),
     rp_subrate_max = (if LINK_RATE_SUBRATE_MAX s = 0 then 1 else usize_to_u16 (LINK_RATE_SUBRATE_MAX s)),
     rp_max_latency = usize_to_u16 (LINK_CONN_LATENCY s),
     rp_continuation = usize_to_u16 (LINK_RATE_CONTINUATION s),
     rp_timeout = or_default (LINK_CONN_TIMEOUT_MS s) 8000,
     rp_min_ce = 0,
     rp_max_ce = 0\<rparr>"

definition link_frame_space :: "RuntimeCfg \<Rightarrow> shared \<Rightarrow> link_req list" where
  "link_frame_space cfg s =
     (let min_us = or_default (LINK_FRAME_SPACE_MIN_US s) 150;
          max_us = or_default (LINK_FRAME_SPACE_MAX_US s) 10000
      in if min_us > max_us then map LinkCallback (log_str cfg ''[link] invalid frame spacing'')
         else
           let phy_bits = ucast (LINK_FRAME_SPACE_PHY_MASK s) :: u8;
               type_bits = ucast (LINK_FRAME_SPACE_TYPES s) :: u8;
               phys = (phy_bits = 0 \<or> phy_bits AND 0x01 \<noteq> 0,
                       phy_bits = 0 \<or> phy_bits AND 0x02 \<noteq> 0,
                       phy_bits = 0 \<or> phy_bits AND 0x04 \<noteq> 0);
               types = (type_bits = 0 \<or> type_bits AND 0x01 \<noteq> 0,
                        type_bits = 0 \<or> type_bits AND 0x02 \<noteq> 0,
                        type_bits AND 0x04 \<noteq> 0,
                        type_bits AND 0x08 \<noteq> 0,
                        type_bits AND 0x10 \<noteq> 0)
           in [ReqUpdateFrameSpace min_us max_us phys types])"

text \<open>The arms of the \<^verbatim>\<open>match\<close>, for a command that has been taken.\<close>

definition link_execute :: "conn_view \<Rightarrow> RuntimeCfg \<Rightarrow> u32 \<Rightarrow> shared \<Rightarrow> link_req list" where
  "link_execute cv cfg cmd s =
     (if cmd = LCMD_SET_PHY then [ReqSetPhy (link_phy s)]
      else if cmd = LCMD_DLE then
        [ReqUpdateDataLength
           (if LINK_DLE_OCTETS s = 0 then 251 else usize_to_u16 (LINK_DLE_OCTETS s))
           (if LINK_DLE_TIME_US s = 0 then 2120 else usize_to_u16 (LINK_DLE_TIME_US s))]
      else if cmd = LCMD_CONN_PARAMS then
        (if cv_params_valid cv (link_conn_params s) then [ReqUpdateConnParams (link_conn_params s)]
         else map LinkCallback (log_str cfg ''[link] invalid connection params''))
      else if cmd = LCMD_FRAME_SPACE then link_frame_space cfg s
      else if cmd = LCMD_CONNECTION_RATE then
        (let params = link_rate_params s
         in if rp_min_interval params \<le> rp_max_interval params \<and> rp_subrate_min params \<le> rp_subrate_max params
            then [ReqConnectionRate params]
            else map LinkCallback (log_str cfg ''[link] invalid connection rate''))
      else if cmd = LCMD_SECURITY_REQUEST then [ReqSecurity]
      else if cmd = LCMD_PASSKEY_CONFIRM then [ReqPassKeyConfirm]
      else if cmd = LCMD_PASSKEY_CANCEL then [ReqPassKeyCancel]
      else if cmd = LCMD_PASSKEY_INPUT then [ReqPassKeyInput (LINK_PASSKEY s)]
      else if cmd = LCMD_READ_RSSI then
        (case cv_rssi cv of
           Some rssi \<Rightarrow> map LinkCallback (emit (on_rssi (cfg_callbacks cfg)) cfg (OnRssi rssi))
         | None \<Rightarrow> [])
      else if cmd = LCMD_READ_ATT_MTU then map LinkCallback (emit_att_mtu cv cfg)
      else if cmd = LCMD_READ_PHY then
        (case cv_phy cv of
           Some (tx_phy, rx_phy) \<Rightarrow>
             map LinkCallback (emit (on_phy_update (cfg_callbacks cfg)) cfg (OnPhyUpdate (phy_to_c tx_phy) (phy_to_c rx_phy)))
         | None \<Rightarrow> [])
      else if cmd = LCMD_READ_SECURITY then map LinkCallback (emit_security_state cv cfg)
      else [])"

definition link_control_once :: "conn_view \<Rightarrow> RuntimeCfg \<Rightarrow> shared \<Rightarrow> link_req list \<times> shared" where
  "link_control_once cv cfg s =
     (case link_fetch s of
        (None, s') \<Rightarrow> ([], s')
      | (Some cmd, s') \<Rightarrow> (link_execute cv cfg cmd s', s'))"

section \<open>What a call asks for\<close>

text \<open>The contract of the calls as \<^verbatim>\<open>runtime_ble.h\<close> states it, from their arguments: zero
  selects a default, and an impossible range is reported in the log only.\<close>

definition arg_or :: "u16 \<Rightarrow> nat \<Rightarrow> nat" where
  "arg_or w d = (if w = 0 then d else unat w)"

definition spec_conn_params :: "u16 \<Rightarrow> u16 \<Rightarrow> u16 \<Rightarrow> u16 \<Rightarrow> conn_params" where
  "spec_conn_params mn mx l t = \<lparr>cp_min_interval = arg_or mn 80, cp_max_interval = arg_or mx 80,
     cp_max_latency = l, cp_min_event = 0, cp_max_event = 0, cp_timeout = arg_or t 8000\<rparr>"

definition spec_rate_params :: "u16 \<Rightarrow> u16 \<Rightarrow> u16 \<Rightarrow> u16 \<Rightarrow> u16 \<Rightarrow> u16 \<Rightarrow> u16 \<Rightarrow> rate_params" where
  "spec_rate_params mn mx smn smx l cn t = \<lparr>rp_min_interval = arg_or mn 80, rp_max_interval = arg_or mx 80,
     rp_subrate_min = (if smn = 0 then 1 else smn), rp_subrate_max = (if smx = 0 then 1 else smx),
     rp_max_latency = l, rp_continuation = cn, rp_timeout = arg_or t 8000, rp_min_ce = 0, rp_max_ce = 0\<rparr>"

fun link_call_effect :: "conn_view \<Rightarrow> RuntimeCfg \<Rightarrow> link_call \<Rightarrow> link_req list" where
  "link_call_effect cv cfg (SetPhy phy) = [ReqSetPhy (adv_phy_from_c phy)]"
| "link_call_effect cv cfg (UpdateDataLength oc t) =
     [ReqUpdateDataLength (if oc = 0 then 251 else oc) (if t = 0 then 2120 else t)]"
| "link_call_effect cv cfg (UpdateConnParams mn mx l t) =
     (if cv_params_valid cv (spec_conn_params mn mx l t) then [ReqUpdateConnParams (spec_conn_params mn mx l t)]
      else map LinkCallback (log_str cfg ''[link] invalid connection params''))"
| "link_call_effect cv cfg (UpdateFrameSpace mn mx ph ty) =
     (let lo = (if mn = 0 then 150 else unat mn); hi = (if mx = 0 then 10000 else unat mx)
      in if lo > hi then map LinkCallback (log_str cfg ''[link] invalid frame spacing'')
         else [ReqUpdateFrameSpace lo hi
                 (ph = 0 \<or> bit ph 0, ph = 0 \<or> bit ph 1, ph = 0 \<or> bit ph 2)
                 (ty = 0 \<or> bit ty 0, ty = 0 \<or> bit ty 1, bit ty 2, bit ty 3, bit ty 4)])"
| "link_call_effect cv cfg (RequestConnectionRate mn mx smn smx l cn t) =
     (if arg_or mn 80 \<le> arg_or mx 80 \<and> (if smn = 0 then 1 else smn) \<le> (if smx = 0 then 1 else smx)
      then [ReqConnectionRate (spec_rate_params mn mx smn smx l cn t)]
      else map LinkCallback (log_str cfg ''[link] invalid connection rate''))"
| "link_call_effect cv cfg ReadRssi =
     (case cv_rssi cv of None \<Rightarrow> [] | Some r \<Rightarrow> map LinkCallback (emit (on_rssi (cfg_callbacks cfg)) cfg (OnRssi r)))"
| "link_call_effect cv cfg ReadAttMtu = map LinkCallback (emit_att_mtu cv cfg)"
| "link_call_effect cv cfg ReadPhy =
     (case cv_phy cv of None \<Rightarrow> []
      | Some (t, r) \<Rightarrow> map LinkCallback (emit (on_phy_update (cfg_callbacks cfg)) cfg (OnPhyUpdate (phy_to_c t) (phy_to_c r))))"
| "link_call_effect cv cfg ReadSecurity = map LinkCallback (emit_security_state cv cfg)"
| "link_call_effect cv cfg RequestSecurity = [ReqSecurity]"
| "link_call_effect cv cfg (PasskeyConfirm a) = [if a = 0 then ReqPassKeyCancel else ReqPassKeyConfirm]"
| "link_call_effect cv cfg (PasskeyInput p) = [ReqPassKeyInput p]"

lemma ucast_u16_usize: "unat (ucast (w :: u16) :: usize) = unat w" "(ucast w :: usize) = 0 \<longleftrightarrow> w = 0"
proof -
  show 1: "unat (ucast w :: usize) = unat w"
    by (simp add: unsigned_ucast_eq take_bit_nat_eq_self[OF less_le_trans[OF unsigned_less]])
  show "(ucast w :: usize) = 0 \<longleftrightarrow> w = 0"
    using 1 by (metis unat_eq_zero)
qed

lemma ucast_u8_usize: "ucast (ucast (b :: u8) :: usize) = b"
  by (simp add: bit_eq_iff bit_simps)

lemma usize_to_u16_ucast: "usize_to_u16 (ucast w) = w"
proof -
  have "min (ucast w :: usize) 0xFFFF = ucast w" by (rule u16_range_min) simp
  then show ?thesis by (simp add: usize_to_u16_def bit_eq_iff bit_simps)
qed

lemma or_default_ucast: "or_default (ucast w) d = arg_or w d"
  by (simp add: or_default_def arg_or_def ucast_u16_usize)

lemma link_phy_ucast:
  "phy \<in> {1, 2, 3} \<Longrightarrow> LINK_PHY s = ucast (phy :: u8) \<Longrightarrow> link_phy s = adv_phy_from_c phy"
  by (auto simp: link_phy_def adv_phy_from_c_def)

lemmas link_arg_simps = usize_to_u16_ucast or_default_ucast ucast_u16_usize ucast_u8_usize

lemma link_execute_store:
  assumes "link_call_valid c"
  shows "link_execute cv cfg (link_call_cmd c) ((link_store c s)\<lparr>LINK_CMD := LCMD_NONE\<rparr>) = link_call_effect cv cfg c"
proof (cases c)
  case (SetPhy phy)
  then have "link_phy ((link_store c s)\<lparr>LINK_CMD := LCMD_NONE\<rparr>) = adv_phy_from_c phy"
    using assms by (intro link_phy_ucast) auto
  then show ?thesis using SetPhy by (simp add: link_execute_def)
next
  case (UpdateFrameSpace mn mx ph ty)
  then show ?thesis
    by (simp add: link_execute_def lcmd_defs link_frame_space_def or_default_def Let_def link_arg_simps mask_bits)
next
  case (RequestConnectionRate mn mx smn smx l cn t)
  then show ?thesis
    by (auto simp: link_execute_def lcmd_defs link_rate_params_def spec_rate_params_def Let_def link_arg_simps)
next
  case (PasskeyConfirm a)
  then show ?thesis by (simp add: link_execute_def lcmd_defs)
qed (simp_all add: link_execute_def lcmd_defs link_conn_params_def spec_conn_params_def link_arg_simps)

section \<open>Properties\<close>

text \<open>C10 (link_call_executed). End to end: a link-control call accepted while no command is
  waiting makes the next turn of the link loop do exactly what the call asks for, from its own
  arguments with the documented defaults, once; the turn after that does nothing.\<close>

theorem link_call_executed:
  assumes "LINK_CMD s = LCMD_NONE" "link_post c s = (RUNTIME_BLE_OK, s1)"
    and "link_control_once cv cfg s1 = (reqs, s2)"
  shows "reqs = link_call_effect cv cfg c \<and> fst (link_control_once cv cfg s2) = []
     \<and> fst (link_post c' s2) \<noteq> RUNTIME_BLE_ERR_NO_MEM"
proof -
  have v: "link_call_valid c" using assms(2) by (auto simp: link_post_eq result_codes split: if_splits)
  then have s1: "s1 = (link_store c s)\<lparr>LINK_CMD := link_call_cmd c\<rparr>"
    using assms(1,2) by (simp add: link_post_eq link_cmd_def)
  have f: "link_fetch s1 = (Some (link_call_cmd c), (link_store c s)\<lparr>LINK_CMD := LCMD_NONE\<rparr>)"
    using s1 link_call_cmd_not_none[of c] by (simp add: link_fetch_def)
  have r: "reqs = link_call_effect cv cfg c" "s2 = (link_store c s)\<lparr>LINK_CMD := LCMD_NONE\<rparr>"
    using assms(3) f link_execute_store[OF v, of cv cfg s] by (simp_all add: link_control_once_def)
  have "fst (link_control_once cv cfg s2) = []"
    using r(2) by (simp add: link_control_once_def link_fetch_def)
  moreover have "fst (link_post c' s2) \<noteq> RUNTIME_BLE_ERR_NO_MEM"
    using r(2) by (simp add: link_post_eq link_cmd_def result_codes)
  ultimately show ?thesis using r(1) by simp
qed

definition plain_conn :: conn_view where
  "plain_conn = \<lparr>cv_params_valid = (\<lambda>p. cp_min_interval p \<le> cp_max_interval p), cv_rssi = Some (-60),
     cv_phy = Some (Le1M, Le2M), cv_att_mtu = 247, cv_security_level = Some Encrypted, cv_key_len = Some 16,
     cv_bonded_peer = True\<rparr>"

theorem link_call_executed_witness:
  "\<exists>s1 s2. link_post (UpdateDataLength 0 1000) shared_init = (RUNTIME_BLE_OK, s1)
     \<and> link_control_once plain_conn (flatten_config zero_config) s1 = ([ReqUpdateDataLength 251 1000], s2)"
proof -
  obtain s1 where s1: "link_post (UpdateDataLength 0 1000) shared_init = (RUNTIME_BLE_OK, s1)"
    by (simp add: link_api_defs shared_init_def)
  obtain reqs s2 where s2: "link_control_once plain_conn (flatten_config zero_config) s1 = (reqs, s2)" by fastforce
  have "LINK_CMD shared_init = LCMD_NONE" by (simp add: shared_init_def)
  from link_call_executed[OF this s1 s2] show ?thesis using s1 s2 by simp
qed

end
