(* ===== verification/Bonds.thy ===== *)
theory Bonds
  imports Codes
begin

text \<open>
  Bonds of \<^verbatim>\<open>radio.rs\<close>: the 53-byte blob a bond is stored as (\<^verbatim>\<open>serialize_bond\<close>,
  \<^verbatim>\<open>deserialize_bond\<close>, with the 42-byte legacy version 1), and the operations of the
  Bluetooth host on bonds, which are parameters: the construction of a bond, the equality of
  identities and the host's own bond table.
\<close>

section \<open>Bond information\<close>

record ('k, 'i) identity =
  id_addr :: "'k address"
  id_irk :: "'i option"

record ('k, 'l, 'i) bond =
  bond_identity :: "('k, 'i) identity"
  bond_ltk :: 'l
  bond_level :: security_level
  is_bonded :: bool
  bond_ediv :: u16
  bond_rand :: "u8 list"
  encryption_key_len :: u8

text \<open>The host (\<^verbatim>\<open>trouble_host\<close>): \<^verbatim>\<open>Identity::eq\<close>, \<^verbatim>\<open>BondInformation::new\<close> and the methods of
  \<^verbatim>\<open>Stack\<close> on its bond table, whose state is \<open>'st\<close>.\<close>

record ('k, 'l, 'i, 'st) host_ops =
  id_eq :: "('k, 'i) identity \<Rightarrow> ('k, 'i) identity \<Rightarrow> bool"
  bond_new :: "('k, 'i) identity \<Rightarrow> 'l \<Rightarrow> security_level \<Rightarrow> bool \<Rightarrow> ('k, 'l, 'i) bond"
  add_bond_information :: "('k, 'l, 'i) bond \<Rightarrow> 'st \<Rightarrow> bool \<times> 'st"
  remove_bond_information :: "('k, 'i) identity \<Rightarrow> 'st \<Rightarrow> bool \<times> 'st"
  bond_information :: "'st \<Rightarrow> ('k, 'l, 'i) bond list"
  set_io_capabilities :: "io_capabilities \<Rightarrow> 'st \<Rightarrow> 'st"

text \<open>Identities are compared by value, and a new bond has the fields it is made from.\<close>

definition host_ok :: "('k, 'l, 'i, 'st) host_ops \<Rightarrow> bool" where
  "host_ok h \<longleftrightarrow>
     (\<forall>a b. id_eq h a b \<longleftrightarrow> a = b) \<and>
     (\<forall>i l s b. bond_identity (bond_new h i l s b) = i \<and> bond_ltk (bond_new h i l s b) = l
        \<and> bond_level (bond_new h i l s b) = s \<and> is_bonded (bond_new h i l s b) = b)"

definition host_std :: "(u8, 128 word, 128 word, (u8, 128 word, 128 word) bond list) host_ops" where
  "host_std = \<lparr>id_eq = (=),
     bond_new = (\<lambda>i l s b. \<lparr>bond_identity = i, bond_ltk = l, bond_level = s, is_bonded = b,
        bond_ediv = 0, bond_rand = replicate 8 0, encryption_key_len = 16\<rparr>),
     add_bond_information = (\<lambda>b st. (True, st @ [b])),
     remove_bond_information = (\<lambda>i st. (i \<in> bond_identity ` set st, filter (\<lambda>b. bond_identity b \<noteq> i) st)),
     bond_information = (\<lambda>st. st),
     set_io_capabilities = (\<lambda>_ st. st)\<rparr>"

lemma host_ok_std [simp]: "host_ok host_std"
  by (simp add: host_ok_def host_std_def)

lemma host_okD:
  assumes "host_ok h"
  shows "id_eq h a b \<longleftrightarrow> a = b"
    "bond_identity (bond_new h i l s c) = i" "bond_ltk (bond_new h i l s c) = l"
    "bond_level (bond_new h i l s c) = s" "is_bonded (bond_new h i l s c) = c"
  using assms by (auto simp: host_ok_def)

section \<open>The blob\<close>

definition BOND_BLOB_LEN :: nat where "BOND_BLOB_LEN = 53"
definition BOND_BLOB_VERSION :: u8 where "BOND_BLOB_VERSION = 2"
definition BOND_BLOB_VERSION_LEGACY :: u8 where "BOND_BLOB_VERSION_LEGACY = 1"

lemmas blob_consts = BOND_BLOB_LEN_def BOND_BLOB_VERSION_def BOND_BLOB_VERSION_LEGACY_def

definition serialize_bond :: "('k, 'l, 'i) bt_ops \<Rightarrow> ('k, 'l, 'i) bond \<Rightarrow> u8 list" where
  "serialize_bond bt b =
     (let out = replicate BOND_BLOB_LEN 0;
          out = out[0 := BOND_BLOB_VERSION];
          out = out[1 := of_bool (is_bonded b) OR push_bit 1 (of_bool (id_irk (bond_identity b) \<noteq> None))];
          out = out[2 := security_level_to_c (bond_level b)];
          out = out[3 := ak_raw bt (addr_kind (id_addr (bond_identity b)))];
          out = blit out 4 (addr_raw (id_addr (bond_identity b)));
          out = blit out 10 (ltk_to_le bt (bond_ltk b));
          out = (case id_irk (bond_identity b) of None \<Rightarrow> out | Some irk \<Rightarrow> blit out 26 (irk_to_le bt irk));
          out = blit out 42 (u16_to_le_bytes (bond_ediv b));
          out = blit out 44 (bond_rand b);
          out = out[52 := encryption_key_len b]
      in out)"

text \<open>\<open>blob[a..b]\<close>, in range.\<close>

definition slice :: "'a list \<Rightarrow> nat \<Rightarrow> nat \<Rightarrow> 'a list" where
  "slice xs a b = take (b - a) (drop a xs)"

definition deserialize_bond ::
  "('k, 'l, 'i) bt_ops \<Rightarrow> ('k, 'l, 'i, 'st) host_ops \<Rightarrow> u8 list \<Rightarrow> ('k, 'l, 'i) bond option" where
  "deserialize_bond bt h blob =
     (if length blob < 42 \<or> (blob ! 0 \<noteq> BOND_BLOB_VERSION \<and> blob ! 0 \<noteq> BOND_BLOB_VERSION_LEGACY)
      then None
      else if blob ! 0 = BOND_BLOB_VERSION \<and> length blob < BOND_BLOB_LEN then None
      else case c_to_security_level (blob ! 2) of
        None \<Rightarrow> None
      | Some security_level \<Rightarrow>
          let addr = slice blob 4 10;
              ltk = slice blob 10 26;
              irk = (if blob ! 1 AND 0x02 \<noteq> 0 then irk_from_le bt (slice blob 26 42) else None);
              bond = bond_new h
                \<lparr>id_addr = \<lparr>addr_kind = ak_new bt (blob ! 3), addr_raw = addr\<rparr>, id_irk = irk\<rparr>
                (ltk_from_le bt ltk) security_level (blob ! 1 AND 0x01 \<noteq> 0);
              bond = (if blob ! 0 = BOND_BLOB_VERSION
                      then bond\<lparr>bond_ediv := u16_from_le_bytes (blob ! 42) (blob ! 43),
                                bond_rand := slice blob 44 52,
                                encryption_key_len := blob ! 52\<rparr>
                      else bond)
          in Some bond)"

text \<open>A bond as the host holds it: a 6-byte address and an 8-byte random number.\<close>

definition bond_wf :: "('k, 'l, 'i) bond \<Rightarrow> bool" where
  "bond_wf b \<longleftrightarrow> length (addr_raw (id_addr (bond_identity b))) = 6 \<and> length (bond_rand b) = 8"

section \<open>The layout of the blob\<close>

definition irk_bytes :: "('k, 'l, 'i) bt_ops \<Rightarrow> ('k, 'l, 'i) bond \<Rightarrow> u8 list" where
  "irk_bytes bt b = (case id_irk (bond_identity b) of None \<Rightarrow> replicate 16 0 | Some irk \<Rightarrow> irk_to_le bt irk)"

definition bond_flags :: "('k, 'l, 'i) bond \<Rightarrow> u8" where
  "bond_flags b = of_bool (is_bonded b) OR push_bit 1 (of_bool (id_irk (bond_identity b) \<noteq> None))"

lemma blit_append_prefix: "length p = off \<Longrightarrow> blit (p @ q) off xs = p @ xs @ drop (length xs) q"
  by (simp add: blit_def)

lemma blit_replicate:
  assumes "length p = off" "length xs \<le> n"
  shows "blit (p @ replicate n 0) off xs = (p @ xs) @ replicate (n - length xs) 0"
  using assms by (simp add: blit_append_prefix)

lemma serialize_bond_layout:
  assumes "bt_ok bt" "bond_wf b"
  shows "serialize_bond bt b =
    [BOND_BLOB_VERSION, bond_flags b, security_level_to_c (bond_level b),
     ak_raw bt (addr_kind (id_addr (bond_identity b)))]
    @ addr_raw (id_addr (bond_identity b)) @ ltk_to_le bt (bond_ltk b) @ irk_bytes bt b
    @ u16_to_le_bytes (bond_ediv b) @ bond_rand b @ [encryption_key_len b]"
proof -
  let ?hd = "[BOND_BLOB_VERSION, bond_flags b, security_level_to_c (bond_level b),
     ak_raw bt (addr_kind (id_addr (bond_identity b)))]"
  note len = bt_okD(4,6)[OF assms(1)] assms(2)[unfolded bond_wf_def]
  let ?a = "addr_raw (id_addr (bond_identity b))"
  let ?l = "ltk_to_le bt (bond_ltk b)"
  have "replicate 53 (0::u8) = replicate 4 0 @ replicate 49 0" by (simp add: replicate_add[symmetric])
  then have 1: "(replicate 53 (0::u8))[0 := BOND_BLOB_VERSION, 1 := bond_flags b,
      2 := security_level_to_c (bond_level b), 3 := ak_raw bt (addr_kind (id_addr (bond_identity b)))]
      = ?hd @ replicate 49 0"
    by (simp add: numeral_eq_Suc)
  have 2: "blit (?hd @ replicate 49 0) 4 ?a = (?hd @ ?a) @ replicate 43 0"
    by (subst blit_replicate) (use len in simp_all)
  have 3: "blit ((?hd @ ?a) @ replicate 43 0) 10 ?l = (?hd @ ?a @ ?l) @ replicate 27 0"
    by (subst blit_replicate) (use len in simp_all)
  have z: "replicate 27 (0::u8) = replicate 16 0 @ replicate 11 0" by (simp add: replicate_add[symmetric])
  have 4: "(case id_irk (bond_identity b) of None \<Rightarrow> (?hd @ ?a @ ?l) @ replicate 27 0
      | Some irk \<Rightarrow> blit ((?hd @ ?a @ ?l) @ replicate 27 0) 26 (irk_to_le bt irk))
      = (?hd @ ?a @ ?l @ irk_bytes bt b) @ replicate 11 0"
  proof (cases "id_irk (bond_identity b)")
    case None
    then show ?thesis unfolding z by (simp add: irk_bytes_def)
  next
    case (Some irk)
    have "blit ((?hd @ ?a @ ?l) @ replicate 27 0) 26 (irk_to_le bt irk)
        = ((?hd @ ?a @ ?l) @ irk_to_le bt irk) @ replicate 11 0"
      by (subst blit_replicate) (use len in simp_all)
    then show ?thesis using Some by (simp add: irk_bytes_def)
  qed
  have il: "length (irk_bytes bt b) = 16" using len by (simp add: irk_bytes_def split: option.split)
  have 5: "blit ((?hd @ ?a @ ?l @ irk_bytes bt b) @ replicate 11 0) 42 (u16_to_le_bytes (bond_ediv b))
      = (?hd @ ?a @ ?l @ irk_bytes bt b @ u16_to_le_bytes (bond_ediv b)) @ replicate 9 0"
    by (subst blit_replicate) (use len il in simp_all)
  have 6: "blit ((?hd @ ?a @ ?l @ irk_bytes bt b @ u16_to_le_bytes (bond_ediv b)) @ replicate 9 0) 44 (bond_rand b)
      = (?hd @ ?a @ ?l @ irk_bytes bt b @ u16_to_le_bytes (bond_ediv b) @ bond_rand b) @ replicate 1 0"
    by (subst blit_replicate) (use len il in simp_all)
  have 7: "((?hd @ ?a @ ?l @ irk_bytes bt b @ u16_to_le_bytes (bond_ediv b) @ bond_rand b) @ replicate 1 0)
        [52 := encryption_key_len b]
      = (?hd @ ?a @ ?l @ irk_bytes bt b @ u16_to_le_bytes (bond_ediv b) @ bond_rand b) @ [encryption_key_len b]"
    using len il by (simp add: list_update_append)
  show ?thesis
    unfolding serialize_bond_def Let_def BOND_BLOB_LEN_def bond_flags_def[symmetric] 1 2 3 4 5 6 7
    by simp
qed

lemma length_serialize_bond: "bt_ok bt \<Longrightarrow> bond_wf b \<Longrightarrow> length (serialize_bond bt b) = BOND_BLOB_LEN"
  by (simp add: serialize_bond_layout bt_okD bond_wf_def irk_bytes_def BOND_BLOB_LEN_def split: option.split)

text \<open>What \<open>deserialize_bond\<close> makes of a blob, part by part.\<close>

lemma slice_mid: "length p = a \<Longrightarrow> length q = b - a \<Longrightarrow> slice (p @ q @ r) a b = q"
  by (simp add: slice_def)

lemma slice_tail: "length p = n \<Longrightarrow> n \<le> a \<Longrightarrow> slice (p @ r) a b = slice r (a - n) (b - n)"
  by (simp add: slice_def)

lemma deserialize_layout:
  assumes len: "length a = 6" "length l = 16" "length i = 16"
    and v: "v = BOND_BLOB_VERSION \<and> 11 \<le> length rest \<or> v = BOND_BLOB_VERSION_LEGACY"
    and lv: "c_to_security_level lv = Some sl"
  shows "deserialize_bond bt h ([v, fl, lv, kd] @ a @ l @ i @ rest) =
    (let bond = bond_new h \<lparr>id_addr = \<lparr>addr_kind = ak_new bt kd, addr_raw = a\<rparr>,
                    id_irk = (if fl AND 2 \<noteq> 0 then irk_from_le bt i else None)\<rparr>
                  (ltk_from_le bt l) sl (fl AND 1 \<noteq> 0)
     in Some (if v = BOND_BLOB_VERSION
              then bond\<lparr>bond_ediv := u16_from_le_bytes (rest ! 0) (rest ! 1),
                        bond_rand := slice rest 2 10, encryption_key_len := rest ! 10\<rparr>
              else bond))"
proof -
  let ?b = "[v, fl, lv, kd] @ a @ l @ i @ rest"
  have s1: "slice ?b 4 10 = a" using len by (intro slice_mid) simp_all
  have s2: "slice (([v, fl, lv, kd] @ a) @ l @ (i @ rest)) 10 26 = l" using len by (intro slice_mid) simp_all
  have s3: "slice (([v, fl, lv, kd] @ a @ l) @ i @ rest) 26 42 = i" using len by (intro slice_mid) simp_all
  have s4: "slice (([v, fl, lv, kd] @ a @ l @ i) @ rest) 44 52 = slice rest 2 10"
    using len by (subst slice_tail[where n = 42]) simp_all
  have n: "?b ! 0 = v" "?b ! 1 = fl" "?b ! 2 = lv" "?b ! 3 = kd"
    "?b ! 42 = rest ! 0" "?b ! 43 = rest ! 1" "?b ! 52 = rest ! 10" "length ?b = 42 + length rest"
    using len by (simp_all add: nth_append)
  have ne: "BOND_BLOB_VERSION_LEGACY \<noteq> BOND_BLOB_VERSION" by (simp add: blob_consts)
  show ?thesis
    unfolding deserialize_bond_def n lv
    using s1 s2 s3 s4 v ne by (auto simp: Let_def BOND_BLOB_LEN_def)
qed

lemma bond_flags_bits: "bond_flags b AND 2 = 0 \<longleftrightarrow> id_irk (bond_identity b) = None"
  "bond_flags b AND 1 = 0 \<longleftrightarrow> \<not> is_bonded b"
  by (auto simp: bond_flags_def mask_bits bit_simps)

text \<open>The fields both versions keep.\<close>

definition same_core :: "('k, 'l, 'i) bond \<Rightarrow> ('k, 'l, 'i) bond \<Rightarrow> bool" where
  "same_core x y \<longleftrightarrow> bond_identity x = bond_identity y \<and> bond_ltk x = bond_ltk y
     \<and> bond_level x = bond_level y \<and> is_bonded x = is_bonded y"

lemma identity_restored:
  assumes "bt_ok bt"
  shows "\<lparr>id_addr = \<lparr>addr_kind = ak_new bt (ak_raw bt (addr_kind (id_addr (bond_identity b)))),
       addr_raw = addr_raw (id_addr (bond_identity b))\<rparr>,
     id_irk = (if bond_flags b AND 2 \<noteq> 0 then irk_from_le bt (irk_bytes bt b) else None)\<rparr>
   = bond_identity b"
proof -
  have "(if bond_flags b AND 2 \<noteq> 0 then irk_from_le bt (irk_bytes bt b) else None) = id_irk (bond_identity b)"
    using bt_okD(7)[OF assms] by (auto simp: bond_flags_bits irk_bytes_def)
  then show ?thesis using bt_okD(3)[OF assms] by simp
qed

lemma bond_rebuilt:
  assumes "host_ok h"
  shows "bond_new h (bond_identity b) (bond_ltk b) (bond_level b) (is_bonded b)
     \<lparr>bond_ediv := bond_ediv b, bond_rand := bond_rand b, encryption_key_len := encryption_key_len b\<rparr> = b"
  by (rule bond.equality) (simp_all add: host_okD[OF assms])

lemma bond_blob_restored:
  assumes "bt_ok bt" "host_ok h" "bond_wf b"
  shows "deserialize_bond bt h (serialize_bond bt b) = Some b" "length (serialize_bond bt b) = 53"
proof -
  note len = bt_okD(4,6)[OF assms(1)] assms(3)[unfolded bond_wf_def]
  let ?rest = "u16_to_le_bytes (bond_ediv b) @ bond_rand b @ [encryption_key_len b]"
  have il: "length (irk_bytes bt b) = 16" using len by (simp add: irk_bytes_def split: option.split)
  have r: "11 \<le> length ?rest" using len by simp
  have n: "?rest ! 0 = u16_to_le_bytes (bond_ediv b) ! 0" "?rest ! 1 = u16_to_le_bytes (bond_ediv b) ! 1"
    "?rest ! 10 = encryption_key_len b"
    using len by (simp_all add: nth_append)
  have rnd: "slice ?rest 2 10 = bond_rand b" using len by (intro slice_mid) simp_all
  have bonded: "(bond_flags b AND 1 \<noteq> 0) = is_bonded b" by (simp add: bond_flags_bits)
  have "deserialize_bond bt h (serialize_bond bt b) =
    Some (bond_new h (bond_identity b) (bond_ltk b) (bond_level b) (is_bonded b)
      \<lparr>bond_ediv := bond_ediv b, bond_rand := bond_rand b, encryption_key_len := encryption_key_len b\<rparr>)"
    unfolding serialize_bond_layout[OF assms(1,3)]
    using len il r
    by (subst deserialize_layout[OF _ _ _ _ c_to_security_level_to_c])
      (simp_all only: Let_def n rnd u16_le_roundtrip identity_restored[OF assms(1)] bonded
        bt_okD(5)[OF assms(1)] if_True simp_thms)
  then show "deserialize_bond bt h (serialize_bond bt b) = Some b"
    by (simp only: bond_rebuilt[OF assms(2)])
  show "length (serialize_bond bt b) = 53"
    using length_serialize_bond[OF assms(1,3)] by (simp add: BOND_BLOB_LEN_def)
qed

section \<open>Properties\<close>

text \<open>C18 (bond_blob_roundtrip). Every bond is restored from its blob exactly as it was
  stored: identity with its resolving key, long term key, security level, the bonded flag,
  the diversifier, the random number and the key length; the blob is 53 bytes long.\<close>

theorem bond_blob_roundtrip:
  assumes "bt_ok bt" "host_ok h" "bond_wf b"
  shows "deserialize_bond bt h (serialize_bond bt b) = Some b \<and> length (serialize_bond bt b) = 53"
  using bond_blob_restored[OF assms] by blast

definition demo_bond :: "(u8, 128 word, 128 word) bond" where
  "demo_bond = \<lparr>bond_identity = \<lparr>id_addr = \<lparr>addr_kind = 1, addr_raw = [1, 2, 3, 4, 5, 6]\<rparr>, id_irk = Some 77\<rparr>,
     bond_ltk = 12345, bond_level = EncryptedAuthenticated, is_bonded = True, bond_ediv = 513,
     bond_rand = [1, 2, 3, 4, 5, 6, 7, 8], encryption_key_len = 16\<rparr>"

lemma bond_wf_demo [simp]: "bond_wf demo_bond"
  by (simp add: bond_wf_def demo_bond_def)

theorem bond_blob_roundtrip_witness:
  "deserialize_bond bt_std host_std (serialize_bond bt_std demo_bond) = Some demo_bond"
  using bond_blob_roundtrip[OF bt_ok_std host_ok_std bond_wf_demo] by blast

text \<open>Result (bond_blob_legacy). A blob of the first version, the first 42 bytes under version
  number 1, is still accepted: the identity, the long term key, the security level and the
  bonded flag are those stored, and the fields the version lacks are the host's defaults.\<close>

theorem bond_blob_legacy:
  assumes "bt_ok bt" "host_ok h" "bond_wf b"
  shows "\<exists>b'. deserialize_bond bt h ((take 42 (serialize_bond bt b))[0 := BOND_BLOB_VERSION_LEGACY]) = Some b'
     \<and> same_core b' b
     \<and> b' = bond_new h (bond_identity b) (bond_ltk b) (bond_level b) (is_bonded b)"
proof -
  note len = bt_okD(4,6)[OF assms(1)] assms(3)[unfolded bond_wf_def]
  have il: "length (irk_bytes bt b) = 16" using len by (simp add: irk_bytes_def split: option.split)
  have ne: "BOND_BLOB_VERSION_LEGACY \<noteq> BOND_BLOB_VERSION" by (simp add: blob_consts)
  have bonded: "(bond_flags b AND 1 \<noteq> 0) = is_bonded b" by (simp add: bond_flags_bits)
  have t: "(take 42 (serialize_bond bt b))[0 := BOND_BLOB_VERSION_LEGACY] =
    [BOND_BLOB_VERSION_LEGACY, bond_flags b, security_level_to_c (bond_level b),
     ak_raw bt (addr_kind (id_addr (bond_identity b)))]
    @ addr_raw (id_addr (bond_identity b)) @ ltk_to_le bt (bond_ltk b) @ irk_bytes bt b @ []"
    unfolding serialize_bond_layout[OF assms(1,3)] using len il by simp
  have "deserialize_bond bt h ((take 42 (serialize_bond bt b))[0 := BOND_BLOB_VERSION_LEGACY])
      = Some (bond_new h (bond_identity b) (bond_ltk b) (bond_level b) (is_bonded b))"
    unfolding t using len il ne
    by (subst deserialize_layout[OF _ _ _ _ c_to_security_level_to_c])
      (simp_all only: Let_def identity_restored[OF assms(1)] bonded bt_okD(5)[OF assms(1)] if_False simp_thms)
  then show ?thesis by (simp add: same_core_def host_okD[OF assms(2)])
qed

theorem bond_blob_legacy_witness:
  "\<exists>b'. deserialize_bond bt_std host_std ((take 42 (serialize_bond bt_std demo_bond))[0 := 1]) = Some b'
     \<and> same_core b' demo_bond \<and> encryption_key_len b' = 16"
  using bond_blob_legacy[OF bt_ok_std host_ok_std bond_wf_demo]
  by (auto simp: BOND_BLOB_VERSION_LEGACY_def host_std_def)

text \<open>Result (bond_blob_rejected_iff). Nothing else is accepted, and nothing is read out of
  bounds: a blob is refused exactly when it is shorter than 42 bytes, has an unknown version,
  is a version 2 blob shorter than 53 bytes, or names an unknown security level.\<close>

theorem bond_blob_rejected_iff:
  "deserialize_bond bt h blob = None \<longleftrightarrow>
     length blob < 42
     \<or> (blob ! 0 \<noteq> 1 \<and> blob ! 0 \<noteq> 2)
     \<or> (blob ! 0 = 2 \<and> length blob < 53)
     \<or> blob ! 2 > 2"
proof -
  have "c_to_security_level (blob ! 2) = None \<longleftrightarrow> blob ! 2 > 2"
  proof -
    have "x > 2 \<longleftrightarrow> x \<noteq> 0 \<and> x \<noteq> 1 \<and> x \<noteq> 2" for x :: u8
      by (auto simp: word_less_nat_alt word_unat_eq_iff)
    then show ?thesis by (simp add: c_to_security_level_def)
  qed
  then show ?thesis
    by (auto simp: deserialize_bond_def blob_consts Let_def split: option.splits)
qed

end
