(* ===== verification/BondSlots.thy ===== *)
theory BondSlots
  imports Bonds BondApi
begin

text \<open>
  The slot table of \<^verbatim>\<open>radio.rs\<close>, which says in which of the application's storage slots the
  bond of an identity lives, and the operations on it: restoring the bonds at the start of a
  session, storing a new bond, enumerating and deleting bonds, and the administration loop.
  The table is a \<^verbatim>\<open>heapless::Vec\<close> of capacity \<open>BOND_SLOT_CAP\<close>; the host's own bond table is
  the state \<open>'st\<close> of the parameter \<open>h\<close>. The application's storage is reached through the
  callbacks \<^verbatim>\<open>on_bond_load\<close> and \<^verbatim>\<open>on_bond_store\<close> only.
\<close>

section \<open>Operations\<close>

type_synonym ('k, 'i) slot_table = "(('k, 'i) identity \<times> u8) list"

definition BOND_SLOT_CAP :: nat where "BOND_SLOT_CAP = 4"

definition bond_slot_count :: "RuntimeCfg \<Rightarrow> u8" where
  "bond_slot_count cfg =
     (let n = (if cfg_bond_slot_count cfg = 0 then of_nat BOND_SLOT_CAP else cfg_bond_slot_count cfg)
      in min n (of_nat BOND_SLOT_CAP))"

text \<open>One iteration of the loop of \<^verbatim>\<open>restore_bonds\<close>. The callback writes at the front of a
  zeroed buffer; the count it returns is cut to the size of the buffer.\<close>

definition restore_one ::
  "('k, 'l, 'i) bt_ops \<Rightarrow> ('k, 'l, 'i, 'st) host_ops \<Rightarrow> (('k, 'i) identity \<times> u8) hvec \<Rightarrow> RuntimeCfg \<Rightarrow>
     (u8 \<Rightarrow> nat \<Rightarrow> u8 list \<times> nat) \<Rightarrow> u8 \<Rightarrow> 'st \<times> ('k, 'i) slot_table \<Rightarrow>
     cb_event list \<times> 'st \<times> ('k, 'i) slot_table" where
  "restore_one bt h hv cfg load index s =
     (let (st, slots) = s;
          (bytes, ret) = load index BOND_BLOB_LEN;
          blob = take BOND_BLOB_LEN (bytes @ replicate BOND_BLOB_LEN 0);
          len = min ret BOND_BLOB_LEN;
          ev = [(OnBondLoad index BOND_BLOB_LEN, cfg_user cfg)]
      in if len = 0 then (ev, st, slots)
         else case deserialize_bond bt h (take len blob) of
           None \<Rightarrow> (ev @ log_str cfg ''[security] ignored invalid bond blob'', st, slots)
         | Some bond \<Rightarrow>
             let (ok, st') = add_bond_information h bond st
             in if ok
                then (ev, st', case hv_push hv slots (bond_identity bond, index) of
                                 None \<Rightarrow> slots | Some slots' \<Rightarrow> slots')
                else (ev, st', slots))"

primrec restore_loop ::
  "('k, 'l, 'i) bt_ops \<Rightarrow> ('k, 'l, 'i, 'st) host_ops \<Rightarrow> (('k, 'i) identity \<times> u8) hvec \<Rightarrow> RuntimeCfg \<Rightarrow>
     (u8 \<Rightarrow> nat \<Rightarrow> u8 list \<times> nat) \<Rightarrow> u8 list \<Rightarrow> 'st \<times> ('k, 'i) slot_table \<Rightarrow>
     cb_event list \<times> 'st \<times> ('k, 'i) slot_table" where
  "restore_loop bt h hv cfg load [] s = ([], s)"
| "restore_loop bt h hv cfg load (i # is) s =
     (let (e1, s1) = restore_one bt h hv cfg load i s;
          (e2, s2) = restore_loop bt h hv cfg load is s1
      in (e1 @ e2, s2))"

text \<open>The range \<^verbatim>\<open>0..n\<close> of slot numbers.\<close>

definition slot_range :: "u8 \<Rightarrow> u8 list" where
  "slot_range n = map of_nat [0..<unat n]"

definition restore_bonds ::
  "('k, 'l, 'i) bt_ops \<Rightarrow> ('k, 'l, 'i, 'st) host_ops \<Rightarrow> (('k, 'i) identity \<times> u8) hvec \<Rightarrow> RuntimeCfg \<Rightarrow>
     'st \<times> ('k, 'i) slot_table \<Rightarrow> cb_event list \<times> 'st \<times> ('k, 'i) slot_table" where
  "restore_bonds bt h hv cfg s =
     (case on_bond_load (cfg_callbacks cfg) of
        None \<Rightarrow> ([], s)
      | Some load \<Rightarrow> restore_loop bt h hv cfg load (slot_range (bond_slot_count cfg)) s)"

definition find_identity ::
  "('k, 'l, 'i, 'st) host_ops \<Rightarrow> ('k, 'i) identity \<Rightarrow> ('k, 'i) slot_table \<Rightarrow> (('k, 'i) identity \<times> u8) option" where
  "find_identity h identity slots = find (\<lambda>(i, _). id_eq h i identity) slots"

definition store_bond ::
  "('k, 'l, 'i) bt_ops \<Rightarrow> ('k, 'l, 'i, 'st) host_ops \<Rightarrow> (('k, 'i) identity \<times> u8) hvec \<Rightarrow> RuntimeCfg \<Rightarrow>
     ('k, 'l, 'i) bond \<Rightarrow> ('k, 'i) slot_table \<Rightarrow> cb_event list \<times> ('k, 'i) slot_table" where
  "store_bond bt h hv cfg bond slots =
     (if \<not> on_bond_store (cfg_callbacks cfg) then ([], slots)
      else if bond_slot_count cfg = 0 then ([], slots)
      else
        let (slot, slots') =
              (case find_identity h (bond_identity bond) slots of
                 Some (_, existing) \<Rightarrow> (existing, slots)
               | None \<Rightarrow>
                   if length slots < unat (bond_slot_count cfg)
                   then (of_nat (length slots),
                         case hv_push hv slots (bond_identity bond, of_nat (length slots)) of
                           None \<Rightarrow> slots | Some slots' \<Rightarrow> slots')
                   else if slots \<noteq> [] then (0, slots[0 := (bond_identity bond, 0)])
                   else (0, slots))
        in ([(OnBondStore slot (Some (serialize_bond bt bond)), cfg_user cfg)], slots'))"

definition bond_slot_for ::
  "('k, 'l, 'i, 'st) host_ops \<Rightarrow> ('k, 'i) slot_table \<Rightarrow> ('k, 'i) identity \<Rightarrow> u8" where
  "bond_slot_for h slots identity = unwrap_or (map_option snd (find_identity h identity slots)) 0xff"

definition emit_bonds ::
  "('k, 'l, 'i) bt_ops \<Rightarrow> ('k, 'l, 'i, 'st) host_ops \<Rightarrow> RuntimeCfg \<Rightarrow> 'st \<Rightarrow> ('k, 'i) slot_table \<Rightarrow>
     cb_event list" where
  "emit_bonds bt h cfg st slots =
     (if \<not> on_bond (cfg_callbacks cfg) then []
      else map (\<lambda>b. (OnBond (bond_slot_for h slots (bond_identity b))
                       (addr_raw (id_addr (bond_identity b)))
                       (ak_raw bt (addr_kind (id_addr (bond_identity b))))
                       (security_level_to_c (bond_level b))
                       (encryption_key_len b)
                       (if is_bonded b then 1 else 0), cfg_user cfg)) (bond_information h st))"

definition complete_bond_delete :: "RuntimeCfg \<Rightarrow> u8 \<Rightarrow> bool \<Rightarrow> cb_event list" where
  "complete_bond_delete cfg index ok =
     emit (on_bond_deleted (cfg_callbacks cfg)) cfg (OnBondDeleted index (if ok then 0 else -1))"

definition clear_bond_slot :: "RuntimeCfg \<Rightarrow> u8 \<Rightarrow> cb_event list" where
  "clear_bond_slot cfg index = emit (on_bond_store (cfg_callbacks cfg)) cfg (OnBondStore index None)"

definition delete_bond_slot ::
  "('k, 'l, 'i, 'st) host_ops \<Rightarrow> (('k, 'i) identity \<times> u8) hvec \<Rightarrow> RuntimeCfg \<Rightarrow> u8 \<Rightarrow>
     'st \<times> ('k, 'i) slot_table \<Rightarrow> bool \<times> cb_event list \<times> 'st \<times> ('k, 'i) slot_table" where
  "delete_bond_slot h hv cfg index s =
     (let (st, slots) = s in
      case find (\<lambda>(_, slot). slot = index) slots of
        None \<Rightarrow> (False, clear_bond_slot cfg index @ complete_bond_delete cfg index False, st, slots)
      | Some (identity, _) \<Rightarrow>
          let (ok, st') = remove_bond_information h identity st
          in if ok
             then (True, clear_bond_slot cfg index @ complete_bond_delete cfg index True, st',
                   hv_retain hv (\<lambda>(_, slot). slot \<noteq> index) slots)
             else (False, complete_bond_delete cfg index False, st', slots))"

primrec delete_slots ::
  "('k, 'l, 'i, 'st) host_ops \<Rightarrow> (('k, 'i) identity \<times> u8) hvec \<Rightarrow> RuntimeCfg \<Rightarrow> u8 list \<Rightarrow>
     'st \<times> ('k, 'i) slot_table \<Rightarrow> cb_event list \<times> 'st \<times> ('k, 'i) slot_table" where
  "delete_slots h hv cfg [] s = ([], s)"
| "delete_slots h hv cfg (i # is) s =
     (let (_, e1, s1) = delete_bond_slot h hv cfg i s; (e2, s2) = delete_slots h hv cfg is s1
      in (e1 @ e2, s2))"

text \<open>One turn of \<^verbatim>\<open>bond_admin_loop\<close>; the flag says that the loop returned.\<close>

definition bond_admin_turn ::
  "('k, 'l, 'i) bt_ops \<Rightarrow> ('k, 'l, 'i, 'st) host_ops \<Rightarrow> (('k, 'i) identity \<times> u8) hvec \<Rightarrow> RuntimeCfg \<Rightarrow>
     'st \<times> ('k, 'i) slot_table \<Rightarrow> shared \<Rightarrow>
     cb_event list \<times> ('st \<times> ('k, 'i) slot_table) \<times> shared \<times> bool" where
  "bond_admin_turn bt h hv cfg s sh =
     (if UNLOAD_REQ sh then ([], s, sh, True)
      else
        let (req, sh') = bond_fetch sh in
        case req of
          Some ReqEnumerate \<Rightarrow> (emit_bonds bt h cfg (fst s) (snd s), s, sh', False)
        | Some (ReqDelete index) \<Rightarrow>
            let (_, ev, s') = delete_bond_slot h hv cfg index s in (ev, s', sh', False)
        | Some ReqDeleteAll \<Rightarrow>
            let (ev, s') = delete_slots h hv cfg (slot_range (bond_slot_count cfg)) s
            in (ev, s', sh', False)
        | Some (ReqSetIoCapability cap) \<Rightarrow>
            ([], (set_io_capabilities h (io_capability_from_c cap) (fst s), snd s), sh', False)
        | _ \<Rightarrow> ([], s, sh', False))"

section \<open>Slot numbers\<close>

lemma bond_slot_count_bounds: "1 \<le> unat (bond_slot_count cfg)" "unat (bond_slot_count cfg) \<le> 4"
  "bond_slot_count cfg \<noteq> 0"
proof -
  let ?n = "bond_slot_count cfg"
  show le: "unat ?n \<le> 4"
    by (simp add: bond_slot_count_def BOND_SLOT_CAP_def Let_def min_def word_le_nat_alt)
  show "?n \<noteq> 0" by (simp add: bond_slot_count_def BOND_SLOT_CAP_def Let_def min_def)
  then show "1 \<le> unat ?n" by (simp add: Suc_le_eq unat_gt_0)
qed

lemma unat_slot: "k \<le> 4 \<Longrightarrow> unat (of_nat k :: u8) = k"
  by (simp add: unat_of_nat)

lemma slot_range_distinct: "distinct (slot_range (bond_slot_count cfg))"
proof -
  have "inj_on (of_nat :: nat \<Rightarrow> u8) {0..<unat (bond_slot_count cfg)}"
    by (rule inj_on_inverseI[where g = unat]) (use bond_slot_count_bounds[of cfg] in \<open>simp add: unat_slot\<close>)
  then show ?thesis by (simp add: slot_range_def distinct_map)
qed

lemma slot_range_less: "i \<in> set (slot_range (bond_slot_count cfg)) \<longleftrightarrow> i < bond_slot_count cfg"
proof
  assume "i \<in> set (slot_range (bond_slot_count cfg))"
  then show "i < bond_slot_count cfg"
    using bond_slot_count_bounds[of cfg] by (auto simp: slot_range_def word_less_nat_alt unat_slot)
next
  assume "i < bond_slot_count cfg"
  then have "unat i < unat (bond_slot_count cfg)" by (simp add: word_less_nat_alt)
  then have "of_nat (unat i) \<in> set (slot_range (bond_slot_count cfg))"
    unfolding slot_range_def set_map by (intro imageI) simp
  then show "i \<in> set (slot_range (bond_slot_count cfg))" by simp
qed

section \<open>Invariants of the slot table\<close>

text \<open>The table fits its capacity and names only slots the application offers.\<close>

definition slots_inv :: "RuntimeCfg \<Rightarrow> ('k, 'i) slot_table \<Rightarrow> bool" where
  "slots_inv cfg slots \<longleftrightarrow> length slots \<le> BOND_SLOT_CAP \<and> (\<forall>(_, k) \<in> set slots. k < bond_slot_count cfg)"

text \<open>No two bonds share a slot.\<close>

definition slots_distinct :: "('k, 'i) slot_table \<Rightarrow> bool" where
  "slots_distinct slots \<longleftrightarrow> distinct (map snd slots)"

text \<open>The slots are used without a hole, in order.\<close>

definition slots_packed :: "('k, 'i) slot_table \<Rightarrow> bool" where
  "slots_packed slots \<longleftrightarrow> map snd slots = map of_nat [0..<length slots]"

lemma slots_packed_distinct:
  assumes "slots_packed slots" "length slots \<le> 4"
  shows "slots_distinct slots"
proof -
  have "inj_on (of_nat :: nat \<Rightarrow> u8) {0..<length slots}"
    by (rule inj_on_inverseI[where g = unat]) (use assms(2) in \<open>simp add: unat_slot\<close>)
  then show ?thesis using assms(1) by (simp add: slots_distinct_def slots_packed_def distinct_map)
qed

lemma find_identity_Some:
  "host_ok h \<Longrightarrow> find_identity h i slots = Some (j, k) \<Longrightarrow> j = i \<and> (i, k) \<in> set slots"
  by (auto simp: find_identity_def host_okD find_Some_iff intro: nth_mem)
    (metis nth_mem)

lemma find_identity_None: "host_ok h \<Longrightarrow> find_identity h i slots = None \<longleftrightarrow> i \<notin> fst ` set slots"
  by (auto simp: find_identity_def host_okD find_None_iff image_iff)

lemma slots_inv_store:
  assumes "hvec_ok BOND_SLOT_CAP hv" "host_ok h" "slots_inv cfg slots"
  shows "slots_inv cfg (snd (store_bond bt h hv cfg bond slots))"
proof -
  have "k < 4 \<Longrightarrow> k < unat (bond_slot_count cfg) \<Longrightarrow> (of_nat k :: u8) < bond_slot_count cfg" for k
    by (simp add: word_less_nat_alt unat_slot)
  then show ?thesis
    using assms(3) bond_slot_count_bounds[of cfg]
    by (auto simp: store_bond_def slots_inv_def hv_push[OF assms(1)] Let_def word_gt_0 BOND_SLOT_CAP_def
        dest!: set_update_subset_insert[THEN subsetD] split: option.split prod.split)
qed

lemma slots_inv_delete:
  assumes "hvec_ok BOND_SLOT_CAP hv" "slots_inv cfg slots"
  shows "slots_inv cfg (snd (snd (snd (delete_bond_slot h hv cfg index (st, slots)))))"
  using assms(2)
  by (auto simp: delete_bond_slot_def slots_inv_def hv_retain[OF assms(1)] Let_def
      intro: order_trans[OF length_filter_le] split: option.split prod.split)

section \<open>Restoring\<close>

text \<open>What the blob in a slot decodes to.\<close>

definition loaded_bond ::
  "('k, 'l, 'i) bt_ops \<Rightarrow> ('k, 'l, 'i, 'st) host_ops \<Rightarrow> (u8 \<Rightarrow> nat \<Rightarrow> u8 list \<times> nat) \<Rightarrow> u8 \<Rightarrow>
     ('k, 'l, 'i) bond option" where
  "loaded_bond bt h load k =
     (let (bytes, ret) = load k BOND_BLOB_LEN; len = min ret BOND_BLOB_LEN
      in if len = 0 then None
         else deserialize_bond bt h (take len (take BOND_BLOB_LEN (bytes @ replicate BOND_BLOB_LEN 0))))"

lemma restore_one_slots:
  assumes "hvec_ok BOND_SLOT_CAP hv" "length slots < BOND_SLOT_CAP"
  shows "\<exists>ok. snd (snd (restore_one bt h hv cfg load k (st, slots))) =
      slots @ (if ok then map (\<lambda>b. (bond_identity b, k)) (opt_list (loaded_bond bt h load k)) else [])"
    and "(\<forall>b st. fst (add_bond_information h b st)) \<Longrightarrow>
      snd (snd (restore_one bt h hv cfg load k (st, slots))) =
      slots @ map (\<lambda>b. (bond_identity b, k)) (opt_list (loaded_bond bt h load k))"
proof -
  show "\<exists>ok. snd (snd (restore_one bt h hv cfg load k (st, slots))) =
      slots @ (if ok then map (\<lambda>b. (bond_identity b, k)) (opt_list (loaded_bond bt h load k)) else [])"
    using assms(2)
    by (intro exI[of _ "case loaded_bond bt h load k of None \<Rightarrow> False
          | Some b \<Rightarrow> fst (add_bond_information h b st)"])
      (auto simp: restore_one_def loaded_bond_def Let_def hv_push[OF assms(1)] split: prod.split option.split)
  show "snd (snd (restore_one bt h hv cfg load k (st, slots))) =
      slots @ map (\<lambda>b. (bond_identity b, k)) (opt_list (loaded_bond bt h load k))"
    if "\<forall>b st. fst (add_bond_information h b st)"
    using assms(2) that[THEN spec, THEN spec]
    by (auto simp: restore_one_def loaded_bond_def Let_def hv_push[OF assms(1)] split: prod.split option.split)
      (metis fst_conv)+
qed

lemma restore_loop_slots:
  assumes "hvec_ok BOND_SLOT_CAP hv" "length slots + length is \<le> BOND_SLOT_CAP" "distinct is"
  shows "\<exists>add. snd (snd (restore_loop bt h hv cfg load is (st, slots))) = slots @ add
     \<and> length add \<le> length is \<and> distinct (map snd add)
     \<and> (\<forall>(i, k) \<in> set add. k \<in> set is \<and> map_option bond_identity (loaded_bond bt h load k) = Some i)"
  using assms(2,3)
proof (induction "is" arbitrary: st slots)
  case Nil
  then show ?case by simp
next
  case (Cons k ks)
  obtain e1 st1 sl1 where r: "restore_one bt h hv cfg load k (st, slots) = (e1, st1, sl1)"
    by (metis prod_cases3)
  obtain ok where ok: "sl1 =
      slots @ (if ok then map (\<lambda>b. (bond_identity b, k)) (opt_list (loaded_bond bt h load k)) else [])"
    using restore_one_slots(1)[OF assms(1), of slots bt h cfg load k st] Cons.prems r by auto
  define hd where "hd = (if ok then map (\<lambda>b. (bond_identity b, k)) (opt_list (loaded_bond bt h load k)) else [])"
  have hd: "length hd \<le> 1" "\<forall>(i, j) \<in> set hd. j = k \<and> map_option bond_identity (loaded_bond bt h load k) = Some i"
    "distinct (map snd hd)"
    by (cases "loaded_bond bt h load k"; simp add: hd_def)+
  obtain add where a: "snd (snd (restore_loop bt h hv cfg load ks (st1, slots @ hd))) = (slots @ hd) @ add"
      "length add \<le> length ks" "distinct (map snd add)"
      "\<forall>(i, j) \<in> set add. j \<in> set ks \<and> map_option bond_identity (loaded_bond bt h load j) = Some i"
    using Cons.IH[of "slots @ hd" st1] Cons.prems hd(1) by auto
  have step: "snd (snd (restore_loop bt h hv cfg load (k # ks) (st, slots))) = slots @ (hd @ add)"
    using a(1) ok r by (simp add: case_prod_beta Let_def hd_def[symmetric])
  have "distinct (map snd (hd @ add))"
    using hd(2,3) a(3,4) Cons.prems(2) by (auto 0 3)
  then show ?case
    using step hd a by (intro exI[of _ "hd @ add"]) auto
qed

lemma restore_loop_accepting:
  assumes "hvec_ok BOND_SLOT_CAP hv" "length slots + length is \<le> BOND_SLOT_CAP"
    and "\<forall>b st. fst (add_bond_information h b st)"
  shows "snd (snd (restore_loop bt h hv cfg load is (st, slots))) =
     slots @ concat (map (\<lambda>k. map (\<lambda>b. (bond_identity b, k)) (opt_list (loaded_bond bt h load k))) is)"
  using assms(2)
proof (induction "is" arbitrary: st slots)
  case Nil
  then show ?case by simp
next
  case (Cons k ks)
  obtain e1 st1 sl1 where r: "restore_one bt h hv cfg load k (st, slots) = (e1, st1, sl1)"
    by (metis prod_cases3)
  define hd where "hd = map (\<lambda>b. (bond_identity b, k)) (opt_list (loaded_bond bt h load k))"
  have sl1: "sl1 = slots @ hd"
    using restore_one_slots(2)[OF assms(1) _ assms(3), of slots bt cfg load k st] Cons.prems r
    by (simp add: hd_def)
  have "length hd \<le> 1" by (simp add: hd_def opt_list_def split: option.split)
  then have "snd (snd (restore_loop bt h hv cfg load ks (st1, slots @ hd))) = (slots @ hd) @
      concat (map (\<lambda>k. map (\<lambda>b. (bond_identity b, k)) (opt_list (loaded_bond bt h load k))) ks)"
    using Cons.IH[of "slots @ hd" st1] Cons.prems by simp
  then show ?case
    using r sl1 by (simp add: case_prod_beta Let_def hd_def[symmetric])
qed

end
