(* ===== verification/ConnEvents.thy ===== *)
theory ConnEvents
  imports LinkControl BondSlots
begin

text \<open>
  The events of a connection that are not GATT requests: both roles handle them in a
  \<^verbatim>\<open>match\<close> of their own, the peripheral in \<^verbatim>\<open>connection_task\<close> and the central in
  \<^verbatim>\<open>central_connection_events\<close>. Each handler turns a host event into callbacks, requests to
  the host and changes of the bond slot table.
\<close>

section \<open>Events and their effects\<close>

text \<open>Durations in milliseconds, for the frame space in microseconds.\<close>

datatype (plugins only: code size) ('k, 'l, 'i) conn_event =
    Disconnected u8
  | RequestConnectionParams
  | ConnectionParamsUpdated nat u16 nat
  | PhyUpdated phy_kind phy_kind
  | DataLengthUpdated u16 u16
  | FrameSpaceUpdated nat
  | ConnectionRateChanged nat u16 u16 u16 nat
  | PassKeyDisplay u32
  | PassKeyConfirm u32
  | PassKeyInput
  | PairingComplete security_level "('k, 'l, 'i) bond option"
  | PairingFailed
  | BondLost
  | Encryption security_level "('k, 'l, 'i) bond option"
  | OobRequest

type_synonym oob_data = "u8 list \<times> u8 list"

datatype conn_out =
    ConnCallback cb_event
  | AcceptConnectionParams
  | ProvideOobData oob_data oob_data
  | SetBondable
  | SetOobAvailable
  | RequestSecurityNow

definition cbs :: "cb_event list \<Rightarrow> conn_out list" where
  "cbs es = map ConnCallback es"

text \<open>\<^verbatim>\<open>d.as_millis().min(u16::MAX as u64) as u16\<close> and the same at 32 bits.\<close>

definition clamp_u16 :: "nat \<Rightarrow> u16" where
  "clamp_u16 n = of_nat (min n 65535)"

definition clamp_u32 :: "nat \<Rightarrow> u32" where
  "clamp_u32 n = of_nat (min n 4294967295)"

text \<open>The 16-byte buffer a callback has written at the front.\<close>

definition buf16 :: "u8 list \<Rightarrow> u8 list" where
  "buf16 xs = take 16 (xs @ replicate 16 0)"

definition load_oob_data :: "RuntimeCfg \<Rightarrow> cb_event list \<times> (oob_data \<times> oob_data) option" where
  "load_oob_data cfg =
     (let e1 = emit_security_event cfg 8 NoEncryption 0 False
      in case on_oob_request (cfg_callbacks cfg) of
           None \<Rightarrow> (e1, None)
         | Some (lr, lc, pr, pc, ret) \<Rightarrow>
             (e1 @ [(OnOobRequest, cfg_user cfg)],
              if ret = 0 then None else Some ((buf16 lr, buf16 lc), (buf16 pr, buf16 pc))))"

text \<open>The disconnection reason as two hexadecimal digits.\<close>

definition hex_digit :: "nat \<Rightarrow> char" where
  "hex_digit n = ''0123456789abcdef'' ! n"

definition disconnect_line :: "u8 \<Rightarrow> string" where
  "disconnect_line reason =
     ''[link] disconnected reason=0x'' @ [hex_digit (unat reason div 16), hex_digit (unat reason mod 16)]"

definition bonded_opt :: "('k, 'l, 'i) bond option \<Rightarrow> bool" where
  "bonded_opt b = (case b of None \<Rightarrow> False | Some x \<Rightarrow> is_bonded x)"

definition store_bond_opt ::
  "('k, 'l, 'i) bt_ops \<Rightarrow> ('k, 'l, 'i, 'st) host_ops \<Rightarrow> (('k, 'i) identity \<times> u8) hvec \<Rightarrow> RuntimeCfg \<Rightarrow>
     ('k, 'l, 'i) bond option \<Rightarrow> ('k, 'i) slot_table \<Rightarrow> cb_event list \<times> ('k, 'i) slot_table" where
  "store_bond_opt bt h hv cfg b slots =
     (case b of None \<Rightarrow> ([], slots) | Some bond \<Rightarrow> store_bond bt h hv cfg bond slots)"

text \<open>The peripheral's handler: outputs, the slot table, and whether the loop ends.\<close>

fun peripheral_event ::
  "('k, 'l, 'i) bt_ops \<Rightarrow> ('k, 'l, 'i, 'st) host_ops \<Rightarrow> (('k, 'i) identity \<times> u8) hvec \<Rightarrow> RuntimeCfg \<Rightarrow>
     ('k, 'l, 'i) conn_event \<Rightarrow> ('k, 'i) slot_table \<Rightarrow> conn_out list \<times> ('k, 'i) slot_table \<times> bool" where
  "peripheral_event bt h hv cfg (Disconnected reason) slots =
     (cbs (log_str cfg (disconnect_line reason)), slots, True)"
| "peripheral_event bt h hv cfg RequestConnectionParams slots = ([AcceptConnectionParams], slots, False)"
| "peripheral_event bt h hv cfg (ConnectionParamsUpdated i l t) slots =
     (cbs (emit (on_conn_params (cfg_callbacks cfg)) cfg (OnConnParams (clamp_u16 i) l (clamp_u16 t))), slots, False)"
| "peripheral_event bt h hv cfg (PhyUpdated tx rx) slots =
     (cbs (emit (on_phy_update (cfg_callbacks cfg)) cfg (OnPhyUpdate (phy_to_c tx) (phy_to_c rx))), slots, False)"
| "peripheral_event bt h hv cfg (DataLengthUpdated tx rx) slots =
     (cbs (emit (on_data_length_update (cfg_callbacks cfg)) cfg (OnDataLengthUpdate tx rx)), slots, False)"
| "peripheral_event bt h hv cfg (FrameSpaceUpdated us) slots =
     (cbs (emit (on_frame_space (cfg_callbacks cfg)) cfg (OnFrameSpace (clamp_u32 us))), slots, False)"
| "peripheral_event bt h hv cfg (ConnectionRateChanged i sf l cn t) slots =
     (cbs (emit (on_connection_rate (cfg_callbacks cfg)) cfg
        (OnConnectionRate (clamp_u16 i) sf l cn (clamp_u16 t))), slots, False)"
| "peripheral_event bt h hv cfg (PassKeyDisplay key) slots =
     (cbs (emit_security_event cfg 1 NoEncryption key False), slots, False)"
| "peripheral_event bt h hv cfg (PassKeyConfirm key) slots =
     (cbs (emit_security_event cfg 2 NoEncryption key False), slots, False)"
| "peripheral_event bt h hv cfg PassKeyInput slots =
     (cbs (emit_security_event cfg 3 NoEncryption 0 False), slots, False)"
| "peripheral_event bt h hv cfg (PairingComplete level bond) slots =
     (let (e1, slots') = store_bond_opt bt h hv cfg bond slots
      in (cbs (e1 @ emit_security_event cfg 4 level 0 (bonded_opt bond)), slots', False))"
| "peripheral_event bt h hv cfg PairingFailed slots =
     (cbs (emit_security_event cfg 5 NoEncryption 0 False), slots, False)"
| "peripheral_event bt h hv cfg BondLost slots =
     (cbs (emit_security_event cfg 6 NoEncryption 0 False), slots, False)"
| "peripheral_event bt h hv cfg (Encryption level bond) slots =
     (let (e1, slots') = store_bond_opt bt h hv cfg bond slots
      in (cbs (e1 @ emit_security_event cfg 7 level 0 (bonded_opt bond)), slots', False))"
| "peripheral_event bt h hv cfg OobRequest slots =
     (case load_oob_data cfg of
        (e1, Some (local_data, peer_data)) \<Rightarrow> (cbs e1 @ [ProvideOobData local_data peer_data], slots, False)
      | (e1, None) \<Rightarrow> (cbs (e1 @ log_str cfg ''[security] OOB data requested''), slots, False))"

text \<open>The central's handler, the second arm of its \<^verbatim>\<open>select\<close> aside.\<close>

definition security_cb :: "RuntimeCfg \<Rightarrow> u8 \<Rightarrow> security_level \<Rightarrow> u32 \<Rightarrow> bool \<Rightarrow> conn_out list" where
  "security_cb cfg ev level key bonded = cbs (emit_security_event cfg ev level key bonded)"

definition central_event ::
  "('k, 'l, 'i) bt_ops \<Rightarrow> ('k, 'l, 'i, 'st) host_ops \<Rightarrow> (('k, 'i) identity \<times> u8) hvec \<Rightarrow> RuntimeCfg \<Rightarrow>
     ('k, 'l, 'i) conn_event \<Rightarrow> ('k, 'i) slot_table \<Rightarrow> conn_out list \<times> ('k, 'i) slot_table \<times> bool" where
  "central_event bt h hv cfg ev slots =
     (let cb = cfg_callbacks cfg in
      case ev of
        Disconnected reason \<Rightarrow> (cbs (log_str cfg (disconnect_line reason)), slots, True)
      | RequestConnectionParams \<Rightarrow> ([AcceptConnectionParams], slots, False)
      | ConnectionParamsUpdated i l t \<Rightarrow>
          (cbs (emit (on_conn_params cb) cfg (OnConnParams (clamp_u16 i) l (clamp_u16 t))), slots, False)
      | PhyUpdated tx rx \<Rightarrow> (cbs (emit (on_phy_update cb) cfg (OnPhyUpdate (phy_to_c tx) (phy_to_c rx))), slots, False)
      | DataLengthUpdated tx rx \<Rightarrow> (cbs (emit (on_data_length_update cb) cfg (OnDataLengthUpdate tx rx)), slots, False)
      | FrameSpaceUpdated us \<Rightarrow> (cbs (emit (on_frame_space cb) cfg (OnFrameSpace (clamp_u32 us))), slots, False)
      | ConnectionRateChanged i sf l cn t \<Rightarrow>
          (cbs (emit (on_connection_rate cb) cfg (OnConnectionRate (clamp_u16 i) sf l cn (clamp_u16 t))), slots, False)
      | PassKeyDisplay key \<Rightarrow> (security_cb cfg 1 NoEncryption key False, slots, False)
      | PassKeyConfirm key \<Rightarrow> (security_cb cfg 2 NoEncryption key False, slots, False)
      | PassKeyInput \<Rightarrow> (security_cb cfg 3 NoEncryption 0 False, slots, False)
      | PairingComplete level bond \<Rightarrow>
          (case bond of
             None \<Rightarrow> (security_cb cfg 4 level 0 False, slots, False)
           | Some b \<Rightarrow> let (e1, slots') = store_bond bt h hv cfg b slots
                       in (cbs e1 @ security_cb cfg 4 level 0 (is_bonded b), slots', False))
      | PairingFailed \<Rightarrow> (security_cb cfg 5 NoEncryption 0 False, slots, False)
      | BondLost \<Rightarrow> (security_cb cfg 6 NoEncryption 0 False, slots, False)
      | Encryption level bond \<Rightarrow>
          (case bond of
             None \<Rightarrow> (security_cb cfg 7 level 0 False, slots, False)
           | Some b \<Rightarrow> let (e1, slots') = store_bond bt h hv cfg b slots
                       in (cbs e1 @ security_cb cfg 7 level 0 (is_bonded b), slots', False))
      | OobRequest \<Rightarrow>
          (let (e1, oob) = load_oob_data cfg
           in case oob of
                Some (local_data, peer_data) \<Rightarrow> (cbs e1 @ [ProvideOobData local_data peer_data], slots, False)
              | None \<Rightarrow> (cbs e1 @ cbs (log_str cfg ''[security] OOB data requested''), slots, False)))"

text \<open>The security set-up at the start of a connection, the same code in both roles.\<close>

definition connection_setup :: "RuntimeCfg \<Rightarrow> conn_out list" where
  "connection_setup cfg =
     (if cfg_security_bondable cfg \<noteq> 0 then [SetBondable] else [])
     @ (if cfg_security_oob_available cfg \<noteq> 0 then [SetOobAvailable] else [])
     @ (if cfg_security_request_on_connect cfg \<noteq> 0 then [RequestSecurityNow] else [])"

text \<open>\<^verbatim>\<open>emit_local_oob_data\<close>; \<open>oob\<close> is what the host returns.\<close>

definition emit_local_oob_data :: "oob_data \<Rightarrow> RuntimeCfg \<Rightarrow> cb_event list" where
  "emit_local_oob_data oob cfg =
     (if cfg_security_oob_available cfg = 0 then []
      else emit (on_oob_local_data (cfg_callbacks cfg)) cfg (OnOobLocalData (fst oob) (snd oob)))"

section \<open>Runs\<close>

text \<open>The handler applied to the events of a connection, up to the one that ends it.\<close>

fun event_run ::
  "(('k, 'l, 'i) conn_event \<Rightarrow> ('k, 'i) slot_table \<Rightarrow> conn_out list \<times> ('k, 'i) slot_table \<times> bool) \<Rightarrow>
     ('k, 'l, 'i) conn_event list \<Rightarrow> ('k, 'i) slot_table \<Rightarrow> conn_out list \<times> ('k, 'i) slot_table \<times> bool" where
  "event_run handle [] slots = ([], slots, False)"
| "event_run handle (e # es) slots =
     (let (o1, s1, ended) = handle e slots
      in if ended then (o1, s1, True)
         else let (o2, s2, e2) = event_run handle es s1 in (o1 @ o2, s2, e2))"

lemma cbs_append [simp]: "cbs (xs @ ys) = cbs xs @ cbs ys" "cbs [] = []"
  by (simp_all add: cbs_def)

lemma handlers_agree: "central_event bt h hv cfg ev slots = peripheral_event bt h hv cfg ev slots"
  by (cases ev)
    (auto simp: central_event_def security_cb_def store_bond_opt_def bonded_opt_def Let_def
      split: option.split prod.split)

lemma event_slots:
  assumes "hvec_ok BOND_SLOT_CAP hv" "host_ok h" "slots_inv cfg slots"
  shows "slots_inv cfg (fst (snd (peripheral_event bt h hv cfg ev slots)))"
proof -
  have "slots_inv cfg (snd (store_bond_opt bt h hv cfg b slots))" for b
    using slots_inv_store[OF assms] assms(3) by (simp add: store_bond_opt_def split: option.split)
  then show ?thesis using assms(3) by (cases ev) (auto simp: case_prod_beta split: option.split prod.split)
qed

lemma clamp_u16_small: "n \<le> 65535 \<Longrightarrow> unat (clamp_u16 n) = n"
  by (simp add: clamp_u16_def unat_of_nat)

section \<open>Properties\<close>

text \<open>Result (roles_handle_events_alike). The two copies of the event handler agree: over any
  sequence of events, from any slot table, the central and the peripheral make the same
  callbacks and requests in the same order, end at the same event, and leave the same slot
  table, which keeps its invariant.\<close>

theorem roles_handle_events_alike:
  assumes "hvec_ok BOND_SLOT_CAP hv" "host_ok h" "slots_inv cfg slots"
  shows "event_run (central_event bt h hv cfg) evs slots = event_run (peripheral_event bt h hv cfg) evs slots
     \<and> slots_inv cfg (fst (snd (event_run (central_event bt h hv cfg) evs slots)))"
proof
  have eq: "central_event bt h hv cfg = peripheral_event bt h hv cfg"
    by (intro ext) (rule handlers_agree)
  then show "event_run (central_event bt h hv cfg) evs slots = event_run (peripheral_event bt h hv cfg) evs slots"
    by simp
  show "slots_inv cfg (fst (snd (event_run (central_event bt h hv cfg) evs slots)))"
    using assms(3) unfolding eq
  proof (induction evs arbitrary: slots)
    case (Cons e es)
    then show ?case using event_slots[OF assms(1,2) Cons.prems, of bt e] by (auto simp: case_prod_beta)
  qed simp
qed

theorem roles_handle_events_alike_witness:
  "event_run (central_event bt_std host_std (hvec_std 4) (flatten_config zero_config))
      [PairingComplete Encrypted (Some demo_bond), Disconnected 0x13] []
   = event_run (peripheral_event bt_std host_std (hvec_std 4) (flatten_config zero_config))
      [PairingComplete Encrypted (Some demo_bond), Disconnected 0x13] []"
proof -
  have hv: "hvec_ok BOND_SLOT_CAP (hvec_std 4)" using hvec_ok_std[of 4] by (simp add: BOND_SLOT_CAP_def)
  have "slots_inv (flatten_config zero_config) []" by (simp add: slots_inv_def)
  from roles_handle_events_alike[OF hv host_ok_std this] show ?thesis by blast
qed

end
