(* ===== verification/Gatt.thy ===== *)
theory Gatt
  imports Shared
begin

text \<open>
  Building the attribute table: \<^verbatim>\<open>build_gatt\<close>, \<^verbatim>\<open>alloc_store\<close> and \<^verbatim>\<open>gap_appearance\<close> of
  \<^verbatim>\<open>radio.rs\<close>, and \<^verbatim>\<open>runtime_ble_char_index\<close> of \<^verbatim>\<open>lib.rs\<close>, which computes from the
  configuration alone the index a characteristic has in the table.

  The attribute table of the host is seen through the requests made to it; the handles it
  gives out and whether the GAP service can be built are an oracle over the requests so far.
  The heap is the ledger of live boxes, so that what is allocated can be compared with what
  the teardown frees.
\<close>

section \<open>The heap ledger\<close>

record heap =
  hp_next :: nat
  hp_live :: "nat list"

definition box_new :: "heap \<Rightarrow> nat \<times> heap" where
  "box_new h = (hp_next h, \<lparr>hp_next = Suc (hp_next h), hp_live = hp_next h # hp_live h\<rparr>)"

text \<open>\<^verbatim>\<open>Box::from_raw\<close> and drop; \<open>None\<close> is a double free.\<close>

definition box_free :: "nat \<Rightarrow> heap \<Rightarrow> heap option" where
  "box_free p h = (if p \<in> set (hp_live h) then Some (h\<lparr>hp_live := remove1 p (hp_live h)\<rparr>) else None)"

definition heap_wf :: "heap \<Rightarrow> bool" where
  "heap_wf h \<longleftrightarrow> distinct (hp_live h) \<and> (\<forall>p \<in> set (hp_live h). p < hp_next h)"

section \<open>Requests to the attribute table\<close>

datatype att_req =
    AddService uuid
  | AddCharacteristic uuid u8 nat
  | ReadPermission permission_level
  | WritePermission permission_level
  | CccdPermission permission_level
  | AddDescriptor uuid att_permissions "u8 list" nat
  | AddDescriptorRo uuid permission_level "u8 list"

record att_host =
  ah_gap_ok :: "u8 list \<Rightarrow> u16 \<Rightarrow> bool"
  ah_char :: "att_req list \<Rightarrow> u16 \<times> u16 option"
  ah_desc :: "att_req list \<Rightarrow> u16"

record desc_meta =
  dm_handle :: u16
  dm_chr :: u16
  dm_desc :: u8

record gatt =
  g_reqs :: "att_req list"
  g_chars :: "(u16 \<times> u16 option) list"
  g_props :: "u16 list"
  g_descs :: "desc_meta list"
  g_nus_rx :: nat
  g_nus_tx :: nat
  g_stores :: "nat list"
  g_appearance_store :: "nat option"

definition USIZE_MAX :: nat where "USIZE_MAX = 4294967295"

definition NUS_SVC :: "u8 list" where
  "NUS_SVC = [0x9e, 0xca, 0xdc, 0x24, 0x0e, 0xe5, 0xa9, 0xe0, 0x93, 0xf3, 0xa3, 0xb5, 0x01, 0x00, 0x40, 0x6e]"
definition NUS_RX :: "u8 list" where
  "NUS_RX = [0x9e, 0xca, 0xdc, 0x24, 0x0e, 0xe5, 0xa9, 0xe0, 0x93, 0xf3, 0xa3, 0xb5, 0x02, 0x00, 0x40, 0x6e]"
definition NUS_TX :: "u8 list" where
  "NUS_TX = [0x9e, 0xca, 0xdc, 0x24, 0x0e, 0xe5, 0xa9, 0xe0, 0x93, 0xf3, 0xa3, 0xb5, 0x03, 0x00, 0x40, 0x6e]"

section \<open>Operations\<close>

definition alloc_store :: "gatt \<times> heap \<Rightarrow> nat \<times> gatt \<times> heap" where
  "alloc_store s =
     (let (g, h) = s; (ptr, h') = box_new h in (ptr, g\<lparr>g_stores := g_stores g @ [ptr]\<rparr>, h'))"

definition gap_appearance :: "gap_consts \<Rightarrow> u16 \<Rightarrow> heap \<Rightarrow> u16 \<times> nat option \<times> heap" where
  "gap_appearance gap v h =
     (if v = 0 then (GENERIC_POWER_DEVICE gap, None, h)
      else let (ptr, h') = box_new h in (v, Some ptr, h'))"

definition add_req :: "att_req \<Rightarrow> gatt \<Rightarrow> gatt" where
  "add_req r g = g\<lparr>g_reqs := g_reqs g @ [r]\<rparr>"

definition opt_req :: "('a \<Rightarrow> att_req) \<Rightarrow> 'a option \<Rightarrow> gatt \<Rightarrow> gatt" where
  "opt_req mk x g = (case x of None \<Rightarrow> g | Some y \<Rightarrow> add_req (mk y) g)"

text \<open>The body of the descriptor loop.\<close>

definition add_desc ::
  "features \<Rightarrow> att_host \<Rightarrow> u16 \<Rightarrow> nat \<Rightarrow> RuntimeBleDescDef \<Rightarrow> gatt \<times> heap \<Rightarrow> gatt \<times> heap" where
  "add_desc f ah chr_index desc_index d s =
     (let value = slice_or_empty (dd_value d) (unat (dd_value_len d));
          uuid = uuid_from (dd_uuid d) (dd_uuid_len d);
          permissions = descriptor_permissions (dd_permissions d);
          (r, g, h) =
            (if descriptor_is_writable (dd_permissions d)
             then let init = take (min (length value) (VALUE_LEN f)) value;
                      (ptr, g, h) = alloc_store s
                  in (AddDescriptor uuid permissions init ptr, g, h)
             else (AddDescriptorRo uuid (perm_read permissions) value, s));
          g = add_req r g;
          handle = ah_desc ah (g_reqs g)
      in (g\<lparr>g_descs := g_descs g @
              [\<lparr>dm_handle = handle, dm_chr = chr_index, dm_desc = of_nat (min desc_index 255)\<rparr>]\<rparr>, h))"

primrec add_descs ::
  "features \<Rightarrow> att_host \<Rightarrow> u16 \<Rightarrow> nat \<Rightarrow> RuntimeBleDescDef list \<Rightarrow> gatt \<times> heap \<Rightarrow> gatt \<times> heap" where
  "add_descs f ah ci di [] s = s"
| "add_descs f ah ci di (d # ds) s = add_descs f ah ci (Suc di) ds (add_desc f ah ci di d s)"

definition char_descs :: "RuntimeBleCharDef \<Rightarrow> RuntimeBleDescDef list" where
  "char_descs c =
     (if \<not> is_null (cd_descriptors c) \<and> cd_num_descriptors c \<noteq> 0
      then slice_or_empty (cd_descriptors c) (unat (cd_num_descriptors c)) else [])"

text \<open>The body of the characteristic loop.\<close>

definition add_char :: "features \<Rightarrow> att_host \<Rightarrow> RuntimeBleCharDef \<Rightarrow> gatt \<times> heap \<Rightarrow> gatt \<times> heap" where
  "add_char f ah c s =
     (let chr_index = of_nat (length (g_chars (fst s))) :: u16;
          cuuid = uuid_from (cd_uuid c) (cd_uuid_len c);
          (ptr, g, h) = alloc_store s;
          g = add_req (AddCharacteristic cuuid (map_props (cd_props c)) ptr) g;
          chr = ah_char ah (g_reqs g);
          g = opt_req ReadPermission (map_permission (cd_permissions c) C_PERM_READ_ENCRYPT C_PERM_READ_AUTH) g;
          g = opt_req WritePermission (map_permission (cd_permissions c) C_PERM_WRITE_ENCRYPT C_PERM_WRITE_AUTH) g;
          g = (if cd_props c AND (C_PROP_NOTIFY OR C_PROP_INDICATE) \<noteq> 0
               then opt_req CccdPermission (map_permission (cd_permissions c) C_PERM_CCCD_ENCRYPT C_PERM_CCCD_AUTH) g
               else g);
          (g, h) = add_descs f ah chr_index 0 (char_descs c) (g, h)
      in (g\<lparr>g_chars := g_chars g @ [chr], g_props := g_props g @ [cd_props c]\<rparr>, h))"

primrec add_chars :: "features \<Rightarrow> att_host \<Rightarrow> RuntimeBleCharDef list \<Rightarrow> gatt \<times> heap \<Rightarrow> gatt \<times> heap" where
  "add_chars f ah [] s = s"
| "add_chars f ah (c # cs) s = add_chars f ah cs (add_char f ah c s)"

definition service_chars :: "RuntimeBleServiceDef \<Rightarrow> RuntimeBleCharDef list" where
  "service_chars sv = slice_or_empty (sd_chars sv) (unat (sd_num_chars sv))"

definition add_service :: "features \<Rightarrow> att_host \<Rightarrow> RuntimeBleServiceDef \<Rightarrow> gatt \<times> heap \<Rightarrow> gatt \<times> heap" where
  "add_service f ah sv s =
     add_chars f ah (service_chars sv)
       (add_req (AddService (uuid_from (sd_uuid sv) (sd_uuid_len sv))) (fst s), snd s)"

primrec add_services :: "features \<Rightarrow> att_host \<Rightarrow> RuntimeBleServiceDef list \<Rightarrow> gatt \<times> heap \<Rightarrow> gatt \<times> heap" where
  "add_services f ah [] s = s"
| "add_services f ah (sv # svs) s = add_services f ah svs (add_service f ah sv s)"

definition nus_char :: "att_host \<Rightarrow> u8 list \<Rightarrow> u8 \<Rightarrow> u16 \<Rightarrow> gatt \<times> heap \<Rightarrow> gatt \<times> heap" where
  "nus_char ah uuid ble_props c_props s =
     (let (ptr, g, h) = alloc_store s;
          g = add_req (AddCharacteristic (Uuid_long uuid) ble_props ptr) g;
          chr = ah_char ah (g_reqs g)
      in (g\<lparr>g_chars := g_chars g @ [chr], g_props := g_props g @ [c_props]\<rparr>, h))"

definition build_nus :: "att_host \<Rightarrow> gatt \<times> heap \<Rightarrow> gatt \<times> heap" where
  "build_nus ah s =
     (let s = (add_req (AddService (Uuid_long NUS_SVC)) (fst s), snd s);
          rx = length (g_chars (fst s));
          (g, h) = nus_char ah NUS_RX (0x04 OR 0x08) (C_PROP_WRITE OR C_PROP_WRITE_NR) s;
          tx = length (g_chars g);
          (g, h) = nus_char ah NUS_TX 0x10 C_PROP_NOTIFY (g, h)
      in (g\<lparr>g_nus_rx := rx, g_nus_tx := tx\<rparr>, h))"

definition cfg_service_list :: "RuntimeCfg \<Rightarrow> RuntimeBleServiceDef list" where
  "cfg_service_list cfg = slice_or_empty (cfg_services cfg) (unat (cfg_num_services cfg))"

definition uses_nus :: "RuntimeCfg \<Rightarrow> bool" where
  "uses_nus cfg \<longleftrightarrow> is_null (cfg_services cfg) \<or> cfg_num_services cfg = 0"

definition empty_gatt :: "nat option \<Rightarrow> gatt" where
  "empty_gatt ap = \<lparr>g_reqs = [], g_chars = [], g_props = [], g_descs = [], g_nus_rx = USIZE_MAX,
     g_nus_tx = USIZE_MAX, g_stores = [], g_appearance_store = ap\<rparr>"

definition build_gatt ::
  "features \<Rightarrow> gap_consts \<Rightarrow> att_host \<Rightarrow> RuntimeCfg \<Rightarrow> u8 list \<Rightarrow> heap \<Rightarrow> gatt option \<times> heap option" where
  "build_gatt f gap ah cfg name h =
     (let (appearance, appearance_store, h1) = gap_appearance gap (cfg_appearance cfg) h
      in if \<not> ah_gap_ok ah name appearance
         then (None, case appearance_store of None \<Rightarrow> Some h1 | Some ptr \<Rightarrow> box_free ptr h1)
         else
           let (g, h2) =
             (if uses_nus cfg then build_nus ah (empty_gatt appearance_store, h1)
              else add_services f ah (cfg_service_list cfg) (empty_gatt appearance_store, h1))
           in (Some g, Some h2))"

section \<open>\<^verbatim>\<open>runtime_ble_char_index\<close>\<close>

definition char_matches :: "u8 list \<Rightarrow> u8 \<Rightarrow> RuntimeBleCharDef \<Rightarrow> bool" where
  "char_matches want uuid_len c \<longleftrightarrow>
     cd_uuid_len c = uuid_len \<and> \<not> is_null (cd_uuid c)
     \<and> slice_or_empty (cd_uuid c) (unat (cd_uuid_len c)) = want"

text \<open>The two nested loops: the index found, or the counter after the loop.\<close>

primrec index_in_chars :: "u8 list \<Rightarrow> u8 \<Rightarrow> RuntimeBleCharDef list \<Rightarrow> u16 \<Rightarrow> u16 option \<times> u16" where
  "index_in_chars want n [] idx = (None, idx)"
| "index_in_chars want n (c # cs) idx =
     (if char_matches want n c then (Some idx, idx) else index_in_chars want n cs (idx + 1))"

primrec index_in_services :: "u8 list \<Rightarrow> u8 \<Rightarrow> RuntimeBleServiceDef list \<Rightarrow> u16 \<Rightarrow> u16 option" where
  "index_in_services want n [] idx = None"
| "index_in_services want n (sv # svs) idx =
     (case sd_chars sv of
        None \<Rightarrow> index_in_services want n svs idx
      | Some m \<Rightarrow>
          (case index_in_chars want n (from_raw_parts m (unat (sd_num_chars sv))) idx of
             (Some i, _) \<Rightarrow> Some i
           | (None, idx') \<Rightarrow> index_in_services want n svs idx'))"

definition runtime_ble_char_index :: "RuntimeCfg option \<Rightarrow> u8 ptr \<Rightarrow> u8 \<Rightarrow> c_int" where
  "runtime_ble_char_index CONFIG uuid uuid_len =
     (case uuid of
        None \<Rightarrow> RUNTIME_BLE_ERR_INVALID
      | Some u \<Rightarrow>
          if uuid_len \<noteq> 2 \<and> uuid_len \<noteq> 16 then RUNTIME_BLE_ERR_INVALID
          else case CONFIG of
            None \<Rightarrow> RUNTIME_BLE_ERR_INVALID
          | Some cfg \<Rightarrow>
              if is_null (cfg_services cfg) \<or> cfg_num_services cfg = 0 then RUNTIME_BLE_ERR_INVALID
              else case index_in_services (from_raw_parts u (unat uuid_len)) uuid_len (cfg_service_list cfg) 0 of
                Some idx \<Rightarrow> uint idx
              | None \<Rightarrow> RUNTIME_BLE_ERR_INVALID)"

section \<open>The shape of the table\<close>

text \<open>The characteristics of a configuration in declaration order.\<close>

definition flat_chars :: "RuntimeCfg \<Rightarrow> RuntimeBleCharDef list" where
  "flat_chars cfg = concat (map service_chars (cfg_service_list cfg))"

lemma service_chars_len: "length (service_chars sv) \<le> 255"
proof -
  have "(unsigned (sd_num_chars sv) :: nat) < 256" using unsigned_less[of "sd_num_chars sv"] by simp
  then show ?thesis by (simp add: service_chars_def slice_or_empty_def split: option.split)
qed

lemma length_concat_bound: "(\<And>x. x \<in> set xs \<Longrightarrow> length (g x) \<le> m) \<Longrightarrow> length (concat (map g xs)) \<le> length xs * m"
  by (induction xs) (auto intro!: add_mono)

lemma flat_chars_len: "length (flat_chars cfg) \<le> 65025"
proof -
  have "(unsigned (cfg_num_services cfg) :: nat) < 256" using unsigned_less[of "cfg_num_services cfg"] by simp
  then have "length (cfg_service_list cfg) \<le> 255"
    by (simp add: cfg_service_list_def slice_or_empty_def split: option.split)
  moreover have "length (flat_chars cfg) \<le> length (cfg_service_list cfg) * 255"
    unfolding flat_chars_def by (rule length_concat_bound) (rule service_chars_len)
  ultimately show ?thesis by linarith
qed

text \<open>What the builder has after a list of characteristics.\<close>

definition writable_descs :: "RuntimeBleCharDef \<Rightarrow> nat" where
  "writable_descs c = length (filter (\<lambda>d. descriptor_is_writable (dd_permissions d)) (char_descs c))"

definition build_inv :: "heap \<Rightarrow> gatt \<times> heap \<Rightarrow> bool" where
  "build_inv h0 s \<longleftrightarrow>
     (let (g, h) = s in
      length (g_chars g) = length (g_props g) \<and> heap_wf h
      \<and> hp_live h = rev (g_stores g) @ hp_live h0)"

lemma alloc_store_inv:
  assumes "build_inv h0 s" "alloc_store s = (ptr, g, h)"
  shows "build_inv h0 (g, h) \<and> g_chars g = g_chars (fst s) \<and> g_props g = g_props (fst s)
     \<and> g_descs g = g_descs (fst s) \<and> length (g_stores g) = Suc (length (g_stores (fst s)))"
proof -
  obtain g0 h1 where s: "s = (g0, h1)" by (cases s)
  have ptr: "ptr = hp_next h1" "g = g0\<lparr>g_stores := g_stores g0 @ [hp_next h1]\<rparr>"
    "h = \<lparr>hp_next = Suc (hp_next h1), hp_live = hp_next h1 # hp_live h1\<rparr>"
    using assms(2) s by (auto simp: alloc_store_def box_new_def)
  have "heap_wf h"
    using assms(1) s ptr(3) by (auto simp: build_inv_def heap_wf_def less_Suc_eq)
  then show ?thesis using assms(1) s ptr by (simp add: build_inv_def)
qed

lemma add_req_simps [simp]:
  "g_chars (add_req r g) = g_chars g" "g_props (add_req r g) = g_props g" "g_descs (add_req r g) = g_descs g"
  "g_stores (add_req r g) = g_stores g" "g_nus_rx (add_req r g) = g_nus_rx g" "g_nus_tx (add_req r g) = g_nus_tx g"
  "g_appearance_store (add_req r g) = g_appearance_store g"
  by (simp_all add: add_req_def)

lemma opt_req_simps [simp]:
  "g_chars (opt_req mk x g) = g_chars g" "g_props (opt_req mk x g) = g_props g" "g_descs (opt_req mk x g) = g_descs g"
  "g_stores (opt_req mk x g) = g_stores g"  "g_nus_rx (opt_req mk x g) = g_nus_rx g" "g_nus_tx (opt_req mk x g) = g_nus_tx g"
  "g_appearance_store (opt_req mk x g) = g_appearance_store g"
  by (simp_all add: opt_req_def split: option.split)

lemma build_inv_cong:
  "g_chars g' = g_chars g \<Longrightarrow> g_props g' = g_props g \<Longrightarrow> g_stores g' = g_stores g \<Longrightarrow>
     build_inv h0 (g', h) = build_inv h0 (g, h)"
  by (simp add: build_inv_def)


text \<open>What a step of the builder adds: the characteristics it requests, their properties, the
  descriptors it records and the number of buffers it allocates.\<close>

fun char_of_req :: "att_req \<Rightarrow> (uuid \<times> u8) list" where
  "char_of_req (AddCharacteristic u p ptr) = [(u, p)]"
| "char_of_req r = []"

definition char_reqs :: "att_req list \<Rightarrow> (uuid \<times> u8) list" where
  "char_reqs rs = concat (map char_of_req rs)"

definition desc_ids :: "gatt \<Rightarrow> (u16 \<times> u8) list" where
  "desc_ids g = map (\<lambda>m. (dm_chr m, dm_desc m)) (g_descs g)"

definition grows ::
  "gatt \<times> heap \<Rightarrow> gatt \<times> heap \<Rightarrow> (uuid \<times> u8) list \<Rightarrow> u16 list \<Rightarrow> (u16 \<times> u8) list \<Rightarrow> nat \<Rightarrow> bool" where
  "grows s t us ps ds n \<longleftrightarrow>
     (\<forall>h0. build_inv h0 s \<longrightarrow> build_inv h0 t)
     \<and> char_reqs (g_reqs (fst t)) = char_reqs (g_reqs (fst s)) @ us
     \<and> g_props (fst t) = g_props (fst s) @ ps
     \<and> desc_ids (fst t) = desc_ids (fst s) @ ds
     \<and> length (g_chars (fst t)) = length (g_chars (fst s)) + length ps
     \<and> length (g_stores (fst t)) = length (g_stores (fst s)) + n
     \<and> g_appearance_store (fst t) = g_appearance_store (fst s)"

named_theorems grows_intros

lemma grows_refl [grows_intros]: "grows s s [] [] [] 0"
  by (simp add: grows_def)

lemma grows_trans:
  "grows s t us ps ds n \<Longrightarrow> grows t r us' ps' ds' n' \<Longrightarrow> grows s r (us @ us') (ps @ ps') (ds @ ds') (n + n')"
  by (simp add: grows_def)

lemma grows_add_req:
  "grows (g, h) (add_req r g, h) (char_of_req r) [] [] 0"
  by (simp add: grows_def add_req_def char_reqs_def desc_ids_def build_inv_def)

lemma grows_alloc_store:
  assumes "alloc_store s = (ptr, g, h)"
  shows "grows s (g, h) [] [] [] 1"
proof -
  have "\<forall>h0. build_inv h0 s \<longrightarrow> build_inv h0 (g, h)" using alloc_store_inv assms by blast
  then show ?thesis
    using assms by (auto simp: grows_def alloc_store_def box_new_def desc_ids_def split: prod.splits)
qed

lemma grows_opt_req:
  assumes "\<And>x. char_of_req (mk x) = []"
  shows "grows (g, h) (opt_req mk x g, h) [] [] [] 0"
  using assms grows_add_req[of g h] grows_refl by (auto simp: opt_req_def split: option.split) (metis assms grows_add_req)

lemma grows_push_char:
  "grows (g, h) (g\<lparr>g_chars := g_chars g @ [x], g_props := g_props g @ [p]\<rparr>, h) [] [p] [] 0"
  by (simp add: grows_def build_inv_def desc_ids_def)

lemma grows_push_desc:
  "grows (g, h) (g\<lparr>g_descs := g_descs g @ [m]\<rparr>, h) [] [] [(dm_chr m, dm_desc m)] 0"
  by (simp add: grows_def build_inv_def desc_ids_def)

lemma grows_desc_tail:
  assumes "grows s (g, h) [] [] [] n" "char_of_req r = []" "ds = [(dm_chr m, dm_desc m)]"
  shows "grows s (add_req r g\<lparr>g_descs := g_descs g @ [m]\<rparr>, h) [] [] ds n"
  using grows_trans[OF grows_trans[OF assms(1) grows_add_req[of g h r]] grows_push_desc[of _ _ m]] assms(2,3) by simp

lemma add_desc_grows:
  "grows s (add_desc f ah ci di d s) [] [] [(ci, of_nat (min di 255))]
     (if descriptor_is_writable (dd_permissions d) then 1 else 0)"
proof (cases "descriptor_is_writable (dd_permissions d)")
  case True
  obtain ptr g h where a: "alloc_store s = (ptr, g, h)" by (metis prod_cases3)
  show ?thesis
    using True by (auto simp: add_desc_def a Let_def intro!: grows_desc_tail grows_alloc_store[OF a, simplified])
next
  case False
  then show ?thesis
    by (cases s) (auto simp: add_desc_def Let_def intro!: grows_desc_tail grows_refl)
qed

text \<open>The descriptors a list of definitions adds from position \<open>di\<close> on.\<close>

definition n_writable :: "RuntimeBleDescDef list \<Rightarrow> nat" where
  "n_writable ds = length (filter (\<lambda>d. descriptor_is_writable (dd_permissions d)) ds)"

definition ids_from :: "u16 \<Rightarrow> nat \<Rightarrow> nat \<Rightarrow> (u16 \<times> u8) list" where
  "ids_from ci di n = map (\<lambda>j. (ci, of_nat (min j 255))) [di..<di + n]"

lemma add_descs_grows:
  "grows s (add_descs f ah ci di ds s) [] [] (ids_from ci di (length ds)) (n_writable ds)"
proof (induction ds arbitrary: s di)
  case Nil
  then show ?case by (simp add: ids_from_def n_writable_def grows_refl)
next
  case (Cons d ds)
  have "ids_from ci di (Suc (length ds)) = (ci, of_nat (min di 255)) # ids_from ci (Suc di) (length ds)"
    by (simp add: ids_from_def upt_conv_Cons del: upt_Suc)
  then show ?case
    using grows_trans[OF add_desc_grows[of s f ah ci di d] Cons.IH[of "add_desc f ah ci di d s" "Suc di"]]
    by (simp add: n_writable_def split: if_splits)
qed

lemma opt_req_grows:
  assumes "grows s (g, h) us ps ds n" "\<And>x. char_of_req (mk x) = []"
  shows "grows s (opt_req mk x g, h) us ps ds n"
  using grows_trans[OF assms(1) grows_opt_req[of mk g h x]] assms(2) by simp

lemma add_char_grows:
  "grows s (add_char f ah c s) [(uuid_from (cd_uuid c) (cd_uuid_len c), map_props (cd_props c))] [cd_props c]
     (ids_from (of_nat (length (g_chars (fst s)))) 0 (length (char_descs c)))
     (Suc (n_writable (char_descs c)))"
proof -
  obtain ptr g h where a: "alloc_store s = (ptr, g, h)" by (metis prod_cases3)
  define u where "u = (uuid_from (cd_uuid c) (cd_uuid_len c), map_props (cd_props c))"
  define g1 where "g1 = add_req (AddCharacteristic (fst u) (snd u) ptr) g"
  define chr where "chr = ah_char ah (g_reqs g1)"
  define g2 where "g2 =
    (let g = opt_req ReadPermission (map_permission (cd_permissions c) C_PERM_READ_ENCRYPT C_PERM_READ_AUTH) g1;
         g = opt_req WritePermission (map_permission (cd_permissions c) C_PERM_WRITE_ENCRYPT C_PERM_WRITE_AUTH) g
     in if cd_props c AND (C_PROP_NOTIFY OR C_PROP_INDICATE) \<noteq> 0
        then opt_req CccdPermission (map_permission (cd_permissions c) C_PERM_CCCD_ENCRYPT C_PERM_CCCD_AUTH) g
        else g)"
  define ci :: u16 where "ci = of_nat (length (g_chars (fst s)))"
  obtain g3 h3 where d: "add_descs f ah ci 0 (char_descs c) (g2, h) = (g3, h3)" by fastforce
  have "grows s (g1, h) [u] [] [] 1"
    using grows_trans[OF grows_alloc_store[OF a] grows_add_req[of g h "AddCharacteristic (fst u) (snd u) ptr"]]
    by (simp add: g1_def)
  then have "grows s (g2, h) [u] [] [] 1"
    by (auto simp: g2_def Let_def intro!: opt_req_grows)
  from grows_trans[OF grows_trans[OF this add_descs_grows[of "(g2, h)" f ah ci 0 "char_descs c", unfolded d]]
      grows_push_char[of g3 h3 "cd_props c" chr]]
  have "grows s (g3\<lparr>g_chars := g_chars g3 @ [chr], g_props := g_props g3 @ [cd_props c]\<rparr>, h3) [u] [cd_props c]
    (ids_from ci 0 (length (char_descs c))) (Suc (n_writable (char_descs c)))"
    by simp
  moreover have "add_char f ah c s = (g3\<lparr>g_chars := g_chars g3 @ [chr], g_props := g_props g3 @ [cd_props c]\<rparr>, h3)"
    using d unfolding add_char_def a ci_def[symmetric] g2_def chr_def g1_def u_def
    by (simp add: Let_def)
  ultimately show ?thesis by (simp only: u_def ci_def)
qed

primrec char_ids :: "nat \<Rightarrow> RuntimeBleCharDef list \<Rightarrow> (u16 \<times> u8) list" where
  "char_ids n [] = []"
| "char_ids n (c # cs) = ids_from (of_nat n) 0 (length (char_descs c)) @ char_ids (Suc n) cs"

lemma char_ids_append: "char_ids n (cs @ ds) = char_ids n cs @ char_ids (n + length cs) ds"
  by (induction cs arbitrary: n) auto

definition char_req :: "RuntimeBleCharDef \<Rightarrow> uuid \<times> u8" where
  "char_req c = (uuid_from (cd_uuid c) (cd_uuid_len c), map_props (cd_props c))"

definition n_stores :: "RuntimeBleCharDef list \<Rightarrow> nat" where
  "n_stores cs = sum_list (map (\<lambda>c. Suc (n_writable (char_descs c))) cs)"

lemma grows_chars_len: "grows s t us ps ds n \<Longrightarrow> length (g_chars (fst t)) = length (g_chars (fst s)) + length ps"
  by (simp add: grows_def)

lemma add_chars_grows:
  "grows s (add_chars f ah cs s) (map char_req cs) (map cd_props cs)
     (char_ids (length (g_chars (fst s))) cs) (n_stores cs)"
proof (induction cs arbitrary: s)
  case Nil
  then show ?case by (simp add: grows_refl n_stores_def)
next
  case (Cons c cs)
  have "length (g_chars (fst (add_char f ah c s))) = Suc (length (g_chars (fst s)))"
    using grows_chars_len[OF add_char_grows[of s f ah c]] by simp
  then show ?case
    using grows_trans[OF add_char_grows[of s f ah c] Cons.IH[of "add_char f ah c s"]]
    by (simp add: n_stores_def char_req_def)
qed

lemma add_service_grows:
  "grows s (add_service f ah sv s) (map char_req (service_chars sv)) (map cd_props (service_chars sv))
     (char_ids (length (g_chars (fst s))) (service_chars sv)) (n_stores (service_chars sv))"
proof -
  let ?r = "AddService (uuid_from (sd_uuid sv) (sd_uuid_len sv))"
  obtain g h where s: "s = (g, h)" by (cases s)
  show ?thesis
    using grows_trans[OF grows_add_req[of g h ?r] add_chars_grows[of "(add_req ?r g, h)" f ah "service_chars sv"]]
    by (simp add: add_service_def s)
qed

lemma add_services_grows:
  "grows s (add_services f ah svs s) (map char_req (concat (map service_chars svs)))
     (map cd_props (concat (map service_chars svs)))
     (char_ids (length (g_chars (fst s))) (concat (map service_chars svs)))
     (n_stores (concat (map service_chars svs)))"
proof (induction svs arbitrary: s)
  case Nil
  then show ?case by (simp add: grows_refl n_stores_def)
next
  case (Cons sv svs)
  have "length (g_chars (fst (add_service f ah sv s))) = length (g_chars (fst s)) + length (service_chars sv)"
    using grows_chars_len[OF add_service_grows[of s f ah sv]] by simp
  then show ?case
    using grows_trans[OF add_service_grows[of s f ah sv] Cons.IH[of "add_service f ah sv s"]]
    by (simp add: n_stores_def char_ids_append)
qed

lemma nus_char_grows: "grows s (nus_char ah u bp cp s) [(Uuid_long u, bp)] [cp] [] 1"
proof -
  obtain ptr g h where a: "alloc_store s = (ptr, g, h)" by (metis prod_cases3)
  show ?thesis
    using grows_trans[OF grows_trans[OF grows_alloc_store[OF a] grows_add_req[of g h "AddCharacteristic (Uuid_long u) bp ptr"]]
        grows_push_char[of _ _ cp "ah_char ah (g_reqs (add_req (AddCharacteristic (Uuid_long u) bp ptr) g))"]]
    by (simp add: nus_char_def a Let_def)
qed

lemma grows_set_nus: "grows s (g, h) us ps ds n \<Longrightarrow> grows s (g\<lparr>g_nus_rx := i, g_nus_tx := j\<rparr>, h) us ps ds n"
  by (cases s) (simp add: grows_def build_inv_def desc_ids_def)

lemma two_nus_chars_grow:
  "grows s (nus_char ah u2 b2 c2 (nus_char ah u1 b1 c1 (add_req (AddService v) (fst s), snd s)))
     [(Uuid_long u1, b1), (Uuid_long u2, b2)] [c1, c2] [] 2"
proof -
  let ?s = "(add_req (AddService v) (fst s), snd s)"
  have "grows s ?s [] [] [] 0" using grows_add_req[of "fst s" "snd s" "AddService v"] by simp
  from grows_trans[OF grows_trans[OF this nus_char_grows[of ?s ah u1 b1 c1]]
      nus_char_grows[of "nus_char ah u1 b1 c1 ?s" ah u2 b2 c2]]
  show ?thesis by (simp add: numeral_2_eq_2)
qed

lemma build_nus_grows:
  "grows s (build_nus ah s) [(Uuid_long NUS_RX, 0x04 OR 0x08), (Uuid_long NUS_TX, 0x10)]
     [C_PROP_WRITE OR C_PROP_WRITE_NR, C_PROP_NOTIFY] [] 2"
  unfolding build_nus_def Let_def
  by (auto split: prod.split intro!: grows_set_nus)
     (metis two_nus_chars_grow fst_conv snd_conv)

text \<open>The table that \<^verbatim>\<open>build_gatt\<close> builds from the configured services.\<close>

lemma build_gatt_grows:
  assumes "build_gatt f gap ah cfg name h = (Some g, h')" "\<not> uses_nus cfg"
  obtains h1 h2 where "h' = Some h2"
    "gap_appearance gap (cfg_appearance cfg) h = (fst (gap_appearance gap (cfg_appearance cfg) h), g_appearance_store g, h1)"
    "grows (empty_gatt (g_appearance_store g), h1) (g, h2) (map char_req (flat_chars cfg))
       (map cd_props (flat_chars cfg)) (char_ids 0 (flat_chars cfg)) (n_stores (flat_chars cfg))"
proof -
  obtain a st h1 where ga: "gap_appearance gap (cfg_appearance cfg) h = (a, st, h1)" by (metis prod_cases3)
  obtain h2 where b: "add_services f ah (cfg_service_list cfg) (empty_gatt st, h1) = (g, h2)" "h' = Some h2"
    using assms by (auto simp: build_gatt_def ga split: if_splits prod.splits)
  have *: "grows (empty_gatt st, h1) (g, h2) (map char_req (flat_chars cfg))
       (map cd_props (flat_chars cfg)) (char_ids 0 (flat_chars cfg)) (n_stores (flat_chars cfg))"
    using add_services_grows[of "(empty_gatt st, h1)" f ah "cfg_service_list cfg"]
    unfolding b(1) flat_chars_def[symmetric] by (simp add: empty_gatt_def)
  then have "g_appearance_store g = st" by (simp add: grows_def empty_gatt_def)
  then show thesis using that[OF b(2), of h1] * ga by simp
qed

lemma build_gatt_shape:
  assumes "build_gatt f gap ah cfg name h = (Some g, h')" "\<not> uses_nus cfg"
  shows "char_reqs (g_reqs g) = map char_req (flat_chars cfg)" "g_props g = map cd_props (flat_chars cfg)"
    "length (g_chars g) = length (flat_chars cfg)" "desc_ids g = char_ids 0 (flat_chars cfg)"
proof -
  obtain h1 h2 where "grows (empty_gatt (g_appearance_store g), h1) (g, h2) (map char_req (flat_chars cfg))
       (map cd_props (flat_chars cfg)) (char_ids 0 (flat_chars cfg)) (n_stores (flat_chars cfg))"
    using build_gatt_grows[OF assms] by metis
  then show "char_reqs (g_reqs g) = map char_req (flat_chars cfg)" "g_props g = map cd_props (flat_chars cfg)"
    "length (g_chars g) = length (flat_chars cfg)" "desc_ids g = char_ids 0 (flat_chars cfg)"
    by (simp_all add: grows_def empty_gatt_def char_reqs_def desc_ids_def)
qed

section \<open>Searching by index\<close>

text \<open>\<^verbatim>\<open>iter().enumerate()\<close> with the first hit returned.\<close>

primrec position :: "('a \<Rightarrow> bool) \<Rightarrow> 'a list \<Rightarrow> nat option" where
  "position P [] = None"
| "position P (x # xs) = (if P x then Some 0 else map_option Suc (position P xs))"

lemma position_None: "position P xs = None \<longleftrightarrow> (\<forall>x \<in> set xs. \<not> P x)"
  by (induction xs) auto

lemma position_Some:
  "position P xs = Some i \<longleftrightarrow> i < length xs \<and> P (xs ! i) \<and> (\<forall>j < i. \<not> P (xs ! j))"
proof (induction xs arbitrary: i)
  case Nil
  then show ?case by simp
next
  case (Cons x xs)
  show ?case by (cases i) (auto simp: Cons.IH All_less_Suc2)
qed

lemma position_append:
  "position P (xs @ ys) =
     (case position P xs of Some i \<Rightarrow> Some i | None \<Rightarrow> map_option (\<lambda>j. length xs + j) (position P ys))"
proof (induction xs)
  case Nil
  then show ?case by (cases "position P ys") simp_all
next
  case (Cons x xs)
  then show ?case by (cases "position P xs"; cases "position P ys") auto
qed

lemma index_in_chars_position:
  "index_in_chars want n cs idx =
     (case position (char_matches want n) cs of
        Some i \<Rightarrow> (Some (idx + of_nat i), idx + of_nat i)
      | None \<Rightarrow> (None, idx + of_nat (length cs)))"
  by (induction cs arbitrary: idx) (auto split: option.split)

lemma index_in_services_position:
  "index_in_services want n svs idx =
     map_option (\<lambda>i. idx + of_nat i) (position (char_matches want n) (concat (map service_chars svs)))"
proof (induction svs arbitrary: idx)
  case Nil
  then show ?case by simp
next
  case (Cons sv svs)
  have raw: "sd_chars sv = Some m \<Longrightarrow> from_raw_parts m (unat (sd_num_chars sv)) = service_chars sv" for m
    by (simp add: service_chars_def slice_or_empty_def)
  have none: "sd_chars sv = None \<Longrightarrow> service_chars sv = []"
    by (simp add: service_chars_def slice_or_empty_def)
  show ?case
    by (cases "sd_chars sv")
       (auto simp: Cons.IH raw none index_in_chars_position position_append option.map_comp comp_def
         add.assoc split: option.split)
qed

section \<open>Properties\<close>

lemma char_matches_uuid:
  assumes "char_matches (from_raw_parts u (unat n)) n c" "n = 2 \<or> n = 16"
  shows "uuid_from (cd_uuid c) (cd_uuid_len c) = uuid_from (Some u) n"
proof -
  obtain m where m: "cd_uuid c = Some m" "cd_uuid_len c = n"
    and eq: "from_raw_parts m (unat n) = from_raw_parts u (unat n)"
    using assms(1) by (auto simp: char_matches_def is_null_def slice_or_empty_def)
  have "m i = u i" if "i < unat n" for i
    using arg_cong[OF eq, of "\<lambda>l. l ! i"] that by simp
  then show ?thesis
    using assms(2) eq m by (auto simp: uuid_from_def)
qed

text \<open>C17 (char_index_names_built_characteristic). For a configuration with its own services,
  \<^verbatim>\<open>runtime_ble_char_index\<close> computes from the configuration alone the index that the session's
  attribute table uses. Either it returns ERR_INVALID and no configured characteristic has
  the UUID, or it returns an index \<open>i\<close> inside the table such that the \<open>i\<close>-th
  characteristic \<^verbatim>\<open>build_gatt\<close> registered with the host has exactly that UUID and the
  properties kept at \<open>i\<close>, and no characteristic declared earlier matches. No index wraps.\<close>

theorem char_index_names_built_characteristic:
  assumes "build_gatt f gap ah cfg name h = (Some g, h')"
    and "\<not> uses_nus cfg"
    and "n = 2 \<or> n = 16"
    and "ix = runtime_ble_char_index (Some cfg) (Some u) n"
  shows "(ix = RUNTIME_BLE_ERR_INVALID
          \<and> (\<forall>c \<in> set (flat_chars cfg). \<not> char_matches (from_raw_parts u (unat n)) n c))
       \<or> (\<exists>i < length (g_chars g). ix = int i
          \<and> char_reqs (g_reqs g) ! i = (uuid_from (Some u) n, map_props (g_props g ! i))
          \<and> g_props g ! i = cd_props (flat_chars cfg ! i)
          \<and> (\<forall>j < i. \<not> char_matches (from_raw_parts u (unat n)) n (flat_chars cfg ! j)))"
proof -
  let ?P = "char_matches (from_raw_parts u (unat n)) n"
  note shape = build_gatt_shape[OF assms(1,2)]
  have ix: "ix = (case position ?P (flat_chars cfg) of None \<Rightarrow> RUNTIME_BLE_ERR_INVALID | Some i \<Rightarrow> uint (of_nat i :: u16))"
    using assms(2-4) by (auto simp: runtime_ble_char_index_def uses_nus_def index_in_services_position
        flat_chars_def[symmetric] split: option.split)
  show ?thesis
  proof (cases "position ?P (flat_chars cfg)")
    case None
    then have "ix = RUNTIME_BLE_ERR_INVALID" using ix by simp
    then show ?thesis using None[unfolded position_None] by blast
  next
    case (Some i)
    then have i: "i < length (flat_chars cfg)" "?P (flat_chars cfg ! i)" "\<forall>j < i. \<not> ?P (flat_chars cfg ! j)"
      by (simp_all add: position_Some)
    have "i < 65536" using i(1) flat_chars_len[of cfg] by linarith
    then have "ix = int i" using ix Some by (simp add: unsigned_of_nat take_bit_nat_eq_self)
    moreover have "char_reqs (g_reqs g) ! i = (uuid_from (Some u) n, map_props (g_props g ! i))"
      using i(1) char_matches_uuid[OF i(2) assms(3)] by (simp add: shape char_req_def)
    ultimately show ?thesis using i by (auto simp: shape)
  qed
qed

lemma char_descs_len: "length (char_descs c) \<le> 255"
proof -
  have "(unsigned (cd_num_descriptors c) :: nat) < 256" using unsigned_less[of "cd_num_descriptors c"] by simp
  then show ?thesis by (simp add: char_descs_def slice_or_empty_def split: option.split)
qed

lemma ids_from_distinct: "n \<le> 255 \<Longrightarrow> distinct (ids_from ci 0 n)"
  by (auto simp: ids_from_def distinct_map inj_on_def word_unat_eq_iff unsigned_of_nat take_bit_nat_eq_self
      simp flip: of_nat_min)

lemma char_ids_fst: "p \<in> set (char_ids n cs) \<Longrightarrow> \<exists>k. n \<le> k \<and> k < n + length cs \<and> fst p = of_nat k"
proof (induction cs arbitrary: n)
  case (Cons c cs)
  then consider "p \<in> set (ids_from (of_nat n) 0 (length (char_descs c)))" | "p \<in> set (char_ids (Suc n) cs)" by auto
  then show ?case
  proof cases
    case 1
    then show ?thesis by (intro exI[of _ n]) (auto simp: ids_from_def)
  next
    case 2
    then show ?thesis using Cons.IH[OF 2] by (metis Suc_leD add_Suc_shift length_Cons)
  qed
qed simp

lemma char_ids_distinct: "n + length cs \<le> 65536 \<Longrightarrow> distinct (char_ids n cs)"
proof (induction cs arbitrary: n)
  case (Cons c cs)
  have "set (ids_from (of_nat n) 0 (length (char_descs c))) \<inter> set (char_ids (Suc n) cs) = {}"
  proof (rule ccontr)
    assume "set (ids_from (of_nat n) 0 (length (char_descs c))) \<inter> set (char_ids (Suc n) cs) \<noteq> {}"
    then obtain p k where "fst p = (of_nat n :: u16)" "Suc n \<le> k" "k < Suc n + length cs" "fst p = (of_nat k :: u16)"
      using char_ids_fst[of _ "Suc n" cs] by (fastforce simp: ids_from_def)
    then have "n = k"
      using Cons.prems by (auto simp: word_unat_eq_iff unsigned_of_nat take_bit_nat_eq_self)
    with \<open>Suc n \<le> k\<close> show False by simp
  qed
  moreover have "distinct (char_ids (Suc n) cs)" using Cons.IH[of "Suc n"] Cons.prems by simp
  ultimately show ?case using ids_from_distinct[OF char_descs_len] by simp
qed simp

text \<open>A configuration with one service of two characteristics, the second with one writable and
  one read-only descriptor.\<close>

definition ex_desc :: "u16 \<Rightarrow> RuntimeBleDescDef" where
  "ex_desc p = \<lparr>dd_uuid = Some (\<lambda>i. [0x01, 0x29] ! i), dd_uuid_len = 2, dd_value = Some (\<lambda>i. 7),
     dd_value_len = 3, dd_permissions = p\<rparr>"

definition ex_char :: "u8 \<Rightarrow> RuntimeBleDescDef ptr \<Rightarrow> u8 \<Rightarrow> RuntimeBleCharDef" where
  "ex_char b ds n = \<lparr>cd_uuid = Some (\<lambda>i. [b, 0x2A] ! i), cd_uuid_len = 2, cd_props = 9, cd_max_len = 20,
     cd_permissions = 0, cd_descriptors = ds, cd_num_descriptors = n\<rparr>"

definition ex_service :: RuntimeBleServiceDef where
  "ex_service = \<lparr>sd_uuid = Some (\<lambda>i. [0x0F, 0x18] ! i), sd_uuid_len = 2,
     sd_chars = Some (\<lambda>i. [ex_char 0x19 None 0, ex_char 0x1A (Some (\<lambda>j. [ex_desc 64, ex_desc 0] ! j)) 2] ! i),
     sd_num_chars = 2\<rparr>"

definition ex_cfg :: RuntimeCfg where
  "ex_cfg = flatten_config zero_config\<lparr>cfg_services := Some (\<lambda>i. ex_service), cfg_num_services := 1, cfg_appearance := 961\<rparr>"

definition ex_host :: att_host where
  "ex_host = \<lparr>ah_gap_ok = (\<lambda>_ _. True),
     ah_char = (\<lambda>rs. (of_nat (3 * length rs), Some (of_nat (3 * length rs + 1)))),
     ah_desc = (\<lambda>rs. of_nat (3 * length rs + 2))\<rparr>"

definition ex_heap :: heap where "ex_heap = \<lparr>hp_next = 5, hp_live = [2, 4]\<rparr>"

lemmas ex_gatt_defs = ex_desc_def ex_char_def ex_service_def ex_cfg_def ex_host_def ex_heap_def

lemma ex_uses: "\<not> uses_nus ex_cfg"
  by (simp add: uses_nus_def ex_cfg_def)

lemma ex_build: "\<exists>g h'. build_gatt full_build gap_std ex_host ex_cfg [65] ex_heap = (Some g, h')"
  using ex_uses by (simp add: build_gatt_def ex_host_def split: prod.split)

lemma ex_flat: "flat_chars ex_cfg = [ex_char 0x19 None 0, ex_char 0x1A (Some (\<lambda>j. [ex_desc 64, ex_desc 0] ! j)) 2]"
  by (simp add: flat_chars_def cfg_service_list_def service_chars_def ex_cfg_def ex_service_def
      slice_or_empty_def from_raw_parts_def upt_rec)

lemma ex_char_descs:
  "char_descs (ex_char 0x19 None 0) = []"
  "char_descs (ex_char 0x1A (Some (\<lambda>j. [ex_desc 64, ex_desc 0] ! j)) 2) = [ex_desc 64, ex_desc 0]"
  by (simp_all add: char_descs_def ex_char_def slice_or_empty_def from_raw_parts_def upt_rec)

lemma ex_index: "runtime_ble_char_index (Some ex_cfg) (Some (\<lambda>i. [0x1A, 0x2A] ! i)) 2 = 1"
proof -
  have "position (char_matches (from_raw_parts (\<lambda>i. [0x1A, 0x2A] ! i) 2) 2) (flat_chars ex_cfg) = Some 1"
    by (simp add: ex_flat char_matches_def ex_char_def slice_or_empty_def from_raw_parts_def upt_rec)
  then show ?thesis
    using ex_uses
    by (simp add: runtime_ble_char_index_def uses_nus_def index_in_services_position flat_chars_def[symmetric])
qed

theorem char_index_names_built_characteristic_witness:
  "\<exists>g h'. build_gatt full_build gap_std ex_host ex_cfg [65] ex_heap = (Some g, h')
     \<and> runtime_ble_char_index (Some ex_cfg) (Some (\<lambda>i. [0x1A, 0x2A] ! i)) 2 = 1
     \<and> char_reqs (g_reqs g) ! 1 = (uuid_from (Some (\<lambda>i. [0x1A, 0x2A] ! i)) 2, map_props (g_props g ! 1))"
proof -
  obtain g h' where b: "build_gatt full_build gap_std ex_host ex_cfg [65] ex_heap = (Some g, h')"
    using ex_build by blast
  have "\<exists>i < length (g_chars g). (1::int) = int i
     \<and> char_reqs (g_reqs g) ! i = (uuid_from (Some (\<lambda>i. [0x1A, 0x2A] ! i)) 2, map_props (g_props g ! i))"
    using char_index_names_built_characteristic[OF b ex_uses _ ex_index[symmetric]]
    by (auto simp: result_codes)
  then show ?thesis using b ex_index by (auto intro!: exI[of _ g])
qed

lemma char_ids_explicit:
  "char_ids n cs = concat (map (\<lambda>i. map (\<lambda>j. (of_nat (n + i), of_nat j)) [0..<length (char_descs (cs ! i))]) [0..<length cs])"
proof (induction cs arbitrary: n)
  case (Cons c cs)
  have ids: "ids_from ci 0 (length (char_descs c)) = map (\<lambda>j. (ci, of_nat j)) [0..<length (char_descs c)]" for ci
    unfolding ids_from_def using char_descs_len[of c] by (intro map_cong) auto
  have upt: "[0..<Suc (length cs)] = 0 # map Suc [0..<length cs]"
    by (simp add: upt_conv_Cons map_Suc_upt del: upt_Suc)
  show ?case
    by (simp add: ids Cons.IH upt comp_def ac_simps del: upt_Suc)
qed simp

text \<open>Result (descriptors_identified). The descriptor table \<^verbatim>\<open>build_gatt\<close> records lists, in
  declaration order, every descriptor under the index of its own characteristic and its own
  position there: nothing is clamped or wrapped, and no two descriptors carry the same pair,
  so \<^verbatim>\<open>on_descriptor_write\<close> identifies one configured descriptor. (The characteristic index
  is the length of \<^verbatim>\<open>chars\<close> before the push, so it is right although it is computed first.)\<close>

theorem descriptors_identified:
  assumes "build_gatt f gap ah cfg name h = (Some g, h')"
    and "\<not> uses_nus cfg"
  shows "map (\<lambda>m. (dm_chr m, dm_desc m)) (g_descs g) =
      concat (map (\<lambda>i. map (\<lambda>j. (of_nat i, of_nat j)) [0..<length (char_descs (flat_chars cfg ! i))])
        [0..<length (flat_chars cfg)])
    \<and> distinct (map (\<lambda>m. (dm_chr m, dm_desc m)) (g_descs g))"
proof -
  have "desc_ids g = char_ids 0 (flat_chars cfg)" by (rule build_gatt_shape[OF assms])
  moreover have "distinct (char_ids 0 (flat_chars cfg))"
    using flat_chars_len[of cfg] by (intro char_ids_distinct) simp
  ultimately show ?thesis using char_ids_explicit[of 0 "flat_chars cfg"] by (simp add: desc_ids_def)
qed

theorem descriptors_identified_witness:
  "\<exists>g h'. build_gatt full_build gap_std ex_host ex_cfg [65] ex_heap = (Some g, h')
     \<and> map (\<lambda>m. (dm_chr m, dm_desc m)) (g_descs g) = [(1, 0), (1, 1)]"
proof -
  obtain g h' where b: "build_gatt full_build gap_std ex_host ex_cfg [65] ex_heap = (Some g, h')"
    using ex_build by blast
  show ?thesis
    using b descriptors_identified[OF b ex_uses]
    by (simp add: ex_flat ex_char_descs upt_rec)
qed

section \<open>Teardown\<close>

text \<open>The end of \<^verbatim>\<open>serve_session\<close>: the buffers, then the appearance, turned back into boxes.\<close>

primrec free_all :: "nat list \<Rightarrow> heap \<Rightarrow> heap option" where
  "free_all [] h = Some h"
| "free_all (p # ps) h = (case box_free p h of None \<Rightarrow> None | Some h' \<Rightarrow> free_all ps h')"

definition session_teardown :: "gatt \<Rightarrow> heap \<Rightarrow> heap option" where
  "session_teardown g h =
     (case free_all (g_stores g) h of
        None \<Rightarrow> None
      | Some h' \<Rightarrow> (case g_appearance_store g of None \<Rightarrow> Some h' | Some ptr \<Rightarrow> box_free ptr h'))"

lemma free_all_live: "hp_live h = ps @ L \<Longrightarrow> \<exists>h'. free_all ps h = Some h' \<and> hp_live h' = L"
  by (induction ps arbitrary: h) (simp_all add: box_free_def)

lemma free_all_stores:
  "hp_live h = rev ps @ L \<Longrightarrow> distinct (hp_live h) \<Longrightarrow> \<exists>h'. free_all ps h = Some h' \<and> hp_live h' = L"
proof (induction ps arbitrary: h)
  case (Cons p ps)
  then have "box_free p h = Some (h\<lparr>hp_live := rev ps @ L\<rparr>)"
    by (auto simp: box_free_def remove1_append)
  moreover have "\<exists>h'. free_all ps (h\<lparr>hp_live := rev ps @ L\<rparr>) = Some h' \<and> hp_live h' = L"
    using Cons.prems by (intro Cons.IH) auto
  ultimately show ?case by simp
qed simp

lemma build_gatt_balanced:
  assumes "heap_wf h"
  shows "case build_gatt f gap ah cfg name h of
      (None, h') \<Rightarrow> \<exists>h2. h' = Some h2 \<and> hp_live h2 = hp_live h
    | (Some g, h') \<Rightarrow> \<exists>h2 h3. h' = Some h2 \<and> distinct (hp_live h2)
        \<and> length (g_stores g) = (if uses_nus cfg then 2 else
            sum_list (map (\<lambda>c. Suc (n_writable (char_descs c))) (flat_chars cfg)))
        \<and> set (g_stores g) \<inter> set (hp_live h) = {}
        \<and> session_teardown g h2 = Some h3 \<and> hp_live h3 = hp_live h"
proof -
  obtain a st h1 where ga: "gap_appearance gap (cfg_appearance cfg) h = (a, st, h1)" by (metis prod_cases3)
  have h1: "heap_wf h1 \<and> hp_live h1 = (case st of None \<Rightarrow> hp_live h | Some p \<Rightarrow> p # hp_live h)"
    using ga assms by (auto simp: gap_appearance_def box_new_def heap_wf_def less_Suc_eq split: if_splits)
  have free_ap: "\<exists>h2. (case st of None \<Rightarrow> Some k | Some p \<Rightarrow> box_free p k) = Some h2 \<and> hp_live h2 = hp_live h"
    if "hp_live k = hp_live h1" for k
    using h1 that by (auto simp: box_free_def split: option.splits)
  obtain g h2 where b: "(if uses_nus cfg then build_nus ah (empty_gatt st, h1)
      else add_services f ah (cfg_service_list cfg) (empty_gatt st, h1)) = (g, h2)" by fastforce
  let ?n = "if uses_nus cfg then 2 else n_stores (flat_chars cfg)"
  have "\<exists>us ps ds. grows (empty_gatt st, h1) (g, h2) us ps ds ?n"
    using b add_services_grows[of "(empty_gatt st, h1)" f ah "cfg_service_list cfg"]
      build_nus_grows[of "(empty_gatt st, h1)" ah]
    by (auto simp: flat_chars_def split: if_splits)
  moreover have "build_inv h1 (empty_gatt st, h1)" using h1 by (simp add: build_inv_def empty_gatt_def)
  ultimately have inv: "build_inv h1 (g, h2)" "length (g_stores g) = ?n" "g_appearance_store g = st"
    by (auto simp: grows_def empty_gatt_def)
  then have live: "hp_live h2 = rev (g_stores g) @ hp_live h1" "distinct (hp_live h2)"
    by (auto simp: build_inv_def heap_wf_def)
  obtain k where k: "free_all (g_stores g) h2 = Some k" "hp_live k = hp_live h1"
    using free_all_stores[OF live] by blast
  obtain h3 where h3: "session_teardown g h2 = Some h3" "hp_live h3 = hp_live h"
    using free_ap[OF k(2)] k inv(3) by (auto simp: session_teardown_def)
  have disj: "set (g_stores g) \<inter> set (hp_live h) = {}"
    using live h1 by (auto split: option.splits)
  show ?thesis
  proof (cases "ah_gap_ok ah name a")
    case True
    then have "build_gatt f gap ah cfg name h = (Some g, Some h2)" using ga b by (simp add: build_gatt_def)
    then show ?thesis using live(2) inv(2) disj h3 by (simp add: n_stores_def)
  next
    case False
    then have "build_gatt f gap ah cfg name h = (None, case st of None \<Rightarrow> Some h1 | Some p \<Rightarrow> box_free p h1)"
      using ga by (simp add: build_gatt_def)
    then show ?thesis using free_ap[of h1] by simp
  qed
qed

text \<open>Result (session_memory_balanced). A load/unload cycle leaks no RAM and frees nothing twice:
  from any heap, either the GAP service cannot be built and the heap is as it was, or the
  table is built with one buffer per characteristic and per writable descriptor (plus the
  appearance), all live and all different, and the teardown succeeds and leaves exactly the
  boxes that were live before the session.\<close>

theorem session_memory_balanced:
  assumes "heap_wf h"
  shows "case build_gatt f gap ah cfg name h of
      (None, h') \<Rightarrow> \<exists>h2. h' = Some h2 \<and> hp_live h2 = hp_live h
    | (Some g, h') \<Rightarrow> \<exists>h2 h3. h' = Some h2 \<and> distinct (hp_live h2)
        \<and> length (g_stores g) = (if uses_nus cfg then 2 else
            sum_list (map (\<lambda>c. Suc (n_writable (char_descs c))) (flat_chars cfg)))
        \<and> set (g_stores g) \<inter> set (hp_live h) = {}
        \<and> session_teardown g h2 = Some h3 \<and> hp_live h3 = hp_live h"
  by (rule build_gatt_balanced[OF assms])

theorem session_memory_balanced_witness:
  "\<exists>g h2 h3. build_gatt full_build gap_std ex_host ex_cfg [65] ex_heap = (Some g, Some h2)
     \<and> length (g_stores g) = 3 \<and> session_teardown g h2 = Some h3 \<and> hp_live h3 = [2, 4]"
proof -
  obtain g h' where b: "build_gatt full_build gap_std ex_host ex_cfg [65] ex_heap = (Some g, h')"
    using ex_build by blast
  have wf: "heap_wf ex_heap" by (simp add: heap_wf_def ex_heap_def)
  have n: "sum_list (map (\<lambda>c. Suc (n_writable (char_descs c))) (flat_chars ex_cfg)) = 3"
    by (simp add: ex_flat ex_char_descs n_writable_def)
      (simp add: ex_desc_def descriptor_is_writable_def c_perm_defs)
  show ?thesis
    using session_memory_balanced[OF wf, where f = full_build and gap = gap_std and ah = ex_host and cfg = ex_cfg
        and name = "[65]", unfolded b prod.case option.case n]
      ex_uses b
    by (auto simp: ex_heap_def)
qed

end
