(* ===== verification/GattServer.thy ===== *)
theory GattServer
  imports Gatt TxApi
begin

text \<open>
  Serving the attribute table during a connection: the GATT half of the event loop of
  \<^verbatim>\<open>connection_task\<close> (\<^verbatim>\<open>radio.rs\<close>), which turns the peer's requests into callbacks and
  replies, and its \<^verbatim>\<open>tx\<close> loop, which turns the queued transmission into a notification or
  an indication. The request's data is what the host hands to the closure of \<^verbatim>\<open>with_data\<close>
  (\<open>None\<close> when it is not called); whether sending a reply succeeds is ignored by the code.
\<close>

section \<open>Requests\<close>

datatype gatt_out =
    AcceptWrite
  | AcceptRead
  | AcceptReadWith "u8 list"
  | AcceptOther
  | GattCallback cb_event
  | SendNotify u16 "u8 list"
  | SendIndicate u16 "u8 list"

datatype gatt_event =
    WriteEvent u16 "(nat \<times> u8 list) option"
  | ReadEvent u16
  | OtherEvent

definition gcb :: "cb_event list \<Rightarrow> gatt_out list" where
  "gcb es = map GattCallback es"

text \<open>The loop over \<^verbatim>\<open>gatt.chars\<close> that finds whose value or subscription a handle is:
  the pair of \<^verbatim>\<open>idx\<close> and \<^verbatim>\<open>sub_idx\<close>.\<close>

primrec write_target :: "u16 \<Rightarrow> nat \<Rightarrow> (u16 \<times> u16 option) list \<Rightarrow> nat \<times> nat" where
  "write_target h i [] = (USIZE_MAX, USIZE_MAX)"
| "write_target h i (c # cs) =
     (if fst c = h then (i, USIZE_MAX)
      else if snd c = Some h then (USIZE_MAX, i)
      else write_target h (Suc i) cs)"

definition find_desc :: "u16 \<Rightarrow> gatt \<Rightarrow> desc_meta option" where
  "find_desc h g = find (\<lambda>d. dm_handle d = h) (g_descs g)"

definition u16_clamp :: "nat \<Rightarrow> u16" where
  "u16_clamp n = of_nat (min n 65535)"

text \<open>What the closure of \<^verbatim>\<open>with_data\<close> leaves in \<^verbatim>\<open>offset\<close>, \<^verbatim>\<open>buf[..n]\<close>, \<^verbatim>\<open>notify_enabled\<close>
  and \<^verbatim>\<open>indicate_enabled\<close>.\<close>

definition write_data :: "features \<Rightarrow> bool \<Rightarrow> (nat \<times> u8 list) option \<Rightarrow> u16 \<times> u8 list \<times> u8 \<times> u8" where
  "write_data f is_sub wd =
     (case wd of
        None \<Rightarrow> (0, [], 0, 0)
      | Some (off, data) \<Rightarrow>
          let n = min (length data) (VALUE_LEN f);
              buf = blit (replicate (VALUE_LEN f) 0) 0 (take n data);
              (ne, ie) =
                (if is_sub \<and> length data \<ge> 2
                 then let cccd = u16_from_le_bytes (data ! 0) (data ! 1)
                      in (if cccd AND 0x0001 \<noteq> 0 then 1 else 0, if cccd AND 0x0002 \<noteq> 0 then 1 else 0)
                 else (0, 0))
          in (u16_clamp off, take n buf, ne, ie))"

definition gatt_write :: "features \<Rightarrow> RuntimeCfg \<Rightarrow> gatt \<Rightarrow> u16 \<Rightarrow> (nat \<times> u8 list) option \<Rightarrow> gatt_out list" where
  "gatt_write f cfg g h wd =
     (let (idx, sub_idx) = write_target h 0 (g_chars g);
          desc_meta = (if idx = USIZE_MAX \<and> sub_idx = USIZE_MAX then find_desc h g else None);
          (offset, data, ne, ie) =
            (if idx \<noteq> USIZE_MAX \<or> sub_idx \<noteq> USIZE_MAX \<or> desc_meta \<noteq> None
             then write_data f (sub_idx \<noteq> USIZE_MAX) wd else (0, [], 0, 0));
          cb = cfg_callbacks cfg
      in AcceptWrite #
         gcb (if idx \<noteq> USIZE_MAX then
                (if idx = g_nus_rx g then emit (on_data cb) cfg (OnData data)
                 else if on_write_ext cb then emit True cfg (OnWriteExt (of_nat idx) offset data)
                 else emit (on_write cb) cfg (OnWrite (of_nat idx) data))
              else if sub_idx \<noteq> USIZE_MAX then
                emit (on_subscription cb) cfg (OnSubscription (of_nat sub_idx) ne ie)
              else (case desc_meta of
                 None \<Rightarrow> []
               | Some m \<Rightarrow>
                   if on_descriptor_write_ext cb
                   then emit True cfg (OnDescriptorWriteExt (dm_handle m) (dm_chr m) (dm_desc m) offset data)
                   else emit (on_descriptor_write cb) cfg (OnDescriptorWrite (dm_handle m) (dm_chr m) (dm_desc m) data))))"

text \<open>The read loop looks at value handles only.\<close>

primrec read_target :: "u16 \<Rightarrow> nat \<Rightarrow> (u16 \<times> u16 option) list \<Rightarrow> nat" where
  "read_target h i [] = USIZE_MAX"
| "read_target h i (c # cs) = (if fst c = h then i else read_target h (Suc i) cs)"

text \<open>\<^verbatim>\<open>out[..n]\<close> after the callback has filled the buffer and returned a count.\<close>

definition read_reply :: "features \<Rightarrow> u8 list \<times> nat \<Rightarrow> u8 list" where
  "read_reply f r =
     (let out = take (VALUE_LEN f) (fst r @ replicate (VALUE_LEN f) 0);
          n = min (snd r) (VALUE_LEN f)
      in take n out)"

definition gatt_read :: "features \<Rightarrow> RuntimeCfg \<Rightarrow> gatt \<Rightarrow> u16 \<Rightarrow> gatt_out list" where
  "gatt_read f cfg g h =
     (let idx = read_target h 0 (g_chars g); cb = cfg_callbacks cfg
      in if idx \<noteq> USIZE_MAX then
           (case on_read_value cb of
              Some rv \<Rightarrow>
                gcb (emit True cfg (OnReadValue (of_nat idx) (VALUE_LEN f)))
                @ [AcceptReadWith (read_reply f (rv (of_nat idx) (VALUE_LEN f)))]
            | None \<Rightarrow> [AcceptRead])
         else (case find_desc h g of
            Some m \<Rightarrow>
              (case on_descriptor_read_value cb of
                 Some rv \<Rightarrow>
                   gcb (emit True cfg (OnDescriptorReadValue (dm_handle m) (dm_chr m) (dm_desc m) (VALUE_LEN f)))
                   @ [AcceptReadWith (read_reply f (rv (dm_handle m) (dm_chr m) (dm_desc m) (VALUE_LEN f)))]
               | None \<Rightarrow> [AcceptRead])
          | None \<Rightarrow> [AcceptRead]))"

definition gatt_event_step :: "features \<Rightarrow> RuntimeCfg \<Rightarrow> gatt \<Rightarrow> gatt_event \<Rightarrow> gatt_out list" where
  "gatt_event_step f cfg g ev =
     (case ev of
        WriteEvent h wd \<Rightarrow> gatt_write f cfg g h wd
      | ReadEvent h \<Rightarrow> gatt_read f cfg g h
      | OtherEvent \<Rightarrow> [AcceptOther])"

section \<open>The transmit loop\<close>

definition tx_send :: "gatt \<Rightarrow> usize \<times> usize \<times> u8 list \<Rightarrow> gatt_out list" where
  "tx_send g m =
     (let (chr, kind, bytes) = m;
          target = (if chr = NUS_TX_CHR then g_nus_tx g else unat chr)
      in if target < length (g_chars g) then
           let c = g_chars g ! target;
               props = (if target < length (g_props g) then g_props g ! target else 0)
           in if kind = SEND_KIND_INDICATE then
                (if props AND C_PROP_INDICATE \<noteq> 0 then [SendIndicate (fst c) bytes] else [])
              else if props AND C_PROP_NOTIFY \<noteq> 0 then [SendNotify (fst c) bytes]
              else if props AND C_PROP_INDICATE \<noteq> 0 then [SendIndicate (fst c) bytes]
              else []
         else [])"

definition tx_turn :: "features \<Rightarrow> gatt \<Rightarrow> shared \<Rightarrow> gatt_out list \<times> shared" where
  "tx_turn f g s =
     (case tx_fetch f s of
        (None, s') \<Rightarrow> ([], s')
      | (Some m, s') \<Rightarrow> (tx_send g m, s'))"

section \<open>Attributes and their handles\<close>

text \<open>The attributes the runtime serves, each under the handle the host gave it.\<close>

datatype attr =
    ValueAttr nat
  | CccdAttr nat
  | DescAttr desc_meta

primrec char_attrs :: "nat \<Rightarrow> (u16 \<times> u16 option) list \<Rightarrow> (u16 \<times> attr) list" where
  "char_attrs i [] = []"
| "char_attrs i (c # cs) =
     (fst c, ValueAttr i) # (case snd c of None \<Rightarrow> [] | Some h \<Rightarrow> [(h, CccdAttr i)]) @ char_attrs (Suc i) cs"

definition attributes :: "gatt \<Rightarrow> (u16 \<times> attr) list" where
  "attributes g = char_attrs 0 (g_chars g) @ map (\<lambda>d. (dm_handle d, DescAttr d)) (g_descs g)"

definition handles_distinct :: "gatt \<Rightarrow> bool" where
  "handles_distinct g \<longleftrightarrow> distinct (map fst (attributes g))"

text \<open>What a write to an attribute means to the application, and what a read does.\<close>

fun write_callback :: "features \<Rightarrow> RuntimeCfg \<Rightarrow> gatt \<Rightarrow> attr \<Rightarrow> nat \<Rightarrow> u8 list \<Rightarrow> cb_event list" where
  "write_callback f cfg g (ValueAttr i) off data =
     (let cb = cfg_callbacks cfg; d = take (VALUE_LEN f) data in
      if i = g_nus_rx g then emit (on_data cb) cfg (OnData d)
      else if on_write_ext cb then [(OnWriteExt (of_nat i) (of_nat (min off 65535)) d, cfg_user cfg)]
      else emit (on_write cb) cfg (OnWrite (of_nat i) d))"
| "write_callback f cfg g (CccdAttr i) off data =
     (let on = (\<lambda>b. 2 \<le> length data \<and> bit (u16_from_le_bytes (data ! 0) (data ! 1)) b) in
      emit (on_subscription (cfg_callbacks cfg)) cfg
        (OnSubscription (of_nat i) (if on 0 then 1 else 0) (if on 1 then 1 else 0)))"
| "write_callback f cfg g (DescAttr m) off data =
     (let cb = cfg_callbacks cfg; d = take (VALUE_LEN f) data in
      if on_descriptor_write_ext cb
      then [(OnDescriptorWriteExt (dm_handle m) (dm_chr m) (dm_desc m) (of_nat (min off 65535)) d, cfg_user cfg)]
      else emit (on_descriptor_write cb) cfg (OnDescriptorWrite (dm_handle m) (dm_chr m) (dm_desc m) d))"

fun read_outputs :: "features \<Rightarrow> RuntimeCfg \<Rightarrow> attr \<Rightarrow> gatt_out list" where
  "read_outputs f cfg (ValueAttr i) =
     (case on_read_value (cfg_callbacks cfg) of
        None \<Rightarrow> [AcceptRead]
      | Some rv \<Rightarrow> [GattCallback (OnReadValue (of_nat i) (VALUE_LEN f), cfg_user cfg),
          AcceptReadWith (read_reply f (rv (of_nat i) (VALUE_LEN f)))])"
| "read_outputs f cfg (CccdAttr i) = [AcceptRead]"
| "read_outputs f cfg (DescAttr m) =
     (case on_descriptor_read_value (cfg_callbacks cfg) of
        None \<Rightarrow> [AcceptRead]
      | Some rv \<Rightarrow> [GattCallback (OnDescriptorReadValue (dm_handle m) (dm_chr m) (dm_desc m) (VALUE_LEN f), cfg_user cfg),
          AcceptReadWith (read_reply f (rv (dm_handle m) (dm_chr m) (dm_desc m) (VALUE_LEN f)))])"

lemma write_target_map:
  "write_target h i cs =
     (case map_of (char_attrs i cs) h of
        Some (ValueAttr j) \<Rightarrow> (j, USIZE_MAX)
      | Some (CccdAttr j) \<Rightarrow> (USIZE_MAX, j)
      | _ \<Rightarrow> (USIZE_MAX, USIZE_MAX))"
  by (induction cs arbitrary: i) (auto split: option.split)

lemma find_desc_map:
  "map_of (map (\<lambda>d. (dm_handle d, DescAttr d)) ds) h = map_option DescAttr (find (\<lambda>d. dm_handle d = h) ds)"
  by (induction ds) auto

lemma char_attrs_range:
  "(h, a) \<in> set (char_attrs i cs) \<Longrightarrow> \<exists>j. i \<le> j \<and> j < i + length cs \<and> (a = ValueAttr j \<or> a = CccdAttr j)"
proof (induction cs arbitrary: i)
  case (Cons c cs)
  show ?case
  proof (cases "(h, a) \<in> set (char_attrs (Suc i) cs)")
    case True
    then show ?thesis using Cons.IH by fastforce
  next
    case False
    then have "a = ValueAttr i \<or> a = CccdAttr i" using Cons.prems by (auto split: option.splits)
    then show ?thesis by auto
  qed
qed simp

lemma char_attr_cases:
  assumes "length cs < USIZE_MAX"
  obtains (none) "map_of (char_attrs 0 cs) h = None"
  | (val) j where "map_of (char_attrs 0 cs) h = Some (ValueAttr j)" "j < USIZE_MAX"
  | (cccd) j where "map_of (char_attrs 0 cs) h = Some (CccdAttr j)" "j < USIZE_MAX"
proof (cases "map_of (char_attrs 0 cs) h")
  case (Some a)
  then have "(h, a) \<in> set (char_attrs 0 cs)" by (rule map_of_SomeD)
  then show thesis using char_attrs_range assms Some val cccd by (metis add_0 less_trans)
qed (rule none)

lemma read_target_map:
  "distinct (map fst (char_attrs i cs)) \<Longrightarrow>
     read_target h i cs = (case map_of (char_attrs i cs) h of Some (ValueAttr j) \<Rightarrow> j | _ \<Rightarrow> USIZE_MAX)"
proof (induction cs arbitrary: i)
  case (Cons c cs)
  then have IH: "read_target h (Suc i) cs =
      (case map_of (char_attrs (Suc i) cs) h of Some (ValueAttr j) \<Rightarrow> j | _ \<Rightarrow> USIZE_MAX)" by simp
  show ?case
  proof (cases "snd c = Some h \<and> fst c \<noteq> h")
    case True
    then have "map_of (char_attrs (Suc i) cs) h = None"
      using Cons.prems by (auto simp: map_of_eq_None_iff)
    then show ?thesis using True IH by auto
  next
    case False
    then show ?thesis using IH by (auto split: option.split)
  qed
qed simp

lemma write_data_simps:
  "write_data f is_sub (Some (off, data)) =
     (of_nat (min off 65535), take (VALUE_LEN f) data,
      if is_sub \<and> 2 \<le> length data \<and> bit (u16_from_le_bytes (data ! 0) (data ! 1)) 0 then 1 else 0,
      if is_sub \<and> 2 \<le> length data \<and> bit (u16_from_le_bytes (data ! 0) (data ! 1)) 1 then 1 else 0)"
  by (simp add: write_data_def u16_clamp_def Let_def mask_bits blit_def min_def)

lemma gatt_write_map:
  assumes "length (g_chars g) < USIZE_MAX"
  shows "gatt_write f cfg g h (Some (off, data)) =
     AcceptWrite # gcb (case map_of (attributes g) h of
        None \<Rightarrow> [] | Some a \<Rightarrow> write_callback f cfg g a off data)"
  using assms
  by (cases rule: char_attr_cases[of "g_chars g" h])
    (simp_all add: gatt_write_def attributes_def write_target_map find_desc_map find_desc_def[symmetric]
      map_add_def write_data_simps Let_def emit_def split: option.split)

lemma gatt_read_map:
  assumes "length (g_chars g) < USIZE_MAX" "handles_distinct g"
  shows "gatt_read f cfg g h =
     (case map_of (attributes g) h of None \<Rightarrow> [AcceptRead] | Some a \<Rightarrow> read_outputs f cfg a)"
proof -
  have d: "distinct (map fst (char_attrs 0 (g_chars g)))"
    using assms(2) by (simp add: handles_distinct_def attributes_def)
  have desc: "find_desc h g = None" if "map_of (char_attrs 0 (g_chars g)) h = Some a" for a
  proof -
    have "h \<in> fst ` set (char_attrs 0 (g_chars g))" using map_of_SomeD[OF that] by force
    then have "h \<notin> dm_handle ` set (g_descs g)"
      using assms(2) by (auto simp: handles_distinct_def attributes_def image_iff)
    then show ?thesis by (auto simp: find_desc_def find_None_iff)
  qed
  show ?thesis
    using desc
    by (cases rule: char_attr_cases[OF assms(1), of h])
      (auto simp: gatt_read_def attributes_def read_target_map[OF d] find_desc_map find_desc_def[symmetric]
        map_add_def Let_def emit_def gcb_def split: option.split)
qed

section \<open>Properties\<close>

lemma attr_lookup: "handles_distinct g \<Longrightarrow> (h, a) \<in> set (attributes g) \<Longrightarrow> map_of (attributes g) h = Some a"
  by (simp add: handles_distinct_def)

text \<open>C12 (requests_reach_their_attribute). When the host gives every attribute its own handle,
  a write to the handle of a characteristic value, a subscription or a descriptor is accepted
  and then reported by exactly one callback, the one configured for that attribute, with its
  index (never another's), the offset clamped and the data cut to the size of a value; the
  built-in UART's RX goes to \<^verbatim>\<open>on_data\<close>, the extended callbacks take precedence. A read is
  answered from the attribute's own callback, or by the host. A request for any other handle
  is accepted and nobody is called.\<close>

theorem requests_reach_their_attribute:
  assumes "length (g_chars g) < USIZE_MAX" and "handles_distinct g"
  shows "((h, a) \<in> set (attributes g) \<longrightarrow>
            gatt_event_step f cfg g (WriteEvent h (Some (off, data)))
              = AcceptWrite # map GattCallback (write_callback f cfg g a off data)
          \<and> gatt_event_step f cfg g (ReadEvent h) = read_outputs f cfg a)
       \<and> (h \<notin> fst ` set (attributes g) \<longrightarrow>
            gatt_event_step f cfg g (WriteEvent h (Some (off, data))) = [AcceptWrite]
          \<and> gatt_event_step f cfg g (ReadEvent h) = [AcceptRead])"
proof -
  have "map_of (attributes g) h = None" if "h \<notin> fst ` set (attributes g)"
    using that by (simp add: map_of_eq_None_iff)
  then show ?thesis
    using attr_lookup[OF assms(2), of h a]
    by (simp add: gatt_event_step_def gatt_write_map[OF assms(1)] gatt_read_map[OF assms] gcb_def)
qed

definition demo_gatt :: gatt where
  "demo_gatt = (empty_gatt None)\<lparr>g_chars := [(3, None), (5, Some 6)], g_props := [C_PROP_WRITE, C_PROP_NOTIFY],
     g_descs := [\<lparr>dm_handle = 9, dm_chr = 1, dm_desc = 0\<rparr>]\<rparr>"

definition demo_server_cfg :: RuntimeCfg where
  "demo_server_cfg = flatten_config zero_config\<lparr>
     cfg_callbacks := no_callbacks\<lparr>on_write := True, on_subscription := True\<rparr>\<rparr>"

theorem requests_reach_their_attribute_witness:
  "gatt_event_step full_build demo_server_cfg demo_gatt (WriteEvent 6 (Some (0, [1, 0])))
     = [AcceptWrite, GattCallback (OnSubscription 1 1 0, 0)]"
proof -
  have d: "length (g_chars demo_gatt) < USIZE_MAX" "handles_distinct demo_gatt"
    by (simp_all add: demo_gatt_def empty_gatt_def USIZE_MAX_def handles_distinct_def attributes_def)
  have m: "(6, CccdAttr 1) \<in> set (attributes demo_gatt)"
    by (simp add: demo_gatt_def attributes_def)
  show ?thesis
    using requests_reach_their_attribute[OF d, of 6 "CccdAttr 1" full_build demo_server_cfg 0 "[1, 0]"] m
    by (simp add: demo_server_cfg_def emit_def u16_from_le_bytes_def zero_config_def flatten_config_def bit_simps)
qed

lemma read_reply_len: "length (read_reply f r) \<le> VALUE_LEN f"
  by (simp add: read_reply_def Let_def)

text \<open>Result (read_reply_is_what_was_written). A read callback's answer: the peer receives exactly
  the first \<open>count\<close> bytes the callback wrote, never more than a value holds, whatever count
  the callback returns; bytes it claimed but did not write are zero.\<close>

theorem read_reply_is_what_was_written:
  "read_reply f (bytes, count) =
     take (min count (VALUE_LEN f)) bytes @ replicate (min count (VALUE_LEN f) - length bytes) 0"
proof -
  have "take k (take n (bytes @ replicate n 0)) = take k bytes @ replicate (k - length bytes) 0"
    if "k \<le> n" for k n :: nat
    using that by (simp add: min_def)
  then show ?thesis by (simp add: read_reply_def Let_def)
qed

text \<open>A call by the application followed by a turn of the transmit loop: the call's result, what
  the turn sends and the statics afterwards.\<close>

definition notify_run ::
  "features \<Rightarrow> gatt \<Rightarrow> u16 \<Rightarrow> u8 ptr \<Rightarrow> usize \<Rightarrow> shared \<Rightarrow> c_int \<times> gatt_out list \<times> shared" where
  "notify_run f g chr data len s = (let (r, s1) = runtime_ble_notify chr data len s in (r, tx_turn f g s1))"

definition indicate_run ::
  "features \<Rightarrow> gatt \<Rightarrow> u16 \<Rightarrow> u8 ptr \<Rightarrow> usize \<Rightarrow> shared \<Rightarrow> c_int \<times> gatt_out list \<times> shared" where
  "indicate_run f g chr data len s = (let (r, s1) = runtime_ble_indicate chr data len s in (r, tx_turn f g s1))"

text \<open>C7 (transmission_reaches_peer). From the application's call to the radio: a notification or
  an indication that \<^verbatim>\<open>runtime_ble_notify\<close> or \<^verbatim>\<open>runtime_ble_indicate\<close> accepts is sent by the next
  turn of the loop, once, on the handle of the characteristic that was named, as the kind
  the characteristic's properties allow (a notification falls back to an indication, an
  indication never to a notification), with the caller's first \<^verbatim>\<open>VALUE_LEN\<close> bytes, and the
  queue is free again. For an index outside the table nothing is sent.\<close>

theorem transmission_reaches_peer:
  assumes "tx_inv s" "\<not> SEND_REQ s" "len \<noteq> 0" "len \<le> SEND_BUF_CAP"
    and "length (g_props g) = length (g_chars g)"
  shows "\<exists>sent sent' s1 s2. notify_run f g chr (Some m) len s = (RUNTIME_BLE_OK, sent, s1) \<and> \<not> SEND_REQ s1
     \<and> indicate_run f g chr (Some m) len s = (RUNTIME_BLE_OK, sent', s2) \<and> \<not> SEND_REQ s2
     \<and> (if unat chr < length (g_chars g) then
          let h = fst (g_chars g ! unat chr); p = g_props g ! unat chr;
              bytes = take (VALUE_LEN f) (from_raw_parts m (unat len))
          in sent = (if bit p 3 then [SendNotify h bytes] else if bit p 4 then [SendIndicate h bytes] else [])
           \<and> sent' = (if bit p 4 then [SendIndicate h bytes] else [])
        else sent = [] \<and> sent' = [])"
proof -
  let ?bytes = "take (VALUE_LEN f) (from_raw_parts m (unat len))"
  have small: "unat chr < 65536" using unsigned_less[of chr] by simp
  have chr: "(ucast chr :: usize) \<noteq> NUS_TX_CHR" "unat (ucast chr :: usize) = unat chr"
  proof -
    show *: "unat (ucast chr :: usize) = unat chr" using small by (simp add: unsigned_ucast_eq take_bit_nat_eq_self)
    show "(ucast chr :: usize) \<noteq> NUS_TX_CHR"
    proof
      assume "(ucast chr :: usize) = NUS_TX_CHR"
      then have "unat chr = unat NUS_TX_CHR" using * by simp
      then show False using small by (simp add: NUS_TX_CHR_def usize_MAX_def unsigned_minus_1_eq_mask mask_eq_exp_minus_1)
    qed
  qed
  have len: "unat len \<le> 512" using assms(4) by (rule unat_le_cap)
  have queued: "tx_fetch f (snd (queue_tx (ucast chr) kind (Some m) len s))
      = (Some (ucast chr, kind, ?bytes), (snd (queue_tx (ucast chr) kind (Some m) len s))\<lparr>SEND_REQ := False\<rparr>)
      \<and> fst (queue_tx (ucast chr) kind (Some m) len s) = RUNTIME_BLE_OK" for kind
    using assms(1-4) len tx_fetch_pending[OF tx_inv_queue_tx[OF assms(1)], of f "ucast chr" kind "Some m" len]
    by (auto simp: queue_tx_def tx_pending_def not_less prod_eq_iff min_def)
  define s1 where "s1 = (snd (queue_tx (ucast chr) SEND_KIND_AUTO (Some m) len s))\<lparr>SEND_REQ := False\<rparr>"
  define s2 where "s2 = (snd (queue_tx (ucast chr) SEND_KIND_INDICATE (Some m) len s))\<lparr>SEND_REQ := False\<rparr>"
  have "notify_run f g chr (Some m) len s = (RUNTIME_BLE_OK, tx_send g (ucast chr, SEND_KIND_AUTO, ?bytes), s1)"
    using queued[of SEND_KIND_AUTO]
    by (simp add: notify_run_def runtime_ble_notify_def tx_turn_def case_prod_beta s1_def)
  moreover have "indicate_run f g chr (Some m) len s = (RUNTIME_BLE_OK, tx_send g (ucast chr, SEND_KIND_INDICATE, ?bytes), s2)"
    using queued[of SEND_KIND_INDICATE]
    by (simp add: indicate_run_def runtime_ble_indicate_def tx_turn_def case_prod_beta s2_def)
  moreover have "\<not> SEND_REQ s1" "\<not> SEND_REQ s2" by (simp_all add: s1_def s2_def)
  ultimately show ?thesis
    using assms(5) chr
    by (simp add: tx_send_def Let_def SEND_KIND_AUTO_def SEND_KIND_INDICATE_def c_prop_defs mask_bits)
qed

theorem transmission_reaches_peer_witness:
  "\<exists>s1. notify_run full_build demo_gatt 1 (Some (\<lambda>i. of_nat i)) 3 shared_init
     = (RUNTIME_BLE_OK, [SendNotify 5 [0, 1, 2]], s1) \<and> \<not> SEND_REQ s1"
proof -
  have s: "tx_inv shared_init" "\<not> SEND_REQ shared_init"
    by (simp_all add: tx_inv_def shared_init_def SEND_BUF_CAP_def)
  have len: "(3::usize) \<noteq> 0" "(3::usize) \<le> SEND_BUF_CAP"
    by (simp_all add: SEND_BUF_CAP_def)
  have g: "length (g_props demo_gatt) = length (g_chars demo_gatt)" by (simp add: demo_gatt_def)
  have bytes: "take (VALUE_LEN full_build) (from_raw_parts (\<lambda>i. of_nat i) (unat (3::usize))) = [0, 1, 2 :: u8]"
    by (simp add: VALUE_LEN_def from_raw_parts_def upt_rec full_build_def)
  show ?thesis
    using transmission_reaches_peer[OF s len g, of full_build 1 "\<lambda>i. of_nat i", unfolded bytes]
    by (auto simp: demo_gatt_def c_prop_defs bit_simps Let_def)
qed

end
