(* ===== verification/Scan.thy ===== *)
theory Scan
  imports CentralApi
begin

text \<open>
  Scanning in the central role (\<^verbatim>\<open>radio.rs\<close>): the advertising reports handed to the
  application by \<^verbatim>\<open>RtEventHandler\<close>, the configuration \<^verbatim>\<open>run_scan\<close> builds from the statics,
  and one turn of its polling loop. Times are in milliseconds.
\<close>

section \<open>Advertising reports\<close>

record 'k adv_report =
  ar_kind :: 'k
  ar_addr :: "u8 list"
  ar_rssi :: i8
  ar_data :: "u8 list"
  ar_event :: le_adv_event_kind

record 'k ext_adv_report =
  er_kind :: 'k
  er_addr :: "u8 list"
  er_rssi :: i8
  er_data :: "u8 list"
  er_status :: ext_adv_data_status
  er_connectable :: bool
  er_scannable :: bool
  er_directed :: bool
  er_scan_response :: bool
  er_legacy :: bool
  er_primary :: phy_kind
  er_secondary :: "phy_kind option"
  er_tx_power :: i8
  er_sid :: u8

text \<open>Both handlers end with the same two callbacks.\<close>

definition scan_results :: "RuntimeCfg \<Rightarrow> u8 list \<Rightarrow> u8 \<Rightarrow> i8 \<Rightarrow> u8 list \<Rightarrow> cb_event list" where
  "scan_results cfg addr kind rssi data =
     emit (on_scan_result_ext (cfg_callbacks cfg)) cfg (OnScanResultExt addr kind rssi data)
     @ emit (on_scan_result (cfg_callbacks cfg)) cfg (OnScanResult addr rssi data)"

definition on_adv_report :: "('k, 'l, 'i) bt_ops \<Rightarrow> RuntimeCfg \<Rightarrow> 'k adv_report \<Rightarrow> cb_event list" where
  "on_adv_report bt cfg r =
     emit (on_scan_result_meta (cfg_callbacks cfg)) cfg
       (OnScanResultMeta (ar_addr r) (addr_kind_to_c bt (ar_kind r)) (ar_rssi r) (ar_data r)
          (legacy_adv_flags (ar_event r)) 1 0 127 0xff)
     @ scan_results cfg (ar_addr r) (addr_kind_to_c bt (ar_kind r)) (ar_rssi r) (ar_data r)"

definition ext_adv_flags :: "'k ext_adv_report \<Rightarrow> u16" where
  "ext_adv_flags r =
     (let flags = ext_data_status_flags (er_status r);
          flags = (if er_connectable r then flags OR SCAN_F_CONNECTABLE else flags);
          flags = (if er_scannable r then flags OR SCAN_F_SCANNABLE else flags);
          flags = (if er_directed r then flags OR SCAN_F_DIRECTED else flags);
          flags = (if er_scan_response r then flags OR SCAN_F_SCAN_RESPONSE else flags);
          flags = (if er_legacy r then flags OR SCAN_F_LEGACY else flags)
      in flags)"

definition on_ext_adv_report :: "('k, 'l, 'i) bt_ops \<Rightarrow> RuntimeCfg \<Rightarrow> 'k ext_adv_report \<Rightarrow> cb_event list" where
  "on_ext_adv_report bt cfg r =
     emit (on_scan_result_meta (cfg_callbacks cfg)) cfg
       (OnScanResultMeta (er_addr r) (addr_kind_to_c bt (er_kind r)) (er_rssi r) (er_data r)
          (ext_adv_flags r) (phy_to_c (er_primary r))
          (case er_secondary r of None \<Rightarrow> 0 | Some p \<Rightarrow> phy_to_c p) (er_tx_power r) (er_sid r))
     @ scan_results cfg (er_addr r) (addr_kind_to_c bt (er_kind r)) (er_rssi r) (er_data r)"

text \<open>The loops over the reports of an event; a report that cannot be parsed is skipped.\<close>

primrec on_adv_reports :: "('k, 'l, 'i) bt_ops \<Rightarrow> RuntimeCfg \<Rightarrow> 'k adv_report option list \<Rightarrow> cb_event list" where
  "on_adv_reports bt cfg [] = []"
| "on_adv_reports bt cfg (r # rs) =
     (case r of None \<Rightarrow> [] | Some x \<Rightarrow> on_adv_report bt cfg x) @ on_adv_reports bt cfg rs"

primrec on_ext_adv_reports ::
  "('k, 'l, 'i) bt_ops \<Rightarrow> RuntimeCfg \<Rightarrow> 'k ext_adv_report option list \<Rightarrow> cb_event list" where
  "on_ext_adv_reports bt cfg [] = []"
| "on_ext_adv_reports bt cfg (r # rs) =
     (case r of None \<Rightarrow> [] | Some x \<Rightarrow> on_ext_adv_report bt cfg x) @ on_ext_adv_reports bt cfg rs"

section \<open>The scan configuration\<close>

datatype phy_set = M1 | M2 | Coded | M1M2 | M1Coded | M2Coded | M1M2Coded

definition scan_phys :: "shared \<Rightarrow> phy_set" where
  "scan_phys s =
     (let bits = SCAN_PHY_OPTIONS s AND 0x0e in
      if bits = 0x04 then M2
      else if bits = 0x08 then Coded
      else if bits = 0x06 then M1M2
      else if bits = 0x0a then M1Coded
      else if bits = 0x0c then M2Coded
      else if bits = 0x0e then M1M2Coded
      else M1)"

record 'k scan_config =
  sc_active :: bool
  sc_filter :: "'k address list"
  sc_phys :: phy_set
  sc_interval :: nat
  sc_window :: nat
  sc_timeout :: nat
  sc_duplicates :: bool

definition scan_config_of :: "('k, 'l, 'i) bt_ops \<Rightarrow> shared \<Rightarrow> 'k scan_config" where
  "scan_config_of bt s =
     (let interval_ms = SCAN_INTERVAL_MS s; window_ms = SCAN_WINDOW_MS s; timeout_ms = SCAN_TIMEOUT_MS s
      in \<lparr>sc_active = SCAN_ACTIVE s,
          sc_filter = (if SCAN_FILTER_ADDR_ENABLED s
             then [peer_address bt (take 6 (SCAN_FILTER_ADDR s)) (ucast (SCAN_FILTER_ADDR_KIND s))] else []),
          sc_phys = scan_phys s,
          sc_interval = (if interval_ms = 0 then 100 else unat interval_ms),
          sc_window = (if window_ms = 0 then 50 else unat window_ms),
          sc_timeout = unat timeout_ms,
          sc_duplicates = SCAN_FILTER_DUPLICATES s\<rparr>)"

section \<open>The scanning loop\<close>

text \<open>The end of the scan: \<open>None\<close> while it goes on, otherwise what \<^verbatim>\<open>run_scan\<close> returns.\<close>

type_synonym scan_result = "(u8 list \<times> u8) option option"

definition scan_stop_at :: "shared \<Rightarrow> nat \<Rightarrow> nat option" where
  "scan_stop_at s now = (if SCAN_TIMEOUT_MS s = 0 then None else Some (now + unat (SCAN_TIMEOUT_MS s)))"

definition queued_peer :: "shared \<Rightarrow> u8 list \<times> u8" where
  "queued_peer s = (take 6 (CENTRAL_ADDR s), ucast (CENTRAL_ADDR_KIND s))"

definition scan_turn :: "RuntimeCfg \<Rightarrow> nat option \<Rightarrow> nat \<Rightarrow> shared \<Rightarrow> scan_result \<times> cb_event list \<times> shared" where
  "scan_turn cfg stop_at now s =
     (if UNLOAD_REQ s then (Some None, [], s)
      else if (case stop_at of None \<Rightarrow> False | Some at \<Rightarrow> now \<ge> at)
        then (Some None, log_str cfg ''[central] scan timeout'', s)
      else
        let cmd = CENTRAL_CMD s; s1 = s\<lparr>CENTRAL_CMD := CCMD_NONE\<rparr>
        in if cmd = CCMD_SCAN_STOP then (Some None, log_str cfg ''[central] scan stopped'', s1)
           else if cmd = CCMD_CONNECT then (Some (Some (queued_peer s1)), [], s1)
           else (None, [], s1))"

text \<open>The turns of a scan, each at its time and after what the application has done to the
  statics since the previous one, until it ends.\<close>

primrec scan_run ::
  "RuntimeCfg \<Rightarrow> nat option \<Rightarrow> (nat \<times> (shared \<Rightarrow> shared)) list \<Rightarrow> shared \<Rightarrow> scan_result \<times> cb_event list \<times> shared" where
  "scan_run cfg stop_at [] s = (None, [], s)"
| "scan_run cfg stop_at (t # ts) s =
     (let (r, e1, s1) = scan_turn cfg stop_at (fst t) (snd t s)
      in case r of
           Some x \<Rightarrow> (Some x, e1, s1)
         | None \<Rightarrow> let (r2, e2, s2) = scan_run cfg stop_at ts s1 in (r2, e1 @ e2, s2))"

section \<open>What a call asks for\<close>

lemma ucast_u8_inj: "(ucast b :: usize) = ucast c \<longleftrightarrow> b = c" for b c :: u8
proof
  assume "(ucast b :: usize) = ucast c"
  then have "(ucast (ucast b :: usize) :: u8) = ucast (ucast c :: usize)" by simp
  then show "b = c" by (simp add: bit_eq_iff bit_simps)
qed simp

lemma scan_phys_options:
  fixes opts :: u8
  assumes "SCAN_PHY_OPTIONS s = ucast (opts AND 0x0e)"
  shows "scan_phys s =
     (case (bit opts 1, bit opts 2, bit opts 3) of
        (False, True, False) \<Rightarrow> M2 | (False, False, True) \<Rightarrow> Coded | (True, True, False) \<Rightarrow> M1M2
      | (True, False, True) \<Rightarrow> M1Coded | (False, True, True) \<Rightarrow> M2Coded | (True, True, True) \<Rightarrow> M1M2Coded
      | _ \<Rightarrow> M1)"
proof -
  have eq: "SCAN_PHY_OPTIONS s AND 0x0e = ucast (opts AND 0x0e)"
    using scan_phy_mask[of opts] by (simp add: assms)
  have u: "ucast b = (0x04 :: usize) \<longleftrightarrow> b = 0x04" "ucast b = (0x08 :: usize) \<longleftrightarrow> b = 0x08"
    "ucast b = (0x06 :: usize) \<longleftrightarrow> b = 0x06" "ucast b = (0x0a :: usize) \<longleftrightarrow> b = 0x0a"
    "ucast b = (0x0c :: usize) \<longleftrightarrow> b = 0x0c" "ucast b = (0x0e :: usize) \<longleftrightarrow> b = 0x0e" for b :: u8
    by (simp_all flip: ucast_u8_inj)
  show ?thesis
    unfolding scan_phys_def eq Let_def u
    by (auto simp: u8_eq_bits all_less_8 bit_simps split: bool.split)
qed

section \<open>Properties\<close>

text \<open>C26 (scan_call_configures). A scan request accepted while no command is waiting makes
  \<^verbatim>\<open>run_scan\<close> ask the controller for exactly the caller's scan: active or passive, the PHYs
  of the option bits (1M when none is named), duplicate filtering, the accept list with the
  caller's address and kind or none at all, and the caller's interval, window and timeout
  with the defaults of 100 and 50 ms.\<close>

theorem scan_call_configures:
  assumes "central_inv s" "f_central f" "CENTRAL_CMD s = CCMD_NONE"
    and "runtime_ble_scan_start_ex f active interval window timeout opts addr kind s = (r, s1)"
  shows "r = RUNTIME_BLE_OK \<and> CENTRAL_CMD s1 = CCMD_SCAN_START
     \<and> scan_config_of bt (s1\<lparr>CENTRAL_CMD := CCMD_NONE\<rparr>) =
       \<lparr>sc_active = (active \<noteq> 0),
        sc_filter = (case addr of None \<Rightarrow> [] | Some m \<Rightarrow> [peer_address bt (from_raw_parts m 6) kind]),
        sc_phys = (case (bit opts 1, bit opts 2, bit opts 3) of
            (False, True, False) \<Rightarrow> M2 | (False, False, True) \<Rightarrow> Coded | (True, True, False) \<Rightarrow> M1M2
          | (True, False, True) \<Rightarrow> M1Coded | (False, True, True) \<Rightarrow> M2Coded | (True, True, True) \<Rightarrow> M1M2Coded
          | _ \<Rightarrow> M1),
        sc_interval = (if interval = 0 then 100 else unat interval),
        sc_window = (if window = 0 then 50 else unat window),
        sc_timeout = unat timeout,
        sc_duplicates = bit opts 0\<rparr>"
proof -
  have s1: "s1 = (store_scan active interval window timeout opts addr kind s)
      \<lparr>CENTRAL_HANDLE := 0, CENTRAL_CMD := CCMD_SCAN_START\<rparr>" "r = RUNTIME_BLE_OK"
    using assms(2-4) by (auto simp: runtime_ble_scan_start_ex_def central_cmd_def store_scan_def)
  have ph: "SCAN_PHY_OPTIONS (s1\<lparr>CENTRAL_CMD := CCMD_NONE\<rparr>) = ucast (opts AND 0x0e)"
    by (simp add: s1 store_scan_def)
  have u16: "unat (ucast w :: usize) = unat w" "(ucast w :: usize) = 0 \<longleftrightarrow> w = 0" for w :: u16
  proof -
    show 1: "unat (ucast w :: usize) = unat w"
      by (simp add: unsigned_ucast_eq take_bit_nat_eq_self[OF less_le_trans[OF unsigned_less]])
    show "(ucast w :: usize) = 0 \<longleftrightarrow> w = 0" using 1 by (metis unat_eq_zero)
  qed
  have k: "ucast (ucast kind :: usize) = kind" by (simp add: bit_eq_iff bit_simps)
  have l: "length (SCAN_FILTER_ADDR s) = 6" using assms(1) by (simp add: central_inv_def)
  show ?thesis
    using s1 unfolding scan_config_of_def scan_phys_options[OF ph] Let_def
    by (auto simp: store_scan_def u16 k l mask_bits blit_def split: option.split)
qed

theorem scan_call_configures_witness:
  "\<exists>s1. runtime_ble_scan_start_ex full_build 1 0 30 0 0x0C None 0 shared_init = (RUNTIME_BLE_OK, s1)
     \<and> sc_interval (scan_config_of bt_std (s1\<lparr>CENTRAL_CMD := CCMD_NONE\<rparr>)) = 100
     \<and> sc_phys (scan_config_of bt_std (s1\<lparr>CENTRAL_CMD := CCMD_NONE\<rparr>)) = M2Coded"
proof -
  have i: "central_inv shared_init" "f_central full_build" "CENTRAL_CMD shared_init = CCMD_NONE"
    using shared_inv_init by (simp_all add: shared_inv_def full_build_def shared_init_def)
  obtain r s1 where r: "runtime_ble_scan_start_ex full_build 1 0 30 0 0x0C None 0 shared_init = (r, s1)"
    by fastforce
  show ?thesis using scan_call_configures[OF i r, of bt_std] r by simp
qed

lemma scan_run_timeout:
  "\<exists>t \<in> set ts. stop \<le> fst t \<Longrightarrow> fst (scan_run cfg (Some stop) ts s) \<noteq> None"
proof (induction ts arbitrary: s)
  case (Cons t ts)
  show ?case
  proof (cases "fst (scan_turn cfg (Some stop) (fst t) (snd t s))")
    case None
    then have "\<not> stop \<le> fst t" by (auto simp: scan_turn_def split: if_splits)
    then show ?thesis using Cons None by (auto simp: case_prod_beta Let_def)
  next
    case (Some x)
    then show ?thesis by (simp add: case_prod_beta Let_def)
  qed
qed simp



text \<open>Result (report_flags_decode). The flag word of an extended report carries each property of
  the report in its own bit and nothing else; a legacy PDU gets the same word whichever
  event the controller reports it with.\<close>

theorem report_flags_decode:
  "(bit (ext_adv_flags r) 0 \<longleftrightarrow> er_connectable r) \<and> (bit (ext_adv_flags r) 1 \<longleftrightarrow> er_scannable r)
   \<and> (bit (ext_adv_flags r) 2 \<longleftrightarrow> er_directed r) \<and> (bit (ext_adv_flags r) 3 \<longleftrightarrow> er_scan_response r)
   \<and> (bit (ext_adv_flags r) 4 \<longleftrightarrow> er_legacy r)
   \<and> (bit (ext_adv_flags r) 5 \<longleftrightarrow> er_status r = StIncompleteMoreExpected \<or> er_status r = StReserved)
   \<and> (bit (ext_adv_flags r) 6 \<longleftrightarrow> er_status r = StIncompleteTruncated)
   \<and> ext_adv_flags r AND 0x7F = ext_adv_flags r
   \<and> ext_adv_flags (r\<lparr>er_status := StComplete, er_connectable := (k = AdvInd \<or> k = AdvDirectInd),
        er_scannable := (k = AdvInd \<or> k = AdvScanInd), er_directed := (k = AdvDirectInd),
        er_scan_response := (k = ScanRsp), er_legacy := True\<rparr>) = legacy_adv_flags k"
proof -
  have "er_status r = StComplete \<or> er_status r = StIncompleteMoreExpected \<or> er_status r = StIncompleteTruncated
      \<or> er_status r = StReserved" by (cases "er_status r") auto
  moreover have "ext_adv_flags (r\<lparr>er_status := StComplete, er_connectable := (k = AdvInd \<or> k = AdvDirectInd),
        er_scannable := (k = AdvInd \<or> k = AdvScanInd), er_directed := (k = AdvDirectInd),
        er_scan_response := (k = ScanRsp), er_legacy := True\<rparr>) = legacy_adv_flags k"
    by (cases k) (simp_all add: ext_adv_flags_def scan_f_defs)
  ultimately show ?thesis
    by (elim disjE) (simp_all add: ext_adv_flags_def scan_f_defs Let_def bit_simps u16_eq_bits all_less_16)
qed

end
