(* ===== verification/Client.thy ===== *)
theory Client
  imports CentralApi
begin

text \<open>
  The GATT client of the central role: the command pump of \<^verbatim>\<open>client_session\<close> and the
  discovery and read operations it calls (\<^verbatim>\<open>radio.rs\<close>). The peer is seen through the answers
  of the host's client, a parameter of each turn; what the turn asks of the host and the
  callbacks it makes are its outputs, in order.
\<close>

section \<open>The peer\<close>

text \<open>A service by its handle range and raw UUID, a characteristic as the host reports it.\<close>

record remote_service =
  rs_start :: u16
  rs_end :: u16
  rs_uuid :: "u8 list"

record remote_char =
  rc_handle :: u16
  rc_cccd :: "u16 option"
  rc_uuid :: "u8 list"
  rc_props :: u8

text \<open>The answers of the host; \<open>None\<close> and \<open>False\<close> are errors. A read leaves bytes in the
  caller's buffer and returns a count; a multi-part answer calls its closure for each entry.\<close>

record peer =
  p_services :: "remote_service list option"
  p_services_by_uuid :: "uuid \<Rightarrow> remote_service list option"
  p_characteristics :: "remote_service \<Rightarrow> remote_char list option"
  p_read :: "u16 \<Rightarrow> (u8 list \<times> nat) option"
  p_read_blob :: "u16 \<Rightarrow> u16 \<Rightarrow> (u8 list \<times> nat) option"
  p_write :: "u16 \<Rightarrow> u8 list \<Rightarrow> bool"
  p_write_no_rsp :: "u16 \<Rightarrow> u8 list \<Rightarrow> bool"
  p_find_information :: "u16 \<Rightarrow> u16 \<Rightarrow> (u16 \<times> u8 list) list \<times> bool"
  p_read_by_type :: "u16 \<Rightarrow> u16 \<Rightarrow> uuid \<Rightarrow> (u16 \<times> u8 list) list \<times> bool"

datatype client_out =
    ClientCallback cb_event
  | DisconnectLink
  | GetServices
  | GetServicesByUuid uuid
  | GetCharacteristics remote_service
  | ReadHandle u16
  | ReadHandleBlob u16 u16
  | WriteHandle u16 "u8 list"
  | WriteHandleNoRsp u16 "u8 list"
  | FindInformation u16 u16
  | ReadByType u16 u16 uuid

definition ccb :: "cb_event list \<Rightarrow> client_out list" where
  "ccb es = map ClientCallback es"

definition CLIENT_SERVICE_CAP :: nat where "CLIENT_SERVICE_CAP = 8"
definition CLIENT_CHAR_CAP :: nat where "CLIENT_CHAR_CAP = 32"

definition CLIENT_STATUS_OK :: i8 where "CLIENT_STATUS_OK = 0"
definition CLIENT_STATUS_FAILED :: i8 where "CLIENT_STATUS_FAILED = -1"

definition CLIENT_OP_DISCOVER_SERVICES :: u8 where "CLIENT_OP_DISCOVER_SERVICES = 1"
definition CLIENT_OP_DISCOVER_CHARS :: u8 where "CLIENT_OP_DISCOVER_CHARS = 2"
definition CLIENT_OP_DISCOVER_ALL :: u8 where "CLIENT_OP_DISCOVER_ALL = 3"
definition CLIENT_OP_DISCOVER_DESCRIPTORS :: u8 where "CLIENT_OP_DISCOVER_DESCRIPTORS = 4"
definition CLIENT_OP_READ :: u8 where "CLIENT_OP_READ = 5"
definition CLIENT_OP_READ_BLOB :: u8 where "CLIENT_OP_READ_BLOB = 6"
definition CLIENT_OP_WRITE :: u8 where "CLIENT_OP_WRITE = 7"
definition CLIENT_OP_WRITE_NO_RSP :: u8 where "CLIENT_OP_WRITE_NO_RSP = 8"
definition CLIENT_OP_SUBSCRIBE :: u8 where "CLIENT_OP_SUBSCRIBE = 9"
definition CLIENT_OP_SUBSCRIBE_INDICATE :: u8 where "CLIENT_OP_SUBSCRIBE_INDICATE = 10"
definition CLIENT_OP_READ_BY_UUID :: u8 where "CLIENT_OP_READ_BY_UUID = 11"
definition CLIENT_OP_UNSUBSCRIBE :: u8 where "CLIENT_OP_UNSUBSCRIBE = 12"

lemmas client_op_defs =
  CLIENT_OP_DISCOVER_SERVICES_def CLIENT_OP_DISCOVER_CHARS_def CLIENT_OP_DISCOVER_ALL_def
  CLIENT_OP_DISCOVER_DESCRIPTORS_def CLIENT_OP_READ_def CLIENT_OP_READ_BLOB_def CLIENT_OP_WRITE_def
  CLIENT_OP_WRITE_NO_RSP_def CLIENT_OP_SUBSCRIBE_def CLIENT_OP_SUBSCRIBE_INDICATE_def
  CLIENT_OP_READ_BY_UUID_def CLIENT_OP_UNSUBSCRIBE_def

text \<open>The remembered value and CCCD handles.\<close>

type_synonym char_store = "(u16 \<times> u16 option) list"

section \<open>Reports\<close>

definition emit_client_status :: "RuntimeCfg \<Rightarrow> u8 \<Rightarrow> i8 \<Rightarrow> u16 \<Rightarrow> cb_event list" where
  "emit_client_status cfg op status handle =
     emit (on_client_status (cfg_callbacks cfg)) cfg (OnClientStatus op status handle)"

definition client_result :: "RuntimeCfg \<Rightarrow> u8 \<Rightarrow> bool \<Rightarrow> u16 \<Rightarrow> client_out list" where
  "client_result cfg op ok h =
     ccb (emit_client_status cfg op (if ok then CLIENT_STATUS_OK else CLIENT_STATUS_FAILED) h)"

definition report_service :: "RuntimeCfg \<Rightarrow> remote_service \<Rightarrow> client_out list" where
  "report_service cfg sv =
     ccb (emit (on_service (cfg_callbacks cfg)) cfg
       (OnService (rs_start sv) (rs_end sv) (rs_uuid sv) (of_nat (length (rs_uuid sv)))))"

primrec report_chars ::
  "(u16 \<times> u16 option) hvec \<Rightarrow> RuntimeCfg \<Rightarrow> remote_char list \<Rightarrow> char_store \<Rightarrow> client_out list \<times> char_store" where
  "report_chars hv cfg [] store = ([], store)"
| "report_chars hv cfg (c # cs) store =
     (let store1 = (case hv_push hv store (rc_handle c, rc_cccd c) of None \<Rightarrow> store | Some s \<Rightarrow> s);
          o1 = ccb (emit (on_discovered (cfg_callbacks cfg)) cfg
                 (OnDiscovered (rc_handle c) (rc_uuid c) (of_nat (length (rc_uuid c))) (props_to_c (rc_props c))));
          (o2, store2) = report_chars hv cfg cs store1
      in (o1 @ o2, store2))"

definition report_service_chars ::
  "(u16 \<times> u16 option) hvec \<Rightarrow> peer \<Rightarrow> RuntimeCfg \<Rightarrow> remote_service \<Rightarrow> char_store \<Rightarrow> client_out list \<times> char_store" where
  "report_service_chars hv p cfg sv store =
     (case p_characteristics p sv of
        Some chars \<Rightarrow> let (os, store') = report_chars hv cfg chars store in (GetCharacteristics sv # os, store')
      | None \<Rightarrow> ([GetCharacteristics sv], store))"

primrec report_all ::
  "bool \<Rightarrow> (u16 \<times> u16 option) hvec \<Rightarrow> peer \<Rightarrow> RuntimeCfg \<Rightarrow> remote_service list \<Rightarrow> char_store \<Rightarrow>
     client_out list \<times> char_store" where
  "report_all with_services hv p cfg [] store = ([], store)"
| "report_all with_services hv p cfg (sv # svs) store =
     (let o0 = (if with_services then report_service cfg sv else []);
          (o1, store1) = report_service_chars hv p cfg sv store;
          (o2, store2) = report_all with_services hv p cfg svs store1
      in (o0 @ o1 @ o2, store2))"

section \<open>Discovery\<close>

definition client_discover_all ::
  "(u16 \<times> u16 option) hvec \<Rightarrow> peer \<Rightarrow> RuntimeCfg \<Rightarrow> char_store \<Rightarrow> client_out list \<times> char_store" where
  "client_discover_all hv p cfg store =
     (case p_services p of
        Some svcs \<Rightarrow>
          let (os, store') = report_all True hv p cfg svcs store
          in (GetServices # os @ client_result cfg CLIENT_OP_DISCOVER_ALL True 0, store')
      | None \<Rightarrow>
          (GetServices # ccb (log_str cfg ''[central] discover all failed'')
             @ client_result cfg CLIENT_OP_DISCOVER_ALL False 0, store))"

definition client_discover_services :: "peer \<Rightarrow> RuntimeCfg \<Rightarrow> client_out list" where
  "client_discover_services p cfg =
     (case p_services p of
        Some svcs \<Rightarrow>
          GetServices # concat (map (report_service cfg) svcs)
            @ client_result cfg CLIENT_OP_DISCOVER_SERVICES True 0
      | None \<Rightarrow>
          GetServices # ccb (log_str cfg ''[central] discover services failed'')
            @ client_result cfg CLIENT_OP_DISCOVER_SERVICES False 0)"

text \<open>The UUID in \<^verbatim>\<open>CENTRAL_UUID\<close>, whose address is never null.\<close>

definition central_uuid :: "shared \<Rightarrow> uuid" where
  "central_uuid s = uuid_from (Some (\<lambda>i. CENTRAL_UUID s ! i)) (ucast (CENTRAL_UUID_LEN s))"

definition client_discover ::
  "(u16 \<times> u16 option) hvec \<Rightarrow> peer \<Rightarrow> RuntimeCfg \<Rightarrow> shared \<Rightarrow> char_store \<Rightarrow> client_out list \<times> char_store" where
  "client_discover hv p cfg s store =
     (let uuid = central_uuid s in
      case p_services_by_uuid p uuid of
        None \<Rightarrow>
          (GetServicesByUuid uuid # ccb (log_str cfg ''[central] discover: service not found'')
             @ client_result cfg CLIENT_OP_DISCOVER_CHARS False 0, store)
      | Some svcs \<Rightarrow>
          let (os, store') = report_all False hv p cfg svcs store
          in (GetServicesByUuid uuid # os @ client_result cfg CLIENT_OP_DISCOVER_CHARS True 0, store'))"

definition client_discover_descriptors :: "peer \<Rightarrow> RuntimeCfg \<Rightarrow> shared \<Rightarrow> client_out list" where
  "client_discover_descriptors p cfg s =
     (let range = CENTRAL_HANDLE s;
          start = ucast (drop_bit 16 range) :: u16;
          finish = ucast range :: u16
      in if start = 0 \<or> finish < start then client_result cfg CLIENT_OP_DISCOVER_DESCRIPTORS False start
         else
           let (entries, ok) = p_find_information p start finish
           in FindInformation start finish
              # concat (map (\<lambda>(h, raw). ccb (emit (on_descriptor (cfg_callbacks cfg)) cfg
                    (OnDescriptor h raw (of_nat (length raw))))) entries)
              @ client_result cfg CLIENT_OP_DISCOVER_DESCRIPTORS ok start)"

definition client_read_by_uuid :: "features \<Rightarrow> peer \<Rightarrow> RuntimeCfg \<Rightarrow> shared \<Rightarrow> client_out list" where
  "client_read_by_uuid f p cfg s =
     (let packed = CENTRAL_HANDLE s;
          start = ucast (drop_bit 16 packed) :: u16;
          finish = ucast packed :: u16;
          uuid = central_uuid s;
          (entries, ok) = p_read_by_type p start finish uuid
      in ReadByType start finish uuid
         # concat (map (\<lambda>(h, data). ccb (emit (on_read (cfg_callbacks cfg)) cfg
               (OnRead h (take (min (length data) (VALUE_LEN f)) data)))) entries)
         @ client_result cfg CLIENT_OP_READ_BY_UUID ok start)"

section \<open>Commands on a handle\<close>

definition client_read :: "features \<Rightarrow> bool \<Rightarrow> peer \<Rightarrow> RuntimeCfg \<Rightarrow> shared \<Rightarrow> client_out list" where
  "client_read f blob p cfg s =
     (let packed = CENTRAL_HANDLE s;
          h = ucast packed :: u16;
          offset = ucast (drop_bit 16 packed) :: u16;
          op = (if blob then CLIENT_OP_READ_BLOB else CLIENT_OP_READ);
          request = (if blob then ReadHandleBlob h offset else ReadHandle h);
          answer = (if blob then p_read_blob p h offset else p_read p h)
      in request #
         (case answer of
            Some (bytes, n) \<Rightarrow>
              let buf = take (VALUE_LEN f) (bytes @ replicate (VALUE_LEN f) 0)
              in ccb (emit (on_read (cfg_callbacks cfg)) cfg (OnRead h (take (min n (VALUE_LEN f)) buf)))
                 @ client_result cfg op True h
          | None \<Rightarrow> ccb (log_str cfg ''[central] read failed'') @ client_result cfg op False h))"

definition client_write :: "features \<Rightarrow> bool \<Rightarrow> peer \<Rightarrow> RuntimeCfg \<Rightarrow> shared \<Rightarrow> client_out list" where
  "client_write f no_rsp p cfg s =
     (let h = ucast (CENTRAL_HANDLE s) :: u16;
          len = min (min (unat (SEND_LEN s)) (VALUE_LEN f)) (unat SEND_BUF_CAP);
          wbuf = blit (replicate (VALUE_LEN f) 0) 0 (take len (SEND_BUF s));
          data = take len wbuf;
          op = (if no_rsp then CLIENT_OP_WRITE_NO_RSP else CLIENT_OP_WRITE);
          request = (if no_rsp then WriteHandleNoRsp h data else WriteHandle h data);
          ok = (if no_rsp then p_write_no_rsp p h data else p_write p h data)
      in request # client_result cfg op ok h)"

text \<open>\<^verbatim>\<open>store.iter().find(..).and_then(|(_, cccd)| *cccd).unwrap_or(h + 1)\<close>; the addition
  wraps in a release build.\<close>

definition cccd_for :: "char_store \<Rightarrow> u16 \<Rightarrow> u16" where
  "cccd_for store h =
     (case find (\<lambda>e. fst e = h) store of
        Some (_, Some cccd) \<Rightarrow> cccd
      | _ \<Rightarrow> h + 1)"

definition client_subscribe :: "u32 \<Rightarrow> peer \<Rightarrow> RuntimeCfg \<Rightarrow> shared \<Rightarrow> char_store \<Rightarrow> client_out list" where
  "client_subscribe cmd p cfg s store =
     (let h = ucast (CENTRAL_HANDLE s) :: u16;
          cccd = cccd_for store h;
          data = (if cmd = CCMD_SUBSCRIBE_INDICATE then [0x02, 0x00]
                  else if cmd = CCMD_UNSUBSCRIBE then [0x00, 0x00] else [0x01, 0x00]);
          op = (if cmd = CCMD_SUBSCRIBE_INDICATE then CLIENT_OP_SUBSCRIBE_INDICATE
                else if cmd = CCMD_UNSUBSCRIBE then CLIENT_OP_UNSUBSCRIBE else CLIENT_OP_SUBSCRIBE)
      in WriteHandle cccd data # client_result cfg op (p_write p cccd data) h)"

section \<open>The command pump\<close>

text \<open>The arms of the \<^verbatim>\<open>match\<close> of \<^verbatim>\<open>commands\<close>, for a command that has been taken.\<close>

definition client_execute ::
  "features \<Rightarrow> (u16 \<times> u16 option) hvec \<Rightarrow> peer \<Rightarrow> RuntimeCfg \<Rightarrow> u32 \<Rightarrow> shared \<Rightarrow> char_store \<Rightarrow>
     client_out list \<times> char_store" where
  "client_execute f hv p cfg cmd s store =
     (if cmd = CCMD_DISCONNECT then ([DisconnectLink], store)
      else if cmd = CCMD_DISCOVER_SERVICES then (client_discover_services p cfg, store)
      else if cmd = CCMD_DISCOVER then client_discover hv p cfg s store
      else if cmd = CCMD_DISCOVER_ALL then client_discover_all hv p cfg store
      else if cmd = CCMD_DISCOVER_DESCRIPTORS then (client_discover_descriptors p cfg s, store)
      else if cmd = CCMD_READ_BY_UUID then (client_read_by_uuid f p cfg s, store)
      else if cmd = CCMD_READ \<or> cmd = CCMD_READ_BLOB then (client_read f (cmd = CCMD_READ_BLOB) p cfg s, store)
      else if cmd = CCMD_WRITE \<or> cmd = CCMD_WRITE_NO_RSP
        then (client_write f (cmd = CCMD_WRITE_NO_RSP) p cfg s, store)
      else if cmd = CCMD_SUBSCRIBE \<or> cmd = CCMD_SUBSCRIBE_INDICATE \<or> cmd = CCMD_UNSUBSCRIBE
        then (client_subscribe cmd p cfg s store, store)
      else ([], store))"

definition client_turn ::
  "features \<Rightarrow> (u16 \<times> u16 option) hvec \<Rightarrow> peer \<Rightarrow> RuntimeCfg \<Rightarrow> shared \<times> char_store \<Rightarrow>
     client_out list \<times> shared \<times> char_store" where
  "client_turn f hv p cfg st =
     (let (s, store) = st; cmd = CENTRAL_CMD s; s1 = s\<lparr>CENTRAL_CMD := CCMD_NONE\<rparr>;
          (os, store1) = client_execute f hv p cfg cmd s1 store
      in (os, s1, store1))"

text \<open>One notification from the listener: the callback, and the confirmation an indication
  needs.\<close>

datatype notif_out = NotifCallback cb_event | ConfirmIndication

definition client_notif :: "RuntimeCfg \<Rightarrow> u16 \<Rightarrow> u8 list \<Rightarrow> bool \<Rightarrow> notif_out list" where
  "client_notif cfg h data is_indication =
     map NotifCallback (emit (on_notification (cfg_callbacks cfg)) cfg (OnNotification h data))
     @ (if is_indication then [ConfirmIndication] else [])"

section \<open>What a call asks for\<close>

text \<open>The effect of each client call in terms of its own arguments. Calls that do not need a
  link (scan and connect) have none while a client session is running.\<close>

definition ptr_uuid :: "u8 ptr \<Rightarrow> u8 \<Rightarrow> uuid" where
  "ptr_uuid u n = uuid_from u n"

definition spec_read :: "features \<Rightarrow> RuntimeCfg \<Rightarrow> u8 \<Rightarrow> u16 \<Rightarrow> client_out \<Rightarrow> (u8 list \<times> nat) option \<Rightarrow> client_out list" where
  "spec_read f cfg op h request answer =
     request # (case answer of
        None \<Rightarrow> ccb (log_str cfg ''[central] read failed'') @ client_result cfg op False h
      | Some (bytes, n) \<Rightarrow>
          ccb (emit (on_read (cfg_callbacks cfg)) cfg
            (OnRead h (take (min n (VALUE_LEN f)) bytes @ replicate (min n (VALUE_LEN f) - length bytes) 0)))
          @ client_result cfg op True h)"

definition spec_data :: "features \<Rightarrow> u8 ptr \<Rightarrow> usize \<Rightarrow> u8 list" where
  "spec_data f d n = take (VALUE_LEN f) (slice_or_empty d (unat n))"

fun client_call_effect ::
  "features \<Rightarrow> (u16 \<times> u16 option) hvec \<Rightarrow> peer \<Rightarrow> RuntimeCfg \<Rightarrow> char_store \<Rightarrow> central_call \<Rightarrow>
     client_out list \<times> char_store" where
  "client_call_effect f hv p cfg st Disconnect = ([DisconnectLink], st)"
| "client_call_effect f hv p cfg st DiscoverServices = (client_discover_services p cfg, st)"
| "client_call_effect f hv p cfg st DiscoverAll = client_discover_all hv p cfg st"
| "client_call_effect f hv p cfg st (Discover u n) =
     (case p_services_by_uuid p (ptr_uuid u n) of
        None \<Rightarrow> (GetServicesByUuid (ptr_uuid u n) # ccb (log_str cfg ''[central] discover: service not found'')
                  @ client_result cfg CLIENT_OP_DISCOVER_CHARS False 0, st)
      | Some svcs \<Rightarrow> let (os, st') = report_all False hv p cfg svcs st
          in (GetServicesByUuid (ptr_uuid u n) # os @ client_result cfg CLIENT_OP_DISCOVER_CHARS True 0, st'))"
| "client_call_effect f hv p cfg st (DiscoverDescriptors a b) =
     (FindInformation a b
      # concat (map (\<lambda>(h, raw). ccb (emit (on_descriptor (cfg_callbacks cfg)) cfg
            (OnDescriptor h raw (of_nat (length raw))))) (fst (p_find_information p a b)))
      @ client_result cfg CLIENT_OP_DISCOVER_DESCRIPTORS (snd (p_find_information p a b)) a, st)"
| "client_call_effect f hv p cfg st (ReadByUuid a b u n) =
     (ReadByType a b (ptr_uuid u n)
      # concat (map (\<lambda>(h, data). ccb (emit (on_read (cfg_callbacks cfg)) cfg (OnRead h (take (VALUE_LEN f) data))))
            (fst (p_read_by_type p a b (ptr_uuid u n))))
      @ client_result cfg CLIENT_OP_READ_BY_UUID (snd (p_read_by_type p a b (ptr_uuid u n))) a, st)"
| "client_call_effect f hv p cfg st (ClientRead h) =
     (spec_read f cfg CLIENT_OP_READ h (ReadHandle h) (p_read p h), st)"
| "client_call_effect f hv p cfg st (ReadDescriptor h) =
     (spec_read f cfg CLIENT_OP_READ h (ReadHandle h) (p_read p h), st)"
| "client_call_effect f hv p cfg st (ReadBlob h off) =
     (spec_read f cfg CLIENT_OP_READ_BLOB h (ReadHandleBlob h off) (p_read_blob p h off), st)"
| "client_call_effect f hv p cfg st (ReadDescriptorBlob h off) =
     (spec_read f cfg CLIENT_OP_READ_BLOB h (ReadHandleBlob h off) (p_read_blob p h off), st)"
| "client_call_effect f hv p cfg st (ClientWrite h d n) =
     (WriteHandle h (spec_data f d n) # client_result cfg CLIENT_OP_WRITE (p_write p h (spec_data f d n)) h, st)"
| "client_call_effect f hv p cfg st (WriteDescriptor h d n) =
     (WriteHandle h (spec_data f d n) # client_result cfg CLIENT_OP_WRITE (p_write p h (spec_data f d n)) h, st)"
| "client_call_effect f hv p cfg st (WriteNoRsp h d n) =
     (WriteHandleNoRsp h (spec_data f d n)
      # client_result cfg CLIENT_OP_WRITE_NO_RSP (p_write_no_rsp p h (spec_data f d n)) h, st)"
| "client_call_effect f hv p cfg st (Subscribe h) =
     (WriteHandle (cccd_for st h) [1, 0] # client_result cfg CLIENT_OP_SUBSCRIBE (p_write p (cccd_for st h) [1, 0]) h, st)"
| "client_call_effect f hv p cfg st (SubscribeIndicate h) =
     (WriteHandle (cccd_for st h) [2, 0]
      # client_result cfg CLIENT_OP_SUBSCRIBE_INDICATE (p_write p (cccd_for st h) [2, 0]) h, st)"
| "client_call_effect f hv p cfg st (Unsubscribe h) =
     (WriteHandle (cccd_for st h) [0, 0] # client_result cfg CLIENT_OP_UNSUBSCRIBE (p_write p (cccd_for st h) [0, 0]) h, st)"
| "client_call_effect f hv p cfg st (ScanStart a i w t) = ([], st)"
| "client_call_effect f hv p cfg st (ScanStartEx a i w t opts addr k) = ([], st)"
| "client_call_effect f hv p cfg st ScanStop = ([], st)"
| "client_call_effect f hv p cfg st (Connect addr) = ([], st)"
| "client_call_effect f hv p cfg st (ConnectAddr addr k) = ([], st)"

section \<open>Executing a call\<close>

lemma nth_blit_0: "i < length xs \<Longrightarrow> blit buf 0 xs ! i = xs ! i"
  by (simp add: blit_def nth_append)

lemma central_uuid_store:
  assumes "uuid_arg_ok u n" "CENTRAL_UUID s1 = blit buf 0 (slice_or_empty u (unat n))" "CENTRAL_UUID_LEN s1 = ucast n"
  shows "central_uuid s1 = ptr_uuid u n"
proof -
  obtain m where u: "u = Some m" and n: "n = 2 \<or> n = 16" using assms(1) by (auto simp: uuid_arg_ok_def)
  have nth: "CENTRAL_UUID s1 ! i = m i" if "i < unat n" for i
    using that by (simp add: assms(2) u slice_or_empty_def nth_blit_0)
  have "from_raw_parts (\<lambda>i. CENTRAL_UUID s1 ! i) (unat n) = from_raw_parts m (unat n)"
    using nth by (simp add: from_raw_parts_def)
  then show ?thesis
    using n nth by (auto simp: central_uuid_def ptr_uuid_def uuid_from_def u assms(3))
qed

lemma client_data_store:
  assumes "data_arg_ok d n" "SEND_BUF s1 = blit buf 0 (slice_or_empty d (unat n))" "SEND_LEN s1 = n"
  shows "(let len = min (min (unat (SEND_LEN s1)) (VALUE_LEN f)) (unat SEND_BUF_CAP)
          in take len (blit (replicate (VALUE_LEN f) 0) 0 (take len (SEND_BUF s1)))) = spec_data f d n"
proof -
  obtain m where d: "d = Some m" using assms(1) by (auto simp: data_arg_ok_def)
  have "unat n \<le> 512" using assms(1) by (simp add: data_arg_ok_def SEND_BUF_CAP_def word_le_nat_alt)
  then show ?thesis
    using VALUE_LEN_bounds[of f]
    by (simp add: assms d slice_or_empty_def spec_data_def Let_def SEND_BUF_CAP_def min_def blit_def)
qed

lemma client_write_store:
  assumes "data_arg_ok d n" "SEND_BUF s1 = blit buf 0 (slice_or_empty d (unat n))" "SEND_LEN s1 = n"
    and "CENTRAL_HANDLE s1 = pack 0 h"
  shows "client_write f False p cfg s1 =
      WriteHandle h (spec_data f d n) # client_result cfg CLIENT_OP_WRITE (p_write p h (spec_data f d n)) h"
    and "client_write f True p cfg s1 =
      WriteHandleNoRsp h (spec_data f d n) # client_result cfg CLIENT_OP_WRITE_NO_RSP (p_write_no_rsp p h (spec_data f d n)) h"
  using client_data_store[OF assms(1-3), of f] assms(4) by (simp_all add: client_write_def Let_def unpack_pack)

lemma client_read_pack:
  assumes "CENTRAL_HANDLE s1 = pack off h"
  shows "client_read f False p cfg s1 = spec_read f cfg CLIENT_OP_READ h (ReadHandle h) (p_read p h)"
    and "client_read f True p cfg s1 = spec_read f cfg CLIENT_OP_READ_BLOB h (ReadHandleBlob h off) (p_read_blob p h off)"
proof -
  have "take k (take n (bytes @ replicate n 0)) = take k bytes @ replicate (k - length bytes) (0 :: u8)"
    if "k \<le> n" for k n :: nat and bytes
    using that by (simp add: min_def)
  then have t: "take (min n (VALUE_LEN f)) (take (VALUE_LEN f) (bytes @ replicate (VALUE_LEN f) 0))
     = take (min n (VALUE_LEN f)) bytes @ replicate (min n (VALUE_LEN f) - length bytes) (0 :: u8)" for n bytes
    by simp
  show "client_read f False p cfg s1 = spec_read f cfg CLIENT_OP_READ h (ReadHandle h) (p_read p h)"
    "client_read f True p cfg s1 = spec_read f cfg CLIENT_OP_READ_BLOB h (ReadHandleBlob h off) (p_read_blob p h off)"
    by (simp_all only: client_read_def spec_read_def Let_def assms unpack_pack t if_True if_False)
qed

lemma client_subscribe_pack:
  assumes "CENTRAL_HANDLE s1 = pack 0 h"
  shows "client_subscribe CCMD_SUBSCRIBE p cfg s1 st =
      WriteHandle (cccd_for st h) [1, 0] # client_result cfg CLIENT_OP_SUBSCRIBE (p_write p (cccd_for st h) [1, 0]) h"
    and "client_subscribe CCMD_SUBSCRIBE_INDICATE p cfg s1 st =
      WriteHandle (cccd_for st h) [2, 0] # client_result cfg CLIENT_OP_SUBSCRIBE_INDICATE (p_write p (cccd_for st h) [2, 0]) h"
    and "client_subscribe CCMD_UNSUBSCRIBE p cfg s1 st =
      WriteHandle (cccd_for st h) [0, 0] # client_result cfg CLIENT_OP_UNSUBSCRIBE (p_write p (cccd_for st h) [0, 0]) h"
  by (simp_all add: client_subscribe_def assms unpack_pack Let_def CCMD_SUBSCRIBE_def CCMD_SUBSCRIBE_INDICATE_def
      CCMD_UNSUBSCRIBE_def)

lemma min_take_length: "take (min (length data) n) data = take n data"
  by (simp add: min_def)

lemma client_execute_store:
  assumes "central_args_ok c" "s1 = (central_store c s)\<lparr>CENTRAL_HANDLE := snd (central_call_view c), CENTRAL_CMD := CCMD_NONE\<rparr>"
  shows "client_execute f hv p cfg (fst (central_call_view c)) s1 st = client_call_effect f hv p cfg st c"
proof (cases c)
  case (Discover u n)
  then have "central_uuid s1 = ptr_uuid u n"
    using assms by (intro central_uuid_store) (auto simp: store_uuid_def)
  then show ?thesis using Discover by (simp add: client_execute_def ccmd_defs client_discover_def Let_def)
next
  case (ReadByUuid a b u n)
  then have "central_uuid s1 = ptr_uuid u n"
    using assms by (intro central_uuid_store) (auto simp: store_uuid_def)
  then show ?thesis
    using ReadByUuid assms(2)
    by (simp add: client_execute_def ccmd_defs client_read_by_uuid_def unpack_pack case_prod_beta Let_def min_take_length)
next
  case (DiscoverDescriptors a b)
  then have "a \<noteq> 0" "\<not> b < a" using assms(1) by auto
  then show ?thesis
    using assms(2) DiscoverDescriptors
    by (simp add: client_execute_def ccmd_defs client_discover_descriptors_def unpack_pack case_prod_beta Let_def)
next
  case (ClientWrite h d n)
  then show ?thesis
    using assms client_write_store(1)[of d n s1 "SEND_BUF s" h f p cfg]
    by (simp add: client_execute_def ccmd_defs store_data_def)
next
  case (WriteDescriptor h d n)
  then show ?thesis
    using assms client_write_store(1)[of d n s1 "SEND_BUF s" h f p cfg]
    by (simp add: client_execute_def ccmd_defs store_data_def)
next
  case (WriteNoRsp h d n)
  then show ?thesis
    using assms client_write_store(2)[of d n s1 "SEND_BUF s" h f p cfg]
    by (simp add: client_execute_def ccmd_defs store_data_def)
next
  case (Subscribe h)
  then show ?thesis
    using assms(2) client_subscribe_pack(1)[of s1 h p cfg st] by (simp add: client_execute_def ccmd_defs)
next
  case (SubscribeIndicate h)
  then show ?thesis
    using assms(2) client_subscribe_pack(2)[of s1 h p cfg st] by (simp add: client_execute_def ccmd_defs)
next
  case (Unsubscribe h)
  then show ?thesis
    using assms(2) client_subscribe_pack(3)[of s1 h p cfg st] by (simp add: client_execute_def ccmd_defs)
qed (use assms(2) client_read_pack[of s1] in \<open>simp_all add: client_execute_def ccmd_defs\<close>)

section \<open>The remembered handles\<close>

definition remember :: "remote_char \<Rightarrow> u16 \<times> u16 option" where
  "remember c = (rc_handle c, rc_cccd c)"

definition chars_of :: "peer \<Rightarrow> remote_service \<Rightarrow> remote_char list" where
  "chars_of p sv = (case p_characteristics p sv of None \<Rightarrow> [] | Some cs \<Rightarrow> cs)"

lemma report_chars_store:
  assumes "hvec_ok CLIENT_CHAR_CAP hv"
  shows "length st \<le> CLIENT_CHAR_CAP \<Longrightarrow>
     snd (report_chars hv cfg cs st) = take CLIENT_CHAR_CAP (st @ map remember cs)"
proof (induction cs arbitrary: st)
  case (Cons c cs)
  show ?case
  proof (cases "length st < CLIENT_CHAR_CAP")
    case True
    then show ?thesis
      using Cons.IH[of "st @ [remember c]"]
      by (simp add: hv_push[OF assms] case_prod_beta Let_def remember_def)
  next
    case False
    then show ?thesis
      using Cons.IH[of st] Cons.prems by (simp add: hv_push[OF assms] case_prod_beta Let_def)
  qed
qed simp

lemma report_service_chars_store:
  assumes "hvec_ok CLIENT_CHAR_CAP hv" "length st \<le> CLIENT_CHAR_CAP"
  shows "snd (report_service_chars hv p cfg sv st) = take CLIENT_CHAR_CAP (st @ map remember (chars_of p sv))"
  using assms report_chars_store[OF assms]
  by (simp add: report_service_chars_def chars_of_def case_prod_beta Let_def split: option.split)

lemma take_append_take: "take n (take n xs @ ys) = take n (xs @ ys)"
  by (simp add: min_def)

lemma report_all_store:
  assumes "hvec_ok CLIENT_CHAR_CAP hv"
  shows "length st \<le> CLIENT_CHAR_CAP \<Longrightarrow>
     snd (report_all b hv p cfg svcs st) = take CLIENT_CHAR_CAP (st @ map remember (concat (map (chars_of p) svcs)))"
proof (induction svcs arbitrary: st)
  case (Cons sv svcs)
  let ?st = "snd (report_service_chars hv p cfg sv st)"
  have "snd (report_all b hv p cfg svcs ?st) =
      take CLIENT_CHAR_CAP (?st @ map remember (concat (map (chars_of p) svcs)))"
    using report_service_chars_store[OF assms Cons.prems, of p cfg sv] by (intro Cons.IH) simp
  then show ?case
    unfolding report_service_chars_store[OF assms Cons.prems] take_append_take
    by (simp add: case_prod_beta Let_def report_service_chars_store[OF assms Cons.prems] take_append_take del: take_append)
qed simp

lemma find_remember:
  "distinct (map rc_handle cs) \<Longrightarrow> c \<in> set cs \<Longrightarrow>
     find (\<lambda>e. fst e = rc_handle c) (map remember cs) = Some (remember c)"
  by (induction cs) (auto simp: remember_def image_iff)

section \<open>Status reports\<close>

text \<open>The status callbacks among the outputs.\<close>

fun status_of :: "client_out \<Rightarrow> (u8 \<times> i8 \<times> u16) list" where
  "status_of (ClientCallback (OnClientStatus op st h, _)) = [(op, st, h)]"
| "status_of _ = []"

definition statuses :: "client_out list \<Rightarrow> (u8 \<times> i8 \<times> u16) list" where
  "statuses os = concat (map status_of os)"

lemma statuses_append [simp]: "statuses (xs @ ys) = statuses xs @ statuses ys" "statuses [] = []"
  by (simp_all add: statuses_def)

lemma statuses_Cons [simp]: "statuses (x # xs) = status_of x @ statuses xs"
  by (simp add: statuses_def)

lemma statuses_other [simp]:
  "statuses (ccb (log_str cfg m)) = []"
  "statuses (ccb (emit b cfg (OnRead h d))) = []"
  "statuses (ccb (emit b cfg (OnDiscovered h u n pr))) = []"
  "statuses (ccb (emit b cfg (OnDescriptor h u n))) = []"
  "statuses (report_service cfg sv) = []"
  by (simp_all add: ccb_def log_str_def emit_def report_service_def statuses_def)

lemma statuses_concat: "(\<And>x. x \<in> set xs \<Longrightarrow> statuses (g x) = []) \<Longrightarrow> statuses (concat (map g xs)) = []"
  by (induction xs) auto

lemma statuses_report_chars [simp]: "statuses (fst (report_chars hv cfg cs st)) = []"
  by (induction cs arbitrary: st) (simp_all add: case_prod_beta Let_def)

lemma statuses_report_all [simp]: "statuses (fst (report_all b hv p cfg svcs st)) = []"
  by (induction svcs arbitrary: st)
    (simp_all add: case_prod_beta Let_def report_service_chars_def split: option.split)

lemma statuses_result [simp]:
  "statuses (client_result cfg op ok h) =
     (if on_client_status (cfg_callbacks cfg)
      then [(op, if ok then CLIENT_STATUS_OK else CLIENT_STATUS_FAILED, h)] else [])"
  by (simp add: client_result_def emit_client_status_def emit_def ccb_def statuses_def)

text \<open>The operation code a call is answered with; \<open>None\<close> for the calls that have no status.\<close>

fun client_call_op :: "central_call \<Rightarrow> u8 option" where
  "client_call_op DiscoverServices = Some CLIENT_OP_DISCOVER_SERVICES"
| "client_call_op (Discover _ _) = Some CLIENT_OP_DISCOVER_CHARS"
| "client_call_op DiscoverAll = Some CLIENT_OP_DISCOVER_ALL"
| "client_call_op (ClientRead _) = Some CLIENT_OP_READ"
| "client_call_op (ReadDescriptor _) = Some CLIENT_OP_READ"
| "client_call_op (ReadBlob _ _) = Some CLIENT_OP_READ_BLOB"
| "client_call_op (ReadDescriptorBlob _ _) = Some CLIENT_OP_READ_BLOB"
| "client_call_op (ReadByUuid _ _ _ _) = Some CLIENT_OP_READ_BY_UUID"
| "client_call_op (DiscoverDescriptors _ _) = Some CLIENT_OP_DISCOVER_DESCRIPTORS"
| "client_call_op (ClientWrite _ _ _) = Some CLIENT_OP_WRITE"
| "client_call_op (WriteDescriptor _ _ _) = Some CLIENT_OP_WRITE"
| "client_call_op (WriteNoRsp _ _ _) = Some CLIENT_OP_WRITE_NO_RSP"
| "client_call_op (Subscribe _) = Some CLIENT_OP_SUBSCRIBE"
| "client_call_op (SubscribeIndicate _) = Some CLIENT_OP_SUBSCRIBE_INDICATE"
| "client_call_op (Unsubscribe _) = Some CLIENT_OP_UNSUBSCRIBE"
| "client_call_op _ = None"

lemma statuses_effect:
  assumes "on_client_status (cfg_callbacks cfg)"
  shows "(case client_call_op c of
       None \<Rightarrow> statuses (fst (client_call_effect f hv p cfg st c)) = []
     | Some op \<Rightarrow> \<exists>code h. statuses (fst (client_call_effect f hv p cfg st c)) = [(op, code, h)]
         \<and> (code = CLIENT_STATUS_OK \<or> code = CLIENT_STATUS_FAILED))"
  using assms
  by (cases c)
    (auto simp: client_discover_services_def client_discover_all_def spec_read_def case_prod_beta Let_def
      intro!: statuses_concat split: option.split)

section \<open>Properties\<close>

text \<open>C11 (client_call_executed). End to end: a client call accepted while no command is waiting
  makes the next turn of the session's command pump do exactly what the call asks for, on
  the handles, range, UUID and bytes the caller passed (a write cut to the size of a value),
  and answer it with exactly one status callback carrying the operation code of that call;
  then the channel is free again and a further turn does nothing.\<close>

theorem client_call_executed:
  assumes "f_central f" "CENTRAL_CMD s = CCMD_NONE" "central_post f c s = (RUNTIME_BLE_OK, s1)"
    and "client_turn f hv p cfg (s1, st) = (outs, s2, st2)"
    and "on_client_status (cfg_callbacks cfg)"
  shows "(outs, st2) = client_call_effect f hv p cfg st c
     \<and> (case client_call_op c of
          None \<Rightarrow> statuses outs = []
        | Some op \<Rightarrow> \<exists>code h. statuses outs = [(op, code, h)] \<and> (code = CLIENT_STATUS_OK \<or> code = CLIENT_STATUS_FAILED))
     \<and> client_turn f hv p cfg (s2, st2) = ([], s2, st2)"
proof -
  have v: "central_args_ok c"
    using assms(3) by (auto simp: central_post_eq central_call_valid_def result_codes split: if_splits)
  have s1: "s1 = (central_store c s)\<lparr>CENTRAL_HANDLE := snd (central_call_view c), CENTRAL_CMD := fst (central_call_view c)\<rparr>"
    using assms(1-3) by (simp add: central_post_eq central_call_valid_def central_cmd_def v)
  let ?s2 = "(central_store c s)\<lparr>CENTRAL_HANDLE := snd (central_call_view c), CENTRAL_CMD := CCMD_NONE\<rparr>"
  have ex: "client_execute f hv p cfg (fst (central_call_view c)) ?s2 st = client_call_effect f hv p cfg st c"
    by (rule client_execute_store[OF v refl])
  have r: "(outs, st2) = client_call_effect f hv p cfg st c" "s2 = ?s2"
    using assms(4) ex by (simp_all add: client_turn_def s1 case_prod_beta Let_def prod_eq_iff)
  have "client_turn f hv p cfg (s2, st2) = ([], s2, st2)"
    using r(2) by (simp add: client_turn_def client_execute_def ccmd_defs)
  moreover have e: "fst (client_call_effect f hv p cfg st c) = outs" by (simp flip: r(1))
  note statuses_effect[OF assms(5), where c = c and f = f and hv = hv and p = p and st = st, unfolded e]
  ultimately show ?thesis using r(1) by blast
qed

definition demo_service :: remote_service where
  "demo_service = \<lparr>rs_start = 10, rs_end = 20, rs_uuid = [0x0D, 0x18]\<rparr>"

definition demo_peer :: peer where
  "demo_peer = \<lparr>p_services = Some [demo_service], p_services_by_uuid = (\<lambda>u. Some [demo_service]),
     p_characteristics = (\<lambda>s. Some [\<lparr>rc_handle = 12, rc_cccd = Some 14, rc_uuid = [0x37, 0x2A], rc_props = 0x10\<rparr>]),
     p_read = (\<lambda>h. Some ([7, 8], 2)), p_read_blob = (\<lambda>h off. None),
     p_write = (\<lambda>h d. True), p_write_no_rsp = (\<lambda>h d. True),
     p_find_information = (\<lambda>a b. ([], True)), p_read_by_type = (\<lambda>a b u. ([], False))\<rparr>"

definition demo_client_cfg :: RuntimeCfg where
  "demo_client_cfg = flatten_config zero_config\<lparr>cfg_callbacks := no_callbacks\<lparr>on_read := True, on_client_status := True\<rparr>\<rparr>"

theorem client_call_executed_witness:
  "\<exists>s1 s2. central_post full_build (ClientRead 9) shared_init = (RUNTIME_BLE_OK, s1)
     \<and> client_turn full_build (hvec_std 32) demo_peer demo_client_cfg (s1, [])
       = ([ReadHandle 9, ClientCallback (OnRead 9 [7, 8], 0), ClientCallback (OnClientStatus 5 0 9, 0)], s2, [])"
proof -
  have f: "f_central full_build" "CENTRAL_CMD shared_init = CCMD_NONE"
    by (simp_all add: full_build_def shared_init_def)
  obtain s1 where s1: "central_post full_build (ClientRead 9) shared_init = (RUNTIME_BLE_OK, s1)"
    using f by (simp add: central_post_eq central_call_valid_def central_cmd_def)
  obtain outs s2 st2 where t: "client_turn full_build (hvec_std 32) demo_peer demo_client_cfg (s1, []) = (outs, s2, st2)"
    by (metis prod_cases3)
  have cb: "on_client_status (cfg_callbacks demo_client_cfg)" by (simp add: demo_client_cfg_def)
  have "(outs, st2) = client_call_effect full_build (hvec_std 32) demo_peer demo_client_cfg [] (ClientRead 9)"
    using client_call_executed[OF f s1 t cb] by blast
  then show ?thesis
    using s1 t
    by (simp add: spec_read_def demo_peer_def ccb_def emit_def demo_client_cfg_def client_result_def
        emit_client_status_def VALUE_LEN_def full_build_def client_op_defs CLIENT_STATUS_OK_def
        zero_config_def flatten_config_def)
qed

text \<open>Result (subscribe_uses_discovered_cccd). After a full discovery from an empty memory of at most
  32 characteristics with different handles, subscribing to any of them writes its own CCCD,
  the one the peer reported; for a characteristic reported without one the next handle is
  written.\<close>

theorem subscribe_uses_discovered_cccd:
  assumes "hvec_ok CLIENT_CHAR_CAP hv" "p_services p = Some svcs"
    and "length (concat (map (chars_of p) svcs)) \<le> CLIENT_CHAR_CAP"
    and "distinct (map rc_handle (concat (map (chars_of p) svcs)))"
    and "c \<in> set (concat (map (chars_of p) svcs))"
  shows "cccd_for (snd (client_discover_all hv p cfg [])) (rc_handle c) =
     (case rc_cccd c of Some k \<Rightarrow> k | None \<Rightarrow> rc_handle c + 1)"
proof -
  let ?cs = "concat (map (chars_of p) svcs)"
  have "snd (client_discover_all hv p cfg []) = map remember ?cs"
    using report_all_store[OF assms(1), of "[]" True p cfg svcs] assms(2,3)
    by (simp add: client_discover_all_def case_prod_beta Let_def)
  then show ?thesis
    using find_remember[OF assms(4,5)] by (simp add: cccd_for_def remember_def split: option.split)
qed

theorem subscribe_uses_discovered_cccd_witness:
  "cccd_for (snd (client_discover_all (hvec_std 32) demo_peer demo_client_cfg [])) 12 = 14"
proof -
  let ?c = "\<lparr>rc_handle = 12, rc_cccd = Some 14, rc_uuid = [0x37, 0x2A], rc_props = 0x10\<rparr>"
  have hv: "hvec_ok CLIENT_CHAR_CAP (hvec_std 32)" using hvec_ok_std[of 32] by (simp add: CLIENT_CHAR_CAP_def)
  have p: "p_services demo_peer = Some [demo_service]"
    and cs: "chars_of demo_peer demo_service = [?c]"
    by (simp_all add: demo_peer_def chars_of_def)
  have "cccd_for (snd (client_discover_all (hvec_std 32) demo_peer demo_client_cfg [])) (rc_handle ?c) =
      (case rc_cccd ?c of Some k \<Rightarrow> k | None \<Rightarrow> rc_handle ?c + 1)"
    by (rule subscribe_uses_discovered_cccd[OF hv p]) (simp_all add: cs CLIENT_CHAR_CAP_def)
  then show ?thesis by simp
qed

text \<open>Result (full_memory_forgets_discoveries). The memory of the session is never cleared: every
  discovery appends, again for a characteristic found before, and once 32 entries are there
  nothing more is kept; the discovery still reports success, and subscribing to a
  characteristic that was not kept writes the handle after its value, whatever CCCD the
  peer reported.\<close>

theorem full_memory_forgets_discoveries:
  assumes "hvec_ok CLIENT_CHAR_CAP hv" "p_services p = Some svcs" "length st = CLIENT_CHAR_CAP"
    and "h \<notin> fst ` set st" and "on_client_status (cfg_callbacks cfg)"
  shows "snd (client_discover_all hv p cfg st) = st
     \<and> statuses (fst (client_discover_all hv p cfg st)) = [(CLIENT_OP_DISCOVER_ALL, CLIENT_STATUS_OK, 0)]
     \<and> cccd_for (snd (client_discover_all hv p cfg st)) h = h + 1"
proof -
  have st: "snd (client_discover_all hv p cfg st) = st"
    using report_all_store[OF assms(1), of st True p cfg svcs] assms(2,3)
    by (simp add: client_discover_all_def case_prod_beta Let_def)
  have "find (\<lambda>e. fst e = h) st = None" using assms(4) by (force simp: find_None_iff)
  then show ?thesis
    using st assms(2,5) by (simp add: cccd_for_def client_discover_all_def case_prod_beta Let_def)
qed

theorem full_memory_forgets_discoveries_witness:
  "cccd_for (snd (client_discover_all (hvec_std 32) demo_peer demo_client_cfg (replicate 32 (3, None)))) 12 = 13"
proof -
  have hv: "hvec_ok CLIENT_CHAR_CAP (hvec_std 32)" using hvec_ok_std[of 32] by (simp add: CLIENT_CHAR_CAP_def)
  have p: "p_services demo_peer = Some [demo_service]" by (simp add: demo_peer_def)
  have l: "length (replicate 32 (3, None)) = CLIENT_CHAR_CAP" by (simp add: CLIENT_CHAR_CAP_def)
  have n: "(12 :: u16) \<notin> fst ` set (replicate 32 (3, None))" by simp
  have cb: "on_client_status (cfg_callbacks demo_client_cfg)" by (simp add: demo_client_cfg_def)
  have "cccd_for (snd (client_discover_all (hvec_std 32) demo_peer demo_client_cfg (replicate 32 (3, None)))) 12 = 12 + 1"
    using full_memory_forgets_discoveries[OF hv p l n cb] by blast
  then show ?thesis by simp
qed

end
