(* ===== verification/CentralLoop.thy ===== *)
theory CentralLoop
  imports Runs Api Scan Client ConnEvents
begin

text \<open>
  The central role's main loop (\<^verbatim>\<open>central_loop\<close>, \<^verbatim>\<open>wait_idle_cmd\<close>, \<^verbatim>\<open>run_scan\<close> and
  \<^verbatim>\<open>run_central_conn\<close> of \<^verbatim>\<open>radio.rs\<close>) as a step relation: a configuration is the point of the
  loop, with the local variables alive there, and the statics. A step is a turn of the loop,
  an answer of the host, or an API call of the application, in any interleaving. The events of
  an open connection are the theory ConnEvents, its link commands LinkControl; that the
  session around it may cancel the loop at any point is the theory Session.
\<close>

section \<open>Connection parameters\<close>

record central_host =
  ch_params_valid :: "conn_params \<Rightarrow> bool"
  ch_default_params :: conn_params

definition central_connect_params :: "central_host \<Rightarrow> RuntimeCfg \<Rightarrow> conn_params \<times> cb_event list" where
  "central_connect_params ch cfg =
     (let min_ms = cfg_central_conn_min_interval_ms cfg;
          max_ms = cfg_central_conn_max_interval_ms cfg;
          timeout_ms = cfg_central_conn_timeout_ms cfg;
          params = \<lparr>cp_min_interval = (if min_ms = 0 then 80 else unat min_ms),
                    cp_max_interval = (if max_ms = 0 then 80 else unat max_ms),
                    cp_max_latency = cfg_central_conn_latency cfg,
                    cp_min_event = 0,
                    cp_max_event = 0,
                    cp_timeout = (if timeout_ms = 0 then 8000 else unat timeout_ms)\<rparr>
      in if ch_params_valid ch params then (params, [])
         else (ch_default_params ch, log_str cfg ''[central] invalid connect params''))"

section \<open>Waiting for a command\<close>

datatype idle_cmd =
    IdleConnect "u8 list" u8
  | IdleScanStart

text \<open>One turn of \<^verbatim>\<open>wait_idle_cmd\<close>: \<open>None\<close> while it waits, otherwise what it returns.\<close>

definition wait_idle_turn :: "shared \<Rightarrow> idle_cmd option option \<times> shared" where
  "wait_idle_turn s =
     (if UNLOAD_REQ s then (Some None, s)
      else
        let cmd = CENTRAL_CMD s; s1 = s\<lparr>CENTRAL_CMD := CCMD_NONE\<rparr>
        in if cmd = CCMD_CONNECT then (Some (Some (IdleConnect (fst (queued_peer s1)) (snd (queued_peer s1)))), s1)
           else if cmd = CCMD_SCAN_START then (Some (Some IdleScanStart), s1)
           else (None, s1))"

section \<open>The loop\<close>

datatype (plugins only: code size) 'k central_out =
    CtlCallback cb_event
  | CtlConnect "'k address" conn_params
  | CtlScan "'k scan_config"
  | CtlSetup conn_out
  | CtlClient client_out

datatype (plugins only: code size) 'k central_pc =
    LoopTop bool
  | Idle
  | ScanOpening
  | Scanning "nat option"
  | ConnectTo "'k address"
  | Connecting
  | Connected char_store
  | RetryWait
  | Ended

definition ctl :: "cb_event list \<Rightarrow> 'k central_out list" where
  "ctl es = map CtlCallback es"

text \<open>The auto-connect address and what follows \<^verbatim>\<open>addr\<close> in the loop's body.\<close>

definition configured_peer :: "('k, 'l, 'i) bt_ops \<Rightarrow> RuntimeCfg \<Rightarrow> 'k address" where
  "configured_peer bt cfg = peer_address bt (slice_or_empty (cfg_peer_address cfg) 6) (cfg_peer_address_kind cfg)"

definition connect_outs :: "central_host \<Rightarrow> RuntimeCfg \<Rightarrow> 'k address \<Rightarrow> 'k central_out list" where
  "connect_outs ch cfg addr =
     (let (params, warnings) = central_connect_params ch cfg
      in ctl (warnings @ log_str cfg ''[central] connecting'') @ [CtlConnect addr params])"

text \<open>The futures \<^verbatim>\<open>run_central_conn\<close> selects over; it returns when the first of them does.\<close>

datatype conn_future = ClientSession | L2capChannel | ConnectionEvents | UnloadWait

definition conn_futures :: "features \<Rightarrow> RuntimeCfg \<Rightarrow> conn_future list" where
  "conn_futures f cfg =
     (if f_l2cap f \<and> cfg_l2cap_psm cfg \<noteq> 0 then [ClientSession, L2capChannel, ConnectionEvents]
      else [ClientSession, ConnectionEvents, UnloadWait])"

inductive central_step ::
  "features \<Rightarrow> ('k, 'l, 'i) bt_ops \<Rightarrow> (u16 \<times> u16 option) hvec \<Rightarrow> central_host \<Rightarrow> RuntimeCfg \<Rightarrow>
     'k central_pc \<times> shared \<Rightarrow> 'k central_out list \<Rightarrow> 'k central_pc \<times> shared \<Rightarrow> bool"
  for f bt hv ch cfg where
  unloaded: "UNLOAD_REQ s \<Longrightarrow> central_step f bt hv ch cfg (LoopTop auto, s) [] (Ended, s)"
| auto_connect: "\<not> UNLOAD_REQ s \<Longrightarrow>
    central_step f bt hv ch cfg (LoopTop True, s) [] (ConnectTo (configured_peer bt cfg), s)"
| go_idle: "\<not> UNLOAD_REQ s \<Longrightarrow> central_step f bt hv ch cfg (LoopTop False, s) [] (Idle, s)"
| idle_wait: "wait_idle_turn s = (None, s') \<Longrightarrow> central_step f bt hv ch cfg (Idle, s) [] (Idle, s')"
| idle_unloaded: "wait_idle_turn s = (Some None, s') \<Longrightarrow> central_step f bt hv ch cfg (Idle, s) [] (Ended, s')"
| idle_connect: "wait_idle_turn s = (Some (Some (IdleConnect a k)), s') \<Longrightarrow>
    central_step f bt hv ch cfg (Idle, s) [] (ConnectTo (peer_address bt a k), s')"
| idle_scan: "wait_idle_turn s = (Some (Some IdleScanStart), s') \<Longrightarrow>
    central_step f bt hv ch cfg (Idle, s) [] (ScanOpening, s')"
| scan_opened: "central_step f bt hv ch cfg (ScanOpening, s)
    (ctl (log_str cfg ''[central] scanning'') @ [CtlScan (scan_config_of bt s)]) (Scanning (scan_stop_at s now), s)"
| scan_refused: "central_step f bt hv ch cfg (ScanOpening, s)
    (ctl (log_str cfg ''[central] scanning'') @ [CtlScan (scan_config_of bt s)]
      @ ctl (log_str cfg ''[central] scan failed'')) (LoopTop False, s)"
| scan_wait: "scan_turn cfg stop now s = (None, es, s') \<Longrightarrow>
    central_step f bt hv ch cfg (Scanning stop, s) (ctl es) (Scanning stop, s')"
| scan_over: "scan_turn cfg stop now s = (Some None, es, s') \<Longrightarrow>
    central_step f bt hv ch cfg (Scanning stop, s) (ctl es) (LoopTop False, s')"
| scan_connect: "scan_turn cfg stop now s = (Some (Some (a, k)), es, s') \<Longrightarrow>
    central_step f bt hv ch cfg (Scanning stop, s) (ctl es) (ConnectTo (peer_address bt a k), s')"
| connect: "central_step f bt hv ch cfg (ConnectTo addr, s) (connect_outs ch cfg addr) (Connecting, s)"
| connected: "central_step f bt hv ch cfg (Connecting, s)
    (ctl (emit (on_connected (cfg_callbacks cfg)) cfg OnConnected) @ map CtlSetup (connection_setup cfg))
    (Connected [], s)"
| connect_failed: "central_step f bt hv ch cfg (Connecting, s)
    (ctl (log_str cfg ''[central] connect failed'')) (RetryWait, s)"
| retry: "central_step f bt hv ch cfg (RetryWait, s) [] (LoopTop False, s)"
| client_command: "client_turn f hv p cfg (s, store) = (os, s', store') \<Longrightarrow>
    central_step f bt hv ch cfg (Connected store, s) (map CtlClient os) (Connected store', s')"
| conn_over: "fut \<in> set (conn_futures f cfg) \<Longrightarrow> (fut = UnloadWait \<Longrightarrow> UNLOAD_REQ s) \<Longrightarrow>
    central_step f bt hv ch cfg (Connected store, s)
      (ctl (emit (on_disconnected (cfg_callbacks cfg)) cfg (OnDisconnected 0))) (LoopTop False, s)"
| client_init_failed: "central_step f bt hv ch cfg (Connected [], s)
    (ctl (log_str cfg ''[central] gatt client init failed'' @ emit (on_disconnected (cfg_callbacks cfg)) cfg (OnDisconnected 0)))
    (LoopTop False, s)"
| app_call: "central_step f bt hv ch cfg (pc, s) [] (pc, snd (api_step f c s))"

text \<open>The loop starts with \<^verbatim>\<open>auto\<close> when a peer is configured.\<close>

definition central_start :: "RuntimeCfg \<Rightarrow> 'k central_pc" where
  "central_start cfg = LoopTop (\<not> is_null (cfg_peer_address cfg))"

inductive_cases from_idle: "central_step f bt hv ch cfg (Idle, s) os c"
inductive_cases from_connecting: "central_step f bt hv ch cfg (Connecting, s) os c"
inductive_cases from_ended: "central_step f bt hv ch cfg (Ended, s) os c"

section \<open>Connections are bracketed\<close>

fun conn_mark :: "'k central_out \<Rightarrow> bool list" where
  "conn_mark (CtlCallback (OnConnected, _)) = [True]"
| "conn_mark (CtlCallback (OnDisconnected _, _)) = [False]"
| "conn_mark _ = []"

abbreviation conn_marks :: "'k central_out list \<Rightarrow> bool list" where
  "conn_marks \<equiv> marks conn_mark"

fun is_connected :: "'k central_pc \<Rightarrow> bool" where
  "is_connected (Connected _) = True"
| "is_connected _ = False"

lemma ctl_append [simp]: "ctl (xs @ ys) = ctl xs @ ctl ys" "ctl [] = []"
  by (simp_all add: ctl_def)

lemma conn_marks_other [simp]:
  "conn_marks (ctl (log_str cfg m)) = []" "conn_marks (map CtlSetup cs) = []" "conn_marks (map CtlClient os) = []"
  by (auto simp: ctl_def log_str_def emit_def intro!: marks_none)

lemma conn_marks_emit [simp]:
  "conn_marks (ctl (emit b cfg OnConnected)) = (if b then [True] else [])"
  "conn_marks (ctl (emit b cfg (OnDisconnected r))) = (if b then [False] else [])"
  by (simp_all add: ctl_def emit_def)

lemma conn_marks_connect [simp]: "conn_marks (connect_outs ch cfg addr) = []"
  by (simp add: connect_outs_def central_connect_params_def Let_def)

lemma scan_turn_marks: "scan_turn cfg stop now s = (r, es, s') \<Longrightarrow> conn_marks (ctl es) = []"
  by (auto simp: scan_turn_def Let_def split: if_splits)

definition reports_connections :: "RuntimeCfg \<Rightarrow> bool" where
  "reports_connections cfg \<longleftrightarrow> on_connected (cfg_callbacks cfg) \<and> on_disconnected (cfg_callbacks cfg)"

interpretation central_conn: bracketed_connections
  "\<lambda>c os c'. reports_connections cfg \<and> central_step f bt hv ch cfg c os c'" conn_mark "\<lambda>c. is_connected (fst c)"
proof unfold_locales
  fix c :: "'a central_pc \<times> shared" and os c'
  assume "reports_connections cfg \<and> central_step f bt hv ch cfg c os c'"
  then have step: "central_step f bt hv ch cfg c os c'"
    and cb: "on_connected (cfg_callbacks cfg)" "on_disconnected (cfg_callbacks cfg)"
    by (simp_all add: reports_connections_def)
  show "alternates (is_connected (fst c)) (conn_marks os) (is_connected (fst c'))"
    using step cb by (cases rule: central_step.cases) (auto simp: scan_turn_marks)
qed

section \<open>What the steps keep\<close>

lemma shared_inv_cmd [simp]: "shared_inv (s\<lparr>CENTRAL_CMD := c\<rparr>) \<longleftrightarrow> shared_inv s"
  by (simp add: shared_inv_def channel_inv_defs)

lemma wait_idle_state: "wait_idle_turn s = (r, s') \<Longrightarrow> s' = s \<or> s' = s\<lparr>CENTRAL_CMD := CCMD_NONE\<rparr>"
  by (auto simp: wait_idle_turn_def Let_def split: if_splits)

lemma scan_turn_state: "scan_turn cfg stop now s = (r, es, s') \<Longrightarrow> s' = s \<or> s' = s\<lparr>CENTRAL_CMD := CCMD_NONE\<rparr>"
  by (auto simp: scan_turn_def Let_def split: if_splits)

lemma wait_idle_inv: "wait_idle_turn s = (r, s') \<Longrightarrow> shared_inv s \<Longrightarrow> shared_inv s'"
  by (drule wait_idle_state) auto

lemma scan_turn_inv: "scan_turn cfg stop now s = (r, es, s') \<Longrightarrow> shared_inv s \<Longrightarrow> shared_inv s'"
  by (drule scan_turn_state) auto

lemma client_turn_shared: "client_turn f hv p cfg (s, st) = (os, s', st') \<Longrightarrow> s' = s\<lparr>CENTRAL_CMD := CCMD_NONE\<rparr>"
  by (auto simp: client_turn_def case_prod_beta Let_def)

lemma client_turn_inv: "client_turn f hv p cfg (s, st) = (os, s', st') \<Longrightarrow> shared_inv s \<Longrightarrow> shared_inv s'"
  by (drule client_turn_shared) auto

lemma queued_peer_len: "shared_inv s \<Longrightarrow> length (fst (queued_peer s)) = 6"
  by (simp add: queued_peer_def shared_inv_def central_inv_def)

lemma idle_connect_len:
  "wait_idle_turn s = (Some (Some (IdleConnect a k)), s') \<Longrightarrow> shared_inv s \<Longrightarrow> length a = 6"
  using queued_peer_len[of "s\<lparr>CENTRAL_CMD := CCMD_NONE\<rparr>"]
  by (auto simp: wait_idle_turn_def Let_def split: if_splits)

lemma scan_connect_len:
  "scan_turn cfg stop now s = (Some (Some (a, k)), es, s') \<Longrightarrow> shared_inv s \<Longrightarrow> length a = 6"
  using queued_peer_len[of "s\<lparr>CENTRAL_CMD := CCMD_NONE\<rparr>"]
  by (auto simp: scan_turn_def Let_def split: if_splits)

text \<open>The invariant of a configuration, and what its outputs then satisfy.\<close>

fun pc_ok :: "RuntimeCfg \<Rightarrow> 'k central_pc \<Rightarrow> bool" where
  "pc_ok cfg (LoopTop auto) = (auto \<longrightarrow> cfg_peer_address cfg \<noteq> None)"
| "pc_ok cfg (ConnectTo addr) = (length (addr_raw addr) = 6)"
| "pc_ok cfg _ = True"

fun out_ok :: "central_host \<Rightarrow> 'k central_out \<Rightarrow> bool" where
  "out_ok ch (CtlConnect addr params) = (length (addr_raw addr) = 6 \<and> ch_params_valid ch params)"
| "out_ok ch (CtlScan c) =
     (sc_interval c > 0 \<and> sc_window c > 0 \<and> list_all (\<lambda>a. length (addr_raw a) = 6) (sc_filter c))"
| "out_ok ch _ = True"

lemma out_ok_other [simp]:
  "list_all (out_ok ch) (ctl es)" "list_all (out_ok ch) (map CtlSetup cs)" "list_all (out_ok ch) (map CtlClient os)"
  by (simp_all add: list_all_iff ctl_def)

lemma connect_params_valid:
  "ch_params_valid ch (ch_default_params ch) \<Longrightarrow> ch_params_valid ch (fst (central_connect_params ch cfg))"
  by (simp add: central_connect_params_def Let_def)

lemma connect_outs_ok:
  "ch_params_valid ch (ch_default_params ch) \<Longrightarrow> length (addr_raw addr) = 6 \<Longrightarrow>
     list_all (out_ok ch) (connect_outs ch cfg addr)"
  using connect_params_valid[of ch cfg] by (simp add: connect_outs_def case_prod_beta)

lemma scan_config_ok: "shared_inv s \<Longrightarrow> out_ok ch (CtlScan (scan_config_of bt s))"
  by (simp add: scan_config_of_def Let_def peer_address_def shared_inv_def central_inv_def unat_gt_0)

lemma configured_peer_len: "cfg_peer_address cfg = Some m \<Longrightarrow> length (addr_raw (configured_peer bt cfg)) = 6"
  by (auto simp: configured_peer_def peer_address_def slice_or_empty_def)

lemma step_inv:
  assumes "central_step f bt hv ch cfg c os c'" "shared_inv (snd c)" "pc_ok cfg (fst c)"
    and "ch_params_valid ch (ch_default_params ch)"
  shows "shared_inv (snd c') \<and> pc_ok cfg (fst c') \<and> list_all (out_ok ch) os"
  using assms
proof (cases rule: central_step.cases)
  case (app_call s pc call)
  then show ?thesis using assms shared_inv_step by simp
qed (auto dest: wait_idle_inv scan_turn_inv client_turn_inv idle_connect_len scan_connect_len configured_peer_len
    simp: connect_outs_ok scan_config_ok[of _ ch bt, simplified] peer_address_def)

interpretation central_inv: step_invariant
  "\<lambda>c os c'. ch_params_valid ch (ch_default_params ch) \<and> central_step f bt hv ch cfg c os c'"
  "\<lambda>c. shared_inv (snd c) \<and> pc_ok cfg (fst c)" "out_ok ch"
  using step_inv by unfold_locales blast

section \<open>Unloading\<close>

text \<open>The points of the loop that have an unload check ahead of any new radio operation, ranked
  by the steps left to the end.\<close>

fun quiet_rank :: "'k central_pc \<Rightarrow> nat option" where
  "quiet_rank Ended = Some 0"
| "quiet_rank (LoopTop _) = Some 1"
| "quiet_rank Idle = Some 1"
| "quiet_rank (Scanning _) = Some 2"
| "quiet_rank RetryWait = Some 2"
| "quiet_rank (Connected _) = Some 2"
| "quiet_rank _ = None"

fun starts_radio :: "'k central_out \<Rightarrow> bool" where
  "starts_radio (CtlConnect _ _) = True"
| "starts_radio (CtlScan _) = True"
| "starts_radio _ = False"

lemma starts_radio_other [simp]:
  "list_ex starts_radio (ctl es) = False" "list_ex starts_radio (map CtlSetup cs) = False"
  "list_ex starts_radio (map CtlClient os) = False"
  by (auto simp: list_ex_iff ctl_def)

lemma unload_step:
  assumes "central_step f bt hv ch cfg c os c'" "UNLOAD_REQ (snd c)" "quiet_rank (fst c) = Some n"
  shows "UNLOAD_REQ (snd c') \<and> \<not> list_ex starts_radio os
     \<and> (\<exists>m. quiet_rank (fst c') = Some m \<and> (m < n \<or> m = n \<and> is_connected (fst c') = is_connected (fst c)))"
  using assms
proof (cases rule: central_step.cases)
  case (client_command p s store os' s' store')
  then show ?thesis using assms client_turn_shared by fastforce
next
  case (app_call s pc call)
  then show ?thesis using assms api_step_unload by auto
qed (auto simp: wait_idle_turn_def scan_turn_def)

lemma unload_steps:
  assumes "runs (central_step f bt hv ch cfg) c os c'" "UNLOAD_REQ (snd c)" "quiet_rank (fst c) \<noteq> None"
  shows "UNLOAD_REQ (snd c') \<and> \<not> list_ex starts_radio os \<and> quiet_rank (fst c') \<noteq> None"
  using assms
proof (induction rule: runs.induct)
  case (runs_refl c)
  then show ?case by simp
next
  case (runs_snoc c os c' os' c'')
  then obtain n where "quiet_rank (fst c') = Some n" by auto
  from unload_step[OF runs_snoc.hyps(2) _ this] runs_snoc.IH runs_snoc.prems
  show ?case by auto
qed

lemma end_from_top: "UNLOAD_REQ s \<Longrightarrow> runs (central_step f bt hv ch cfg) (LoopTop a, s) [] (Ended, s)"
  by (rule runs_one) (rule unloaded)

lemma via_top:
  assumes "central_step f bt hv ch cfg c os (LoopTop False, s)" "UNLOAD_REQ s"
  shows "runs (central_step f bt hv ch cfg) c os (Ended, s)"
  using runs_cons[OF assms(1) end_from_top[OF assms(2)]] by simp

lemma unload_can_end:
  assumes "UNLOAD_REQ s" "quiet_rank pc \<noteq> None"
  shows "\<exists>os. runs (central_step f bt hv ch cfg) (pc, s) os (Ended, s)"
proof (cases pc)
  case (LoopTop a)
  then show ?thesis using end_from_top[OF assms(1)] by blast
next
  case Idle
  have "wait_idle_turn s = (Some None, s)" using assms(1) by (simp add: wait_idle_turn_def)
  then show ?thesis using Idle by (blast intro: runs_one idle_unloaded)
next
  case (Scanning stop)
  have "scan_turn cfg stop 0 s = (Some None, [], s)" using assms(1) by (simp add: scan_turn_def)
  then show ?thesis using Scanning via_top[OF scan_over assms(1)] by blast
next
  case RetryWait
  then show ?thesis using via_top[OF retry assms(1)] by blast
next
  case (Connected st)
  have "ConnectionEvents \<in> set (conn_futures f cfg)" by (simp add: conn_futures_def)
  then show ?thesis using Connected via_top[OF conn_over assms(1)] by (metis conn_future.distinct(11))
next
  case Ended
  then show ?thesis by (auto intro: runs_refl)
qed (use assms(2) in simp_all)

section \<open>Properties\<close>

lemma central_start_ok: "pc_ok cfg (central_start cfg)" "\<not> is_connected (central_start cfg)"
  by (cases "cfg_peer_address cfg"; simp add: central_start_def)+

text \<open>Result (central_requests_wellformed). Whatever the application calls and whatever the host
  answers, in any interleaving: every connection the central role requests names a full
  six-byte address and carries parameters the host accepts (the host's defaults when the
  configured ones are not valid), every scan it starts has a positive interval and window
  and a well-formed accept list, and the invariant of the statics is kept.\<close>

theorem central_requests_wellformed:
  assumes "runs (central_step f bt hv ch cfg) (central_start cfg, s0) os (pc, s)" "shared_inv s0"
    and "ch_params_valid ch (ch_default_params ch)"
  shows "shared_inv s \<and> list_all (out_ok ch) os"
proof -
  have "runs (\<lambda>c os c'. ch_params_valid ch (ch_default_params ch) \<and> central_step f bt hv ch cfg c os c')
      (central_start cfg, s0) os (pc, s)"
    by (rule runs_guarded[OF assms(1,3)])
  from central_inv.runs_keep[OF this] assms(2) show ?thesis by (simp add: central_start_ok)
qed

definition demo_central_host :: central_host where
  "demo_central_host = \<lparr>ch_params_valid = (\<lambda>p. cp_min_interval p \<le> cp_max_interval p),
     ch_default_params = \<lparr>cp_min_interval = 80, cp_max_interval = 80, cp_max_latency = 0, cp_min_event = 0,
       cp_max_event = 0, cp_timeout = 8000\<rparr>\<rparr>"

definition demo_central_cfg :: RuntimeCfg where
  "demo_central_cfg = flatten_config zero_config\<lparr>cfg_peer_address := Some (\<lambda>i. of_nat i), cfg_peer_address_kind := 1,
     cfg_central_conn_min_interval_ms := 90,
     cfg_callbacks := no_callbacks\<lparr>on_connected := True, on_disconnected := True\<rparr>\<rparr>"

lemma demo_central_run:
  "\<exists>os. runs (central_step full_build bt_std (hvec_std 32) demo_central_host demo_central_cfg) (central_start demo_central_cfg, shared_init)
     ([] @ [] @ connect_outs demo_central_host demo_central_cfg (configured_peer bt_std demo_central_cfg) @ os)
     (Connected [], shared_init)"
proof -
  let ?step = "central_step full_build bt_std (hvec_std 32) demo_central_host demo_central_cfg"
  have u: "\<not> UNLOAD_REQ shared_init" by (simp add: shared_init_def)
  have "central_start demo_central_cfg = (LoopTop True :: u8 central_pc)" by (simp add: central_start_def demo_central_cfg_def)
  then have 0: "runs ?step (central_start demo_central_cfg, shared_init) [] (LoopTop True, shared_init)"
    by (simp add: runs_refl)
  from runs_snoc[OF runs_snoc[OF runs_snoc[OF 0 auto_connect[OF u]] connect] connected]
  show ?thesis by auto
qed

theorem central_requests_wellformed_witness:
  "list_all (out_ok demo_central_host)
     (connect_outs demo_central_host demo_central_cfg (configured_peer bt_std demo_central_cfg))"
proof -
  obtain os where run: "runs (central_step full_build bt_std (hvec_std 32) demo_central_host demo_central_cfg) (central_start demo_central_cfg, shared_init)
     ([] @ [] @ connect_outs demo_central_host demo_central_cfg (configured_peer bt_std demo_central_cfg) @ os)
     (Connected [], shared_init)" using demo_central_run by blast
  have "ch_params_valid demo_central_host (ch_default_params demo_central_host)"
    by (simp add: demo_central_host_def)
  then show ?thesis using central_requests_wellformed[OF run shared_inv_init] by simp
qed

text \<open>Result (central_connections_bracketed). With both callbacks set, the application sees
  connections of the central role strictly bracketed: \<^verbatim>\<open>on_connected\<close> and \<^verbatim>\<open>on_disconnected\<close>
  alternate, starting with the former, and the last one tells whether a connection is open;
  this holds at every point of every run, in any interleaving with API calls.\<close>

theorem central_connections_bracketed:
  assumes "runs (central_step f bt hv ch cfg) (central_start cfg, s0) os (pc, s)"
    and "on_connected (cfg_callbacks cfg)" "on_disconnected (cfg_callbacks cfg)"
  shows "\<exists>n. conn_marks os = concat (replicate n [True, False]) @ (if is_connected pc then [True] else [])"
proof -
  have "runs (\<lambda>c os c'. reports_connections cfg \<and> central_step f bt hv ch cfg c os c') (central_start cfg, s0) os (pc, s)"
    using assms(2,3) by (intro runs_guarded[OF assms(1)]) (simp add: reports_connections_def)
  from central_conn.brackets[OF this] show ?thesis by (simp add: central_start_ok)
qed

theorem central_connections_bracketed_witness:
  "\<exists>os. runs (central_step full_build bt_std (hvec_std 32) demo_central_host demo_central_cfg) (central_start demo_central_cfg, shared_init) os (Connected [], shared_init)
     \<and> last (conn_marks os)"
proof -
  obtain os where run: "runs (central_step full_build bt_std (hvec_std 32) demo_central_host demo_central_cfg) (central_start demo_central_cfg, shared_init) os
     (Connected [], shared_init)" using demo_central_run by blast
  have cb: "on_connected (cfg_callbacks demo_central_cfg)" "on_disconnected (cfg_callbacks demo_central_cfg)"
    by (simp_all add: demo_central_cfg_def)
  obtain n where "conn_marks os = concat (replicate n [True, False]) @ [True]"
    using central_connections_bracketed[OF run cb] by auto
  then show ?thesis using run by auto
qed

text \<open>Result (central_unload_ends). After an unload request the central role starts no further scan
  or connection: from every point whose next radio operation is behind an unload check
  (waiting for a command, scanning, connected, after a failed connect, at the top of the
  loop), no run makes one, whatever the application still calls; every step of the loop
  itself brings it closer to its end or is a client command of the open connection, and the
  end can be reached at once.\<close>

theorem central_unload_ends:
  assumes "UNLOAD_REQ s" "quiet_rank pc = Some n"
  shows "(runs (central_step f bt hv ch cfg) (pc, s) os (pc', s') \<longrightarrow>
            UNLOAD_REQ s' \<and> \<not> list_ex starts_radio os \<and> quiet_rank pc' \<noteq> None)
     \<and> (central_step f bt hv ch cfg (pc, s) os (pc', s') \<longrightarrow>
            (\<exists>m. quiet_rank pc' = Some m \<and> (m < n \<or> m = n \<and> is_connected pc' = is_connected pc)))
     \<and> (\<exists>os. runs (central_step f bt hv ch cfg) (pc, s) os (Ended, s))"
  using unload_steps[of f bt hv ch cfg "(pc, s)" os "(pc', s')"] unload_step[of f bt hv ch cfg "(pc, s)" os "(pc', s')" n]
    unload_can_end[of s pc f bt hv ch cfg] assms by auto

theorem central_unload_ends_witness:
  "\<exists>os. runs (central_step full_build bt_std (hvec_std 32) demo_central_host demo_central_cfg)
     (Scanning (Some 9), shared_init\<lparr>UNLOAD_REQ := True\<rparr>) os (Ended, shared_init\<lparr>UNLOAD_REQ := True\<rparr>)"
  by (rule central_unload_ends[where n = 2, THEN conjunct2, THEN conjunct2]) simp_all



text \<open>Result (idle_drops_client_commands). A client command accepted while the central role has no
  connection (\<^verbatim>\<open>RUNTIME_BLE_OK\<close> to the caller) is taken by the waiting loop and dropped: no
  step of the waiting loop makes any callback, so no status is ever reported for it.\<close>

theorem idle_drops_client_commands:
  assumes "f_central f" "\<not> UNLOAD_REQ s" "CENTRAL_CMD s = CCMD_NONE"
    and "central_post f c s = (RUNTIME_BLE_OK, s1)" "client_call_op c = Some op"
  shows "central_step f bt hv ch cfg (Idle, s1) [] (Idle, s1\<lparr>CENTRAL_CMD := CCMD_NONE\<rparr>)
     \<and> (central_step f bt hv ch cfg (Idle, s1) os c' \<longrightarrow> os = [])"
proof -
  have v: "central_args_ok c"
    using assms(4) by (auto simp: central_post_eq central_call_valid_def result_codes split: if_splits)
  have s1: "s1 = (central_store c s)\<lparr>CENTRAL_HANDLE := snd (central_call_view c), CENTRAL_CMD := fst (central_call_view c)\<rparr>"
    using assms(1,3,4) by (simp add: central_post_eq central_call_valid_def central_cmd_def v)
  have cmd: "CENTRAL_CMD s1 \<noteq> CCMD_CONNECT" "CENTRAL_CMD s1 \<noteq> CCMD_SCAN_START"
    using assms(5) by (cases c; simp add: s1 ccmd_defs)+
  have "\<not> UNLOAD_REQ (central_store c s)" using assms(2) by (cases c) (simp_all add: central_store_defs)
  then have "wait_idle_turn s1 = (None, s1\<lparr>CENTRAL_CMD := CCMD_NONE\<rparr>)"
    using cmd by (simp add: wait_idle_turn_def Let_def) (simp add: s1)
  then show ?thesis using idle_wait by (auto elim: from_idle)
qed

theorem idle_drops_client_commands_witness:
  "\<exists>s1. central_post full_build (ClientRead 9) shared_init = (RUNTIME_BLE_OK, s1)
     \<and> central_step full_build bt_std (hvec_std 32) demo_central_host demo_central_cfg (Idle, s1) []
         (Idle, s1\<lparr>CENTRAL_CMD := CCMD_NONE\<rparr>)"
proof -
  have i: "f_central full_build" "\<not> UNLOAD_REQ shared_init" "CENTRAL_CMD shared_init = CCMD_NONE"
    by (simp_all add: full_build_def shared_init_def)
  obtain s1 where r: "central_post full_build (ClientRead 9) shared_init = (RUNTIME_BLE_OK, s1)"
    using i by (simp add: central_post_eq central_call_valid_def central_cmd_def)
  have "client_call_op (ClientRead 9) = Some CLIENT_OP_READ" by simp
  from idle_drops_client_commands[OF i r this] r show ?thesis by blast
qed

end
