(* ===== verification/BondStore.thy ===== *)
theory BondStore
  imports BondSlots
begin

text \<open>
  What the slot table guarantees about the application's storage. The storage is a map from
  slots to blobs, written by the \<^verbatim>\<open>on_bond_store\<close> events and read back by \<^verbatim>\<open>on_bond_load\<close>.
  The main result is the refinement of the pair (table, storage) to the set of bonds an
  application believes it has: bonds stored in one session are the bonds of the next.
\<close>

section \<open>The application's storage\<close>

type_synonym storage = "u8 \<Rightarrow> u8 list option"

primrec db_write :: "cb_event list \<Rightarrow> storage \<Rightarrow> storage" where
  "db_write [] db = db"
| "db_write (e # es) db =
     db_write es (case fst e of OnBondStore k v \<Rightarrow> db(k := v) | _ \<Rightarrow> db)"

definition db_load :: "storage \<Rightarrow> u8 \<Rightarrow> nat \<Rightarrow> u8 list \<times> nat" where
  "db_load db k n = (case db k of None \<Rightarrow> ([], 0) | Some b \<Rightarrow> (take n b, length b))"

text \<open>Every entry of the table has its bond's blob in its slot, and every slot that is not in
  the table is empty.\<close>

definition db_matches ::
  "('k, 'l, 'i) bt_ops \<Rightarrow> RuntimeCfg \<Rightarrow> ('k, 'i) slot_table \<Rightarrow> storage \<Rightarrow> bool" where
  "db_matches bt cfg slots db \<longleftrightarrow>
     (\<forall>(i, k) \<in> set slots. \<exists>b :: ('k, 'l, 'i) bond. bond_wf b \<and> bond_identity b = i \<and> db k = Some (serialize_bond bt b))
     \<and> (\<forall>k < bond_slot_count cfg. k \<notin> snd ` set slots \<longrightarrow> db k = None)"

definition table_ok :: "RuntimeCfg \<Rightarrow> ('k, 'i) slot_table \<Rightarrow> bool" where
  "table_ok cfg slots \<longleftrightarrow> slots_packed slots \<and> length slots \<le> unat (bond_slot_count cfg)"

lemma table_ok_distinct: "table_ok cfg slots \<Longrightarrow> slots_distinct slots"
  using bond_slot_count_bounds(2)[of cfg] by (auto simp: table_ok_def intro: slots_packed_distinct)

lemma slots_packed_nth:
  assumes "slots_packed slots" "n < length slots"
  shows "snd (slots ! n) = of_nat n"
proof -
  have "map snd slots ! n = map of_nat [0..<length slots] ! n"
    using assms(1) by (simp only: slots_packed_def)
  then show ?thesis using assms(2) by simp
qed

lemma slots_packed_slot:
  assumes "slots_packed slots" "(i, k) \<in> set slots"
  shows "\<exists>n < length slots. k = of_nat n \<and> fst (slots ! n) = i"
proof -
  obtain n where "n < length slots" "slots ! n = (i, k)" using assms(2) by (auto simp: in_set_conv_nth)
  then show ?thesis using slots_packed_nth[OF assms(1), of n] by auto
qed

lemma table_ok_slot_less:
  assumes "table_ok cfg slots" "(i, k) \<in> set slots"
  shows "k < bond_slot_count cfg"
proof -
  obtain n where "n < length slots" "k = of_nat n"
    using slots_packed_slot[OF _ assms(2)] assms(1) by (auto simp: table_ok_def)
  then show ?thesis
    using assms(1) bond_slot_count_bounds(2)[of cfg] by (simp add: table_ok_def word_less_nat_alt unat_slot)
qed

section \<open>Storing a bond\<close>

text \<open>The three cases of \<open>store_bond\<close> on a packed table: the slot and the new table.\<close>

lemma store_bond_cases:
  assumes "hvec_ok BOND_SLOT_CAP hv" "host_ok h" "table_ok cfg slots" "on_bond_store (cfg_callbacks cfg)"
  obtains (known) k where "(bond_identity bond, k) \<in> set slots"
      "store_bond bt h hv cfg bond slots = ([(OnBondStore k (Some (serialize_bond bt bond)), cfg_user cfg)], slots)"
  | (fresh) "bond_identity bond \<notin> fst ` set slots" "length slots < unat (bond_slot_count cfg)"
      "store_bond bt h hv cfg bond slots =
         ([(OnBondStore (of_nat (length slots)) (Some (serialize_bond bt bond)), cfg_user cfg)],
          slots @ [(bond_identity bond, of_nat (length slots))])"
  | (evict) "bond_identity bond \<notin> fst ` set slots" "length slots = unat (bond_slot_count cfg)" "slots \<noteq> []"
      "store_bond bt h hv cfg bond slots =
         ([(OnBondStore 0 (Some (serialize_bond bt bond)), cfg_user cfg)], slots[0 := (bond_identity bond, 0)])"
proof (cases "find_identity h (bond_identity bond) slots")
  case (Some e)
  then obtain j k where e: "e = (j, k)" by (cases e) auto
  then have "(bond_identity bond, k) \<in> set slots"
    using find_identity_Some[OF assms(2)] Some by fastforce
  then show thesis
    using known Some e assms(4) bond_slot_count_bounds(3)[of cfg] by (auto simp: store_bond_def)
next
  case None
  then have new: "bond_identity bond \<notin> fst ` set slots" using find_identity_None[OF assms(2)] by blast
  show thesis
  proof (cases "length slots < unat (bond_slot_count cfg)")
    case True
    then show thesis
      using fresh None new assms(4) bond_slot_count_bounds(2,3)[of cfg] True
      by (simp add: store_bond_def hv_push[OF assms(1)] BOND_SLOT_CAP_def)
  next
    case False
    then have l: "length slots = unat (bond_slot_count cfg)" using assms(3) by (simp add: table_ok_def)
    then have "slots \<noteq> []" using bond_slot_count_bounds(1)[of cfg] by auto
    then show thesis
      using evict None new l assms(4) bond_slot_count_bounds(3)[of cfg] by (simp add: store_bond_def)
  qed
qed

lemma slots_packed_append:
  "slots_packed slots \<Longrightarrow> slots_packed (slots @ [(i, of_nat (length slots))])"
  by (simp add: slots_packed_def)

lemma slots_packed_update0:
  assumes "slots_packed slots" "slots \<noteq> []"
  shows "slots_packed (slots[0 := (i, 0)])"
proof (unfold slots_packed_def, rule nth_equalityI)
  fix n assume "n < length (map snd (slots[0 := (i, 0)]))"
  then show "map snd (slots[0 := (i, 0)]) ! n = map of_nat [0..<length (slots[0 := (i, 0)])] ! n"
    using slots_packed_nth[OF assms(1), of n] by (cases n) simp_all
qed simp

lemma table_ok_store:
  assumes "hvec_ok BOND_SLOT_CAP hv" "host_ok h" "table_ok cfg slots" "on_bond_store (cfg_callbacks cfg)"
  shows "table_ok cfg (snd (store_bond bt h hv cfg bond slots))"
  using assms(3)
  by (cases rule: store_bond_cases[OF assms, of bond bt])
    (auto simp: table_ok_def slots_packed_append slots_packed_update0)

text \<open>The slot a bond is stored in is the one the table has for it, and no other identity
  keeps that slot.\<close>

lemma store_bond_target:
  assumes "hvec_ok BOND_SLOT_CAP hv" "host_ok h" "table_ok cfg slots" "on_bond_store (cfg_callbacks cfg)"
  shows "\<exists>k. fst (store_bond bt h hv cfg bond slots) = [(OnBondStore k (Some (serialize_bond bt bond)), cfg_user cfg)]
     \<and> (bond_identity bond, k) \<in> set (snd (store_bond bt h hv cfg bond slots))
     \<and> k < bond_slot_count cfg
     \<and> (\<forall>e \<in> set (snd (store_bond bt h hv cfg bond slots)). snd e = k \<longrightarrow> fst e = bond_identity bond)
     \<and> (\<forall>e \<in> set (snd (store_bond bt h hv cfg bond slots)). snd e \<noteq> k \<longrightarrow> e \<in> set slots)"
proof -
  let ?new = "snd (store_bond bt h hv cfg bond slots)"
  have dist: "slots_distinct ?new" using table_ok_store[OF assms] by (rule table_ok_distinct)
  have uniq: "fst e = bond_identity bond" if "(bond_identity bond, k) \<in> set ?new" "e \<in> set ?new" "snd e = k" for e k
    using that dist inj_onD[of snd "set ?new" "(bond_identity bond, k)" e]
    by (auto simp: slots_distinct_def distinct_map) (metis fst_conv)
  have lt: "k < bond_slot_count cfg" if "(i, k) \<in> set ?new" for i k
    using table_ok_slot_less[OF table_ok_store[OF assms] that] .
  have "\<exists>k. fst (store_bond bt h hv cfg bond slots) = [(OnBondStore k (Some (serialize_bond bt bond)), cfg_user cfg)]
     \<and> (bond_identity bond, k) \<in> set ?new \<and> (\<forall>e \<in> set ?new. snd e \<noteq> k \<longrightarrow> e \<in> set slots)"
  proof (rule store_bond_cases[OF assms, of bond bt])
    assume evict: "slots \<noteq> []" "store_bond bt h hv cfg bond slots =
         ([(OnBondStore 0 (Some (serialize_bond bt bond)), cfg_user cfg)], slots[0 := (bond_identity bond, 0)])"
    then have "set (slots[0 := (bond_identity bond, 0)]) \<subseteq> insert (bond_identity bond, 0) (set slots)"
      by (intro set_update_subset_insert)
    then show ?thesis using evict set_update_memI[of 0 slots "(bond_identity bond, 0)"] by (intro exI[of _ 0]) auto
  qed (auto 0 3)
  then show ?thesis using uniq lt by blast
qed

lemma db_matches_store:
  assumes "hvec_ok BOND_SLOT_CAP hv" "host_ok h" "table_ok cfg slots" "on_bond_store (cfg_callbacks cfg)"
    and "bond_wf bond" "db_matches bt cfg slots db"
    and "store_bond bt h hv cfg bond slots = (ev, slots')"
  shows "db_matches bt cfg slots' (db_write ev db)"
proof -
  obtain k where k: "ev = [(OnBondStore k (Some (serialize_bond bt bond)), cfg_user cfg)]"
      "(bond_identity bond, k) \<in> set slots'"
      "\<forall>e \<in> set slots'. snd e = k \<longrightarrow> fst e = bond_identity bond"
      "\<forall>e \<in> set slots'. snd e \<noteq> k \<longrightarrow> e \<in> set slots"
    using store_bond_target[OF assms(1-4), of bt bond] assms(7) by auto
  have db: "db_write ev db = db(k := Some (serialize_bond bt bond))" using k(1) by simp
  have sub: "snd ` set slots \<subseteq> snd ` set slots'"
  proof (rule store_bond_cases[OF assms(1-4), of bond bt])
    assume evict: "slots \<noteq> []" "store_bond bt h hv cfg bond slots =
         ([(OnBondStore 0 (Some (serialize_bond bt bond)), cfg_user cfg)], slots[0 := (bond_identity bond, 0)])"
    have "map snd slots' = map snd slots"
      using evict assms(3,7) table_ok_store[OF assms(1-4), of bt bond]
      by (simp add: table_ok_def slots_packed_def)
    then show ?thesis by (metis list.set_map order_refl)
  qed (use assms(7) in auto)
  show ?thesis
    unfolding db_matches_def db
  proof (intro conjI ballI allI impI)
    fix e assume e: "e \<in> set slots'"
    show "case e of (i, j) \<Rightarrow> \<exists>b :: ('a, 'c, 'b) bond. bond_wf b \<and> bond_identity b = i
        \<and> (db(k := Some (serialize_bond bt bond))) j = Some (serialize_bond bt b)"
    proof (cases "snd e = k")
      case True
      then show ?thesis using k(3) e assms(5) by (auto simp: case_prod_beta)
    next
      case False
      then have "e \<in> set slots" using k(4) e by blast
      then show ?thesis using False assms(6) by (auto simp: db_matches_def case_prod_beta)
    qed
  next
    fix j assume "j < bond_slot_count cfg" "j \<notin> snd ` set slots'"
    then show "(db(k := Some (serialize_bond bt bond))) j = None"
      using k(2) sub assms(6) by (force simp: db_matches_def)
  qed
qed

section \<open>Reloading\<close>

lemma loaded_bond_db:
  assumes "bt_ok bt" "host_ok h"
  shows "db k = None \<Longrightarrow> loaded_bond bt h (db_load db) k = None"
    and "bond_wf b \<Longrightarrow> db k = Some (serialize_bond bt b) \<Longrightarrow> loaded_bond bt h (db_load db) k = Some b"
proof -
  show "loaded_bond bt h (db_load db) k = None" if "db k = None"
    using that by (simp add: loaded_bond_def db_load_def)
  show "loaded_bond bt h (db_load db) k = Some b" if "bond_wf b" "db k = Some (serialize_bond bt b)"
    using that bond_blob_restored[OF assms that(1)]
    by (simp add: loaded_bond_def db_load_def BOND_BLOB_LEN_def)
qed

lemma concat_singletons: "concat (map (\<lambda>j. [f j]) xs) = map f xs"
  by (induction xs) simp_all

lemma reload_table:
  assumes "hvec_ok BOND_SLOT_CAP hv" "bt_ok bt" "host_ok h" "\<forall>b st. fst (add_bond_information h b st)"
    and "table_ok cfg slots" "db_matches bt cfg slots db"
    and "on_bond_load (cfg_callbacks cfg) = Some (db_load db)"
  shows "snd (snd (restore_bonds bt h hv cfg (st, []))) = slots"
proof -
  let ?c = "unat (bond_slot_count cfg)" and ?n = "length slots"
  let ?F = "\<lambda>k. map (\<lambda>b. (bond_identity b, k)) (opt_list (loaded_bond bt h (db_load db) k))"
  have n: "?n \<le> ?c" "?c \<le> 4" using assms(5) bond_slot_count_bounds(2)[of cfg] by (simp_all add: table_ok_def)
  have packed: "slots_packed slots" using assms(5) by (simp add: table_ok_def)
  have in_table: "?F (of_nat j) = [slots ! j]" if "j < ?n" for j
  proof -
    have sl: "slots ! j = (fst (slots ! j), of_nat j)" using slots_packed_nth[OF packed that] by (simp add: prod_eq_iff)
    then have "(fst (slots ! j), of_nat j) \<in> set slots" using that nth_mem by metis
    then obtain b :: "('a, 'c, 'b) bond" where "bond_wf b" "bond_identity b = fst (slots ! j)"
        "db (of_nat j) = Some (serialize_bond bt b)"
      using assms(6) unfolding db_matches_def by blast
    then show ?thesis using loaded_bond_db(2)[OF assms(2,3)] sl by simp
  qed
  have off_table: "?F (of_nat j) = []" if "?n \<le> j" "j < ?c" for j
  proof -
    have "(of_nat j :: u8) \<notin> snd ` set slots"
    proof
      assume "(of_nat j :: u8) \<in> snd ` set slots"
      then obtain m where "m < ?n" "(of_nat j :: u8) = of_nat m"
        using slots_packed_slot[OF packed] by fastforce
      then have "unat (of_nat j :: u8) = unat (of_nat m :: u8)" by simp
      then show False using that n \<open>m < ?n\<close> by (simp add: unat_slot)
    qed
    moreover have "(of_nat j :: u8) < bond_slot_count cfg" using that n by (simp add: word_less_nat_alt unat_slot)
    ultimately have "db (of_nat j) = None" using assms(6) by (simp add: db_matches_def)
    then show ?thesis using loaded_bond_db(1)[OF assms(2,3)] by simp
  qed
  have split: "[0..<?c] = [0..<?n] @ [?n..<?c]" using n(1) by (metis le0 le_add_diff_inverse upt_add_eq_append)
  have "concat (map ?F (slot_range (bond_slot_count cfg))) =
      concat (map (\<lambda>j. ?F (of_nat j)) [0..<?n]) @ concat (map (\<lambda>j. ?F (of_nat j)) [?n..<?c])"
    by (simp add: slot_range_def split comp_def)
  also have "concat (map (\<lambda>j. ?F (of_nat j)) [0..<?n]) = concat (map (\<lambda>j. [slots ! j]) [0..<?n])"
    by (intro arg_cong[where f = concat] map_cong) (simp_all add: in_table)
  also have "\<dots> = slots" by (simp only: concat_singletons map_nth)
  also have "concat (map (\<lambda>j. ?F (of_nat j)) [?n..<?c]) = []"
    using off_table by simp
  finally have "concat (map ?F (slot_range (bond_slot_count cfg))) = slots" by simp
  then show ?thesis
    using restore_loop_accepting[OF assms(1) _ assms(4), of "[]" "slot_range (bond_slot_count cfg)" bt cfg "db_load db" st]
      n(2) assms(7)
    by (simp add: restore_bonds_def slot_range_def BOND_SLOT_CAP_def)
qed

section \<open>Sessions\<close>

text \<open>The bonds of a session stored one after the other.\<close>

primrec store_all ::
  "('k, 'l, 'i) bt_ops \<Rightarrow> ('k, 'l, 'i, 'st) host_ops \<Rightarrow> (('k, 'i) identity \<times> u8) hvec \<Rightarrow> RuntimeCfg \<Rightarrow>
     ('k, 'l, 'i) bond list \<Rightarrow> ('k, 'i) slot_table \<times> storage \<Rightarrow> ('k, 'i) slot_table \<times> storage" where
  "store_all bt h hv cfg [] s = s"
| "store_all bt h hv cfg (b # bs) s =
     (let (ev, slots) = store_bond bt h hv cfg b (fst s)
      in store_all bt h hv cfg bs (slots, db_write ev (snd s)))"

definition next_session :: "RuntimeCfg \<Rightarrow> storage \<Rightarrow> RuntimeCfg" where
  "next_session cfg db = cfg\<lparr>cfg_callbacks := (cfg_callbacks cfg)\<lparr>on_bond_load := Some (db_load db)\<rparr>\<rparr>"

lemma next_session_simps [simp]:
  "bond_slot_count (next_session cfg db) = bond_slot_count cfg"
  "on_bond_load (cfg_callbacks (next_session cfg db)) = Some (db_load db)"
  by (simp_all add: next_session_def bond_slot_count_def)

lemma store_all_inv:
  assumes "hvec_ok BOND_SLOT_CAP hv" "host_ok h" "on_bond_store (cfg_callbacks cfg)"
    and "table_ok cfg (fst s)" "db_matches bt cfg (fst s) (snd s)" "\<forall>b \<in> set bonds. bond_wf b"
  shows "table_ok cfg (fst (store_all bt h hv cfg bonds s))
     \<and> db_matches bt cfg (fst (store_all bt h hv cfg bonds s)) (snd (store_all bt h hv cfg bonds s))"
  using assms(4-6)
proof (induction bonds arbitrary: s)
  case (Cons b bs)
  obtain ev slots' where st: "store_bond bt h hv cfg b (fst s) = (ev, slots')" by fastforce
  have "table_ok cfg slots'" using table_ok_store[OF assms(1,2) Cons.prems(1) assms(3), of bt b] st by simp
  moreover have "db_matches bt cfg slots' (db_write ev (snd s))"
    using db_matches_store[OF assms(1,2) Cons.prems(1) assms(3) _ Cons.prems(2) st] Cons.prems(3) by simp
  ultimately show ?case using Cons.IH[of "(slots', db_write ev (snd s))"] Cons.prems(3) st by simp
qed simp

lemma table_ok_empty: "table_ok cfg []" "db_matches bt cfg [] Map.empty"
  by (simp_all add: table_ok_def slots_packed_def db_matches_def)

lemma store_all_append:
  "store_all bt h hv cfg (xs @ ys) s = store_all bt h hv cfg ys (store_all bt h hv cfg xs s)"
  by (induction xs arbitrary: s) (simp_all add: case_prod_beta)

section \<open>Deleting\<close>

lemma find_slot_Some: "find (\<lambda>(_, slot). slot = index) slots = Some e \<Longrightarrow> e \<in> set slots \<and> snd e = index"
  by (induction slots) (auto split: if_splits)

lemma delete_bond_slot_table:
  assumes "hvec_ok BOND_SLOT_CAP hv" "\<forall>i st. fst (remove_bond_information h i st)"
  shows "snd (snd (snd (delete_bond_slot h hv cfg index (st, slots)))) = filter (\<lambda>(_, k). k \<noteq> index) slots"
proof (cases "find (\<lambda>(_, slot). slot = index) slots")
  case None
  then have "filter (\<lambda>(_, k). k \<noteq> index) slots = slots"
    by (auto simp: find_None_iff intro!: filter_True)
  then show ?thesis using None by (simp add: delete_bond_slot_def)
next
  case (Some e)
  obtain i k where e: "e = (i, k)" by (cases e)
  have "fst (remove_bond_information h i st)" using assms(2) by simp
  then show ?thesis using Some e by (simp add: delete_bond_slot_def hv_retain[OF assms(1)] case_prod_beta)
qed

lemma db_write_append [simp]: "db_write (xs @ ys) db = db_write ys (db_write xs db)"
  by (induction xs arbitrary: db) simp_all

lemma delete_bond_slot_db:
  assumes "on_bond_store (cfg_callbacks cfg)" "\<forall>i st. fst (remove_bond_information h i st)"
  shows "db_write (fst (snd (delete_bond_slot h hv cfg index s))) db = db(index := None)"
proof (cases "find (\<lambda>(_, slot). slot = index) (snd s)")
  case None
  then show ?thesis
    using assms(1) by (simp add: delete_bond_slot_def clear_bond_slot_def complete_bond_delete_def emit_def case_prod_beta)
next
  case (Some e)
  obtain i k where e: "e = (i, k)" by (cases e)
  have "fst (remove_bond_information h i (fst s))" using assms(2) by simp
  then show ?thesis
    using Some e assms(1)
    by (simp add: delete_bond_slot_def clear_bond_slot_def complete_bond_delete_def emit_def case_prod_beta)
qed

lemma delete_slots_effect:
  assumes "hvec_ok BOND_SLOT_CAP hv" "\<forall>i st. fst (remove_bond_information h i st)"
    and "on_bond_store (cfg_callbacks cfg)"
  shows "snd (snd (delete_slots h hv cfg is s)) = filter (\<lambda>(_, k). k \<notin> set is) (snd s)
     \<and> db_write (fst (delete_slots h hv cfg is s)) db = (\<lambda>k. if k \<in> set is then None else db k)"
proof (induction "is" arbitrary: s db)
  case Nil
  then show ?case by simp
next
  case (Cons i "is")
  obtain ok e1 st1 sl1 where d: "delete_bond_slot h hv cfg i s = (ok, e1, st1, sl1)" by (metis prod_cases4)
  obtain e2 s2 where r: "delete_slots h hv cfg is (st1, sl1) = (e2, s2)" by (metis surj_pair)
  have 1: "sl1 = filter (\<lambda>(_, k). k \<noteq> i) (snd s)"
    using delete_bond_slot_table[OF assms(1,2), of cfg i "fst s" "snd s"] d by simp
  have 2: "db_write e1 db = db(i := None)"
    using delete_bond_slot_db[OF assms(3,2), of hv i s db] d by simp
  have "snd s2 = filter (\<lambda>(_, k). k \<notin> set is) sl1"
    and 3: "db_write e2 (db(i := None)) = (\<lambda>k. if k \<in> set is then None else (db(i := None)) k)"
    using Cons.IH[of "(st1, sl1)" "db(i := None)"] unfolding r fst_conv snd_conv by blast+
  then have 4: "snd s2 = filter (\<lambda>(_, k). k \<notin> set (i # is)) (snd s)"
    using 1 by (auto intro!: filter_cong)
  have "db_write (e1 @ e2) db = (\<lambda>k. if k \<in> set (i # is) then None else db k)"
    unfolding db_write_append 2 3 by auto
  then show ?case using 4 d r by simp
qed

section \<open>Properties\<close>


definition store_cfg :: RuntimeCfg where
  "store_cfg = (flatten_config zero_config)\<lparr>cfg_callbacks := no_callbacks\<lparr>on_bond_store := True\<rparr>\<rparr>"

lemma store_cfg_simps [simp]:
  "on_bond_store (cfg_callbacks store_cfg)" "bond_slot_count store_cfg = 4"
  by (simp_all add: store_cfg_def bond_slot_count_def BOND_SLOT_CAP_def flatten_config_def zero_config_def)

definition other_bond :: "u8 \<Rightarrow> (u8, 128 word, 128 word) bond" where
  "other_bond n = demo_bond\<lparr>bond_identity := \<lparr>id_addr = \<lparr>addr_kind = 0, addr_raw = replicate 6 n\<rparr>, id_irk = None\<rparr>\<rparr>"

lemma bond_wf_other [simp]: "bond_wf (other_bond n)"
  by (simp add: bond_wf_def other_bond_def demo_bond_def)

lemma host_std_accepts: "\<forall>b st. fst (add_bond_information host_std b st)"
  by (simp add: host_std_def)


text \<open>Result (store_bond_never_overwrites). While the slots are used without holes, storing a bond
  makes one store event, into a slot the application offers; the table then says that this
  slot holds this identity and no other, and every other slot keeps its entry. A bond of a
  known identity goes back to its own slot.\<close>

theorem store_bond_never_overwrites:
  assumes "hvec_ok BOND_SLOT_CAP hv" "host_ok h" "table_ok cfg slots" "on_bond_store (cfg_callbacks cfg)"
    and "store_bond bt h hv cfg bond slots = (ev, slots')"
  shows "\<exists>k < bond_slot_count cfg. ev = [(OnBondStore k (Some (serialize_bond bt bond)), cfg_user cfg)]
     \<and> (bond_identity bond, k) \<in> set slots' \<and> table_ok cfg slots'
     \<and> (\<forall>e \<in> set slots'. snd e = k \<longrightarrow> fst e = bond_identity bond)
     \<and> (\<forall>e \<in> set slots'. snd e \<noteq> k \<longrightarrow> e \<in> set slots)
     \<and> (\<forall>k'. (bond_identity bond, k') \<in> set slots \<longrightarrow> slots' = slots)"
proof -
  obtain k where "ev = [(OnBondStore k (Some (serialize_bond bt bond)), cfg_user cfg)]"
      "(bond_identity bond, k) \<in> set slots'" "k < bond_slot_count cfg"
      "\<forall>e \<in> set slots'. snd e = k \<longrightarrow> fst e = bond_identity bond"
      "\<forall>e \<in> set slots'. snd e \<noteq> k \<longrightarrow> e \<in> set slots"
    using store_bond_target[OF assms(1-4), of bt bond] assms(5) by auto
  moreover have "table_ok cfg slots'" using table_ok_store[OF assms(1-4), of bt bond] assms(5) by simp
  moreover have "slots' = slots" if "(bond_identity bond, k') \<in> set slots" for k'
    by (rule store_bond_cases[OF assms(1-4), of bond bt]) (use that assms(5) in force)+
  ultimately show ?thesis by blast
qed

theorem store_bond_never_overwrites_witness:
  "\<exists>k < 4. fst (store_bond bt_std host_std (hvec_std 4) store_cfg demo_bond [(bond_identity (other_bond 1), 0)])
      = [(OnBondStore k (Some (serialize_bond bt_std demo_bond)), cfg_user store_cfg)]"
proof -
  have hv: "hvec_ok BOND_SLOT_CAP (hvec_std 4)" using hvec_ok_std[of 4] by (simp add: BOND_SLOT_CAP_def)
  have t: "table_ok store_cfg [(bond_identity (other_bond 1), 0)]"
    by (simp add: table_ok_def slots_packed_def)
  obtain ev sl where r: "store_bond bt_std host_std (hvec_std 4) store_cfg demo_bond [(bond_identity (other_bond 1), 0)] = (ev, sl)"
    by fastforce
  from store_bond_never_overwrites[OF hv host_ok_std t _ r] show ?thesis using r by auto
qed

text \<open>Result (restore_bonds_slots). Whatever the storage holds and the host accepts, restoring asks
  for each slot and fills the table with at most four entries in distinct slots the
  application offers, each the identity of the bond that this slot's blob decodes to; invalid
  blobs are skipped.\<close>

theorem restore_bonds_slots:
  assumes "hvec_ok BOND_SLOT_CAP hv" "on_bond_load (cfg_callbacks cfg) = Some load"
    and "restore_bonds bt h hv cfg (st, []) = (ev, st', slots)"
  shows "slots_inv cfg slots \<and> slots_distinct slots
     \<and> (\<forall>(i, k) \<in> set slots. map_option bond_identity (loaded_bond bt h load k) = Some i)"
proof -
  have l: "length (slot_range (bond_slot_count cfg)) \<le> BOND_SLOT_CAP"
    using bond_slot_count_bounds(2)[of cfg] by (simp add: slot_range_def BOND_SLOT_CAP_def)
  obtain add where "slots = add" "length add \<le> length (slot_range (bond_slot_count cfg))" "distinct (map snd add)"
      "\<forall>(i, k) \<in> set add. k \<in> set (slot_range (bond_slot_count cfg))
          \<and> map_option bond_identity (loaded_bond bt h load k) = Some i"
    using restore_loop_slots[OF assms(1) _ slot_range_distinct, of "[]" cfg bt h cfg load st] l assms(2,3)
    by (auto simp: restore_bonds_def)
  then show ?thesis
    using l by (auto simp: slots_inv_def slots_distinct_def slot_range_less)
qed

theorem restore_bonds_slots_witness:
  "slots_distinct (snd (snd (restore_bonds bt_std host_std (hvec_std 4)
     (next_session store_cfg (\<lambda>k. Some (serialize_bond bt_std demo_bond))) ([], []))))"
proof -
  have hv: "hvec_ok BOND_SLOT_CAP (hvec_std 4)" using hvec_ok_std[of 4] by (simp add: BOND_SLOT_CAP_def)
  obtain ev st sl where r: "restore_bonds bt_std host_std (hvec_std 4)
      (next_session store_cfg (\<lambda>k. Some (serialize_bond bt_std demo_bond))) ([], []) = (ev, st, sl)"
    by (metis prod_cases3)
  from restore_bonds_slots[OF hv _ r] show ?thesis using r by simp
qed

text \<open>Result (delete_bond_slot_effect). Deleting a bond reports its completion exactly once, with
  status 0 on success; on success no entry for that slot is left, every other entry stays and
  the storage of the slot is cleared. A slot that is not in the table reports failure and
  leaves the host alone, but its storage is cleared all the same.\<close>

theorem delete_bond_slot_effect:
  assumes "hvec_ok BOND_SLOT_CAP hv" "on_bond_store (cfg_callbacks cfg)" "on_bond_deleted (cfg_callbacks cfg)"
    and "delete_bond_slot h hv cfg index (st, slots) = (ok, ev, st', slots')"
  shows "filter (\<lambda>e. \<exists>k r. fst e = OnBondDeleted k r) ev = [(OnBondDeleted index (if ok then 0 else -1), cfg_user cfg)]
     \<and> (ok \<longrightarrow> set slots' = {e \<in> set slots. snd e \<noteq> index} \<and> db_write ev db = db(index := None))
     \<and> (\<not> ok \<longrightarrow> slots' = slots)
     \<and> (index \<notin> snd ` set slots \<longrightarrow> \<not> ok \<and> st' = st \<and> db_write ev db = db(index := None))"
proof (cases "find (\<lambda>(_, slot). slot = index) slots")
  case None
  then show ?thesis
    using assms by (auto simp: delete_bond_slot_def clear_bond_slot_def complete_bond_delete_def emit_def)
next
  case (Some e)
  obtain i k where e: "e = (i, k)" by (cases e)
  have "index \<in> snd ` set slots" using find_slot_Some[OF Some] by auto
  then show ?thesis
    using Some e assms
    by (auto simp: delete_bond_slot_def clear_bond_slot_def complete_bond_delete_def emit_def
        hv_retain[OF assms(1)] split: prod.splits if_splits)
qed

definition admin_cfg :: RuntimeCfg where
  "admin_cfg = (flatten_config zero_config)\<lparr>cfg_callbacks :=
     no_callbacks\<lparr>on_bond_store := True, on_bond_deleted := True, on_bond := True\<rparr>\<rparr>"

lemma admin_cfg_simps [simp]:
  "on_bond_store (cfg_callbacks admin_cfg)" "on_bond_deleted (cfg_callbacks admin_cfg)"
  "on_bond (cfg_callbacks admin_cfg)" "bond_slot_count admin_cfg = 4" "cfg_user admin_cfg = 0"
  by (simp_all add: admin_cfg_def bond_slot_count_def BOND_SLOT_CAP_def flatten_config_def zero_config_def)

lemma hvec_std_slots: "hvec_ok BOND_SLOT_CAP (hvec_std 4)"
  using hvec_ok_std[of 4] by (simp add: BOND_SLOT_CAP_def)

theorem delete_bond_slot_effect_witness:
  "\<exists>ok ev st' slots'. delete_bond_slot host_std (hvec_std 4) admin_cfg 2 ([], [(bond_identity demo_bond, 0)]) = (ok, ev, st', slots')
     \<and> \<not> ok \<and> slots' = [(bond_identity demo_bond, 0)]
     \<and> filter (\<lambda>e. \<exists>k r. fst e = OnBondDeleted k r) ev = [(OnBondDeleted 2 (-1), 0)]"
proof -
  obtain ok ev st' slots' where
    d: "delete_bond_slot host_std (hvec_std 4) admin_cfg 2 ([], [(bond_identity demo_bond, 0)]) = (ok, ev, st', slots')"
    by (metis prod_cases4)
  from delete_bond_slot_effect[OF hvec_std_slots _ _ d] show ?thesis using d by fastforce
qed

text \<open>Result (delete_all_clears). When the host removes what it is asked to, deleting all bonds
  leaves an empty table and an empty storage, whatever the table and the storage were.\<close>

theorem delete_all_clears:
  assumes "hvec_ok BOND_SLOT_CAP hv" "\<forall>i st. fst (remove_bond_information h i st)"
    and "on_bond_store (cfg_callbacks cfg)" "slots_inv cfg slots" "\<not> UNLOAD_REQ sh" "BOND_CMD sh = BCMD_NONE"
    and "bond_admin_turn bt h hv cfg (st, slots) (snd (runtime_ble_bond_delete_all sh)) = (ev, (st', slots'), sh', done)"
  shows "slots' = [] \<and> (\<forall>k < bond_slot_count cfg. db_write ev db k = None) \<and> BOND_CMD sh' = BCMD_NONE \<and> \<not> done"
proof -
  let ?is = "slot_range (bond_slot_count cfg)"
  let ?sh = "snd (runtime_ble_bond_delete_all sh)"
  have f: "bond_fetch ?sh = (Some ReqDeleteAll, ?sh\<lparr>BOND_CMD := BCMD_NONE\<rparr>)" "\<not> UNLOAD_REQ ?sh"
    using assms(5,6) by (simp_all add: runtime_ble_bond_delete_all_def bond_admin_cmd_def bond_fetch_def
        bond_decode_def bcmd_defs)
  have r: "delete_slots h hv cfg ?is (st, slots) = (ev, st', slots')" "sh' = ?sh\<lparr>BOND_CMD := BCMD_NONE\<rparr>" "\<not> done"
    using assms(7) f by (auto simp: bond_admin_turn_def split: prod.splits)
  have "snd (snd (delete_slots h hv cfg ?is (st, slots))) = filter (\<lambda>(_, k). k \<notin> set ?is) slots"
    "db_write (fst (delete_slots h hv cfg ?is (st, slots))) db = (\<lambda>k. if k \<in> set ?is then None else db k)"
    using delete_slots_effect[OF assms(1-3), of ?is "(st, slots)" db] by simp_all
  moreover have "filter (\<lambda>(_, k). k \<notin> set ?is) slots = []"
    using assms(4) by (auto simp: slots_inv_def slot_range_less filter_empty_conv)
  ultimately show ?thesis using r by (auto simp: slot_range_less)
qed

definition forgetful_host :: "(u8, 128 word, 128 word, nat) host_ops" where
  "forgetful_host = \<lparr>id_eq = (=), bond_new = bond_new host_std, add_bond_information = (\<lambda>_ n. (True, Suc n)),
     remove_bond_information = (\<lambda>_ n. (True, n - 1)), bond_information = (\<lambda>_. []),
     set_io_capabilities = (\<lambda>_ n. n)\<rparr>"

theorem delete_all_clears_witness:
  "\<exists>ev st' slots' sh' done.
     bond_admin_turn bt_std forgetful_host (hvec_std 4) admin_cfg (1, [(bond_identity demo_bond, 0)])
       (snd (runtime_ble_bond_delete_all shared_init)) = (ev, (st', slots'), sh', done) \<and> slots' = []"
proof -
  obtain ev st' slots' sh' dn where d: "bond_admin_turn bt_std forgetful_host (hvec_std 4) admin_cfg
      (1, [(bond_identity demo_bond, 0)]) (snd (runtime_ble_bond_delete_all shared_init)) = (ev, (st', slots'), sh', dn)"
    by (metis surj_pair)
  have "slots_inv admin_cfg [(bond_identity demo_bond, 0)]"
    by (simp add: slots_inv_def BOND_SLOT_CAP_def)
  then have "slots' = []"
    using delete_all_clears[OF hvec_std_slots _ _ _ _ _ d] by (simp add: forgetful_host_def shared_init_def)
  then show ?thesis using d by blast
qed



text \<open>Result (enumerated_kind_is_not_api_kind). The enumeration reports each bond once, with its
  slot, but with the raw Bluetooth address kind: for a public and for a random address it is
  the opposite of the \<open>RUNTIME_BLE_ADDR\<close> value the header promises and every other callback
  reports.\<close>

theorem enumerated_kind_is_not_api_kind:
  assumes "bt_ok bt" "on_bond (cfg_callbacks cfg)" "addr_kind (id_addr (bond_identity b)) \<in> {ak_public bt, ak_random bt}"
    and "bond_information h st = [b]"
  shows "\<exists>k lv kl fl. emit_bonds bt h cfg st slots =
           [(OnBond (bond_slot_for h slots (bond_identity b)) (addr_raw (id_addr (bond_identity b))) k lv kl fl, cfg_user cfg)]
         \<and> k \<noteq> addr_kind_to_c bt (addr_kind (id_addr (bond_identity b)))
         \<and> c_addr_kind bt k \<noteq> addr_kind (id_addr (bond_identity b))"
proof -
  let ?a = "addr_kind (id_addr (bond_identity b))"
  have "ak_raw bt ?a \<noteq> addr_kind_to_c bt ?a \<and> c_addr_kind bt (ak_raw bt ?a) \<noteq> ?a"
  proof (cases "?a = ak_public bt")
    case True
    then show ?thesis
      using ak_public_neq_random[OF assms(1)] bt_okD(1)[OF assms(1)]
      by (simp add: addr_kind_to_c_def c_addr_kind_def RTBLE_ADDR_PUBLIC_def)
  next
    case False
    then have "?a = ak_random bt" using assms(3) by simp
    then show ?thesis
      using ak_public_neq_random[OF assms(1)] bt_okD(2)[OF assms(1)]
      by (simp add: addr_kind_to_c_def c_addr_kind_def RTBLE_ADDR_PUBLIC_def RTBLE_ADDR_RANDOM_def)
  qed
  then show ?thesis using assms(2,4) by (simp add: emit_bonds_def)
qed

theorem enumerated_kind_is_not_api_kind_witness:
  "\<exists>k lv kl fl. emit_bonds bt_std host_std admin_cfg [demo_bond] [] =
       [(OnBond 0xff [1, 2, 3, 4, 5, 6] k lv kl fl, 0)] \<and> k \<noteq> RTBLE_ADDR_RANDOM"
proof -
  have k: "addr_kind (id_addr (bond_identity demo_bond)) \<in> {ak_public bt_std, ak_random bt_std}"
    by (simp add: demo_bond_def bt_std_def)
  have b: "bond_information host_std [demo_bond] = [demo_bond]" by (simp add: host_std_def)
  have "addr_kind_to_c bt_std 1 = RTBLE_ADDR_RANDOM" by (simp add: addr_kind_to_c_def bt_std_def)
  then show ?thesis
    using enumerated_kind_is_not_api_kind[OF bt_ok_std _ k b, of admin_cfg "[]"]
    by (auto simp: bond_slot_for_def find_identity_def demo_bond_def)
qed

end
