(* ===== verification/Session.thy ===== *)
theory Session
  imports Peripheral CentralLoop BondStore
begin

text \<open>
  A session's cooperative tasks together (\<^verbatim>\<open>serve_session\<close> and \<^verbatim>\<open>serve_central\<close> of
  \<^verbatim>\<open>radio.rs\<close>): the peripheral role, the central role with the events, link commands and
  channel of its connection (\<^verbatim>\<open>central_connection_events\<close>, \<^verbatim>\<open>run_central_conn\<close>), and the
  bond administration, all over the same statics, slot table and host bonds. A step is a turn
  of one task; which one is not determined, as in the executor's \<^verbatim>\<open>select\<close>.
\<close>

section \<open>The state of a session\<close>

record ('k, 'l, 'i, 'st) senv =
  se_env :: "('k, 'l, 'i, 'st) env"
  se_store :: "(u16 \<times> u16 option) hvec"
  se_central :: central_host

definition senv_ok :: "('k, 'l, 'i, 'st) senv \<Rightarrow> bool" where
  "senv_ok e \<longleftrightarrow> env_ok (se_env e) \<and> ch_params_valid (se_central e) (ch_default_params (se_central e))"

text \<open>The roles that run, what the central's connection remembers, and the shared state.\<close>

record ('k, 'i, 'st) sess =
  t_per :: "per_pc option"
  t_cen :: "'k central_pc option"
  t_mtu :: bool
  t_l2 :: bool
  t_sh :: shared
  t_st :: 'st
  t_sl :: "('k, 'i) slot_table"

datatype (plugins only: code size) 'k sess_out =
    SessPer "'k per_out"
  | SessCen "'k central_out"
  | SessConn conn_out
  | SessLink link_req
  | SessL2 l2_out
  | SessCb cb_event

definition cen_over :: "('k, 'i, 'st) sess \<Rightarrow> ('k, 'i, 'st) sess" where
  "cen_over c = c\<lparr>t_cen := Some (LoopTop False), t_mtu := False, t_l2 := False\<rparr>"

definition cen_disconnected :: "RuntimeCfg \<Rightarrow> 'k sess_out list" where
  "cen_disconnected cfg = map SessCen (ctl (emit (on_disconnected (cfg_callbacks cfg)) cfg (OnDisconnected 0)))"

definition cen_connected :: "('k, 'i, 'st) sess \<Rightarrow> bool" where
  "cen_connected c = (case t_cen c of None \<Rightarrow> False | Some q \<Rightarrow> is_connected q)"

definition per_connected_now :: "('k, 'i, 'st) sess \<Rightarrow> bool" where
  "per_connected_now c = (case t_per c of None \<Rightarrow> False | Some p \<Rightarrow> in_conn p)"

section \<open>Steps\<close>

inductive session_step ::
  "('k, 'l, 'i, 'st) senv \<Rightarrow> gatt \<Rightarrow> RuntimeCfg \<Rightarrow>
     ('k, 'i, 'st) sess \<Rightarrow> 'k sess_out list \<Rightarrow> ('k, 'i, 'st) sess \<Rightarrow> bool"
  for e g cfg where
  per_turn: "t_per c = Some p \<Longrightarrow>
    per_step (se_env e) g cfg (p, t_sh c, t_sl c) os (p', s', sl') \<Longrightarrow>
    session_step e g cfg c (map SessPer os) (c\<lparr>t_per := Some p', t_sh := s', t_sl := sl'\<rparr>)"
| cen_turn: "t_cen c = Some q \<Longrightarrow>
    central_step (e_f (se_env e)) (e_bt (se_env e)) (se_store e) (se_central e) cfg (q, t_sh c) os (q', s') \<Longrightarrow>
    session_step e g cfg c (map SessCen os)
      (c\<lparr>t_cen := Some q', t_sh := s', t_mtu := t_mtu c \<and> is_connected q', t_l2 := t_l2 c \<and> is_connected q'\<rparr>)"
| cen_event: "cen_connected c \<Longrightarrow>
    central_event (e_bt (se_env e)) (e_host (se_env e)) (e_slots (se_env e)) cfg ev (t_sl c) = (os, sl', False) \<Longrightarrow>
    session_step e g cfg c (map SessConn os) (c\<lparr>t_sl := sl'\<rparr>)"
| cen_link_lost: "cen_connected c \<Longrightarrow>
    central_event (e_bt (se_env e)) (e_host (se_env e)) (e_slots (se_env e)) cfg ev (t_sl c) = (os, sl', True) \<Longrightarrow>
    session_step e g cfg c (map SessConn os @ cen_disconnected cfg) (cen_over (c\<lparr>t_sl := sl'\<rparr>))"
| cen_link: "cen_connected c \<Longrightarrow> link_control_once cv cfg (t_sh c) = (os, s') \<Longrightarrow>
    session_step e g cfg c (map SessLink os) (c\<lparr>t_sh := s'\<rparr>)"
| cen_mtu: "cen_connected c \<Longrightarrow> \<not> t_mtu c \<Longrightarrow>
    session_step e g cfg c (map SessCb (emit_att_mtu cv cfg)) (c\<lparr>t_mtu := True\<rparr>)"
| cen_l2_opened: "cen_connected c \<Longrightarrow> has_l2cap (e_f (se_env e)) cfg \<Longrightarrow> \<not> t_l2 c \<Longrightarrow>
    l2cap_begin cfg (api_run (e_f (se_env e)) calls) (t_sh c) = (os, s') \<Longrightarrow>
    session_step e g cfg c (map SessL2 os) (c\<lparr>t_l2 := True, t_sh := s'\<rparr>)"
| cen_l2_failed: "cen_connected c \<Longrightarrow> has_l2cap (e_f (se_env e)) cfg \<Longrightarrow> \<not> t_l2 c \<Longrightarrow>
    session_step e g cfg c (map SessCb (log_str cfg ''[l2cap] create failed'') @ cen_disconnected cfg) (cen_over c)"
| cen_l2_turn: "cen_connected c \<Longrightarrow> t_l2 c \<Longrightarrow> \<not> l2_app ev \<Longrightarrow>
    l2cap_select (e_f (se_env e)) cfg [ev] (t_sh c) = (os, s', False) \<Longrightarrow>
    session_step e g cfg c (map SessL2 os) (c\<lparr>t_sh := s'\<rparr>)"
| cen_l2_over: "cen_connected c \<Longrightarrow> t_l2 c \<Longrightarrow> \<not> l2_app ev \<Longrightarrow>
    l2cap_select (e_f (se_env e)) cfg [ev] (t_sh c) = (os, s', True) \<Longrightarrow>
    session_step e g cfg c
      (map SessL2 os @ map SessCb (emit (on_l2cap_disconnected (cfg_callbacks cfg)) cfg OnL2capDisconnected)
         @ cen_disconnected cfg)
      (cen_over (c\<lparr>t_sh := s'\<rparr>))"
| bond_turn: "bond_admin_turn (e_bt (se_env e)) (e_host (se_env e)) (e_slots (se_env e)) cfg (t_st c, t_sl c) (t_sh c)
      = (evs, (st', sl'), s', False) \<Longrightarrow>
    session_step e g cfg c (map SessCb evs) (c\<lparr>t_st := st', t_sl := sl', t_sh := s'\<rparr>)"

text \<open>What ends the futures the session runs. \<^verbatim>\<open>serve_session\<close> selects over \<^verbatim>\<open>wait_unload\<close>;
  \<^verbatim>\<open>serve_central\<close> over its tasks, which return once an unload is requested, and over the
  host's runner, which returns when it fails.\<close>

definition session_ends :: "bool \<Rightarrow> ('k, 'i, 'st) sess \<Rightarrow> bool" where
  "session_ends runner_failed c \<longleftrightarrow> UNLOAD_REQ (t_sh c) \<or> (t_per c = None \<and> runner_failed)"

text \<open>Where \<^verbatim>\<open>serve_session\<close> (\<open>peripheral\<close>) and \<^verbatim>\<open>serve_central\<close> start, after
  \<^verbatim>\<open>restore_bonds\<close>.\<close>

definition session_start ::
  "('k, 'l, 'i, 'st) senv \<Rightarrow> bool \<Rightarrow> RuntimeCfg \<Rightarrow> shared \<Rightarrow> 'st \<Rightarrow> cb_event list \<times> ('k, 'i, 'st) sess" where
  "session_start e peripheral cfg s st =
     (let (evs, st', sl) = restore_bonds (e_bt (se_env e)) (e_host (se_env e)) (e_slots (se_env e)) cfg (st, [])
      in (evs, \<lparr>t_per = (if peripheral then Some AdvTop else None),
                t_cen = (if \<not> peripheral \<or> f_central (e_f (se_env e)) \<and> cfg_role cfg = 2
                         then Some (central_start cfg) else None),
                t_mtu = False, t_l2 = False, t_sh = s, t_st = st', t_sl = sl\<rparr>))"

section \<open>Invariants\<close>

fun sess_good :: "central_host \<Rightarrow> gatt \<Rightarrow> 'k sess_out \<Rightarrow> bool" where
  "sess_good ch g (SessPer o') = per_good g o'"
| "sess_good ch g (SessCen o') = out_ok ch o'"
| "sess_good ch g _ = True"

definition sess_inv :: "RuntimeCfg \<Rightarrow> ('k, 'i, 'st) sess \<Rightarrow> bool" where
  "sess_inv cfg c \<longleftrightarrow> shared_inv (t_sh c) \<and> slots_inv cfg (t_sl c)
     \<and> (case t_cen c of None \<Rightarrow> True | Some q \<Rightarrow> pc_ok cfg q)"

lemma sess_good_maps [simp]:
  "list_all (sess_good ch g) (map SessPer os) = list_all (per_good g) os"
  "list_all (sess_good ch g) (map SessCen cs) = list_all (out_ok ch) cs"
  "list_all (sess_good ch g) (map SessConn ns)" "list_all (sess_good ch g) (map SessLink ls)"
  "list_all (sess_good ch g) (map SessL2 l2)" "list_all (sess_good ch g) (map SessCb es)"
  "list_all (sess_good ch g) (cen_disconnected cfg)"
  by (simp_all add: list_all_iff cen_disconnected_def ctl_def)

lemma sess_inv_updates [simp]:
  "sess_inv cfg (c\<lparr>t_mtu := b\<rparr>) = sess_inv cfg c" "sess_inv cfg (c\<lparr>t_l2 := b\<rparr>) = sess_inv cfg c"
  by (simp_all add: sess_inv_def)

lemma sess_inv_sh: "sess_inv cfg c \<Longrightarrow> task_frame (t_sh c) s' \<Longrightarrow> sess_inv cfg (c\<lparr>t_sh := s'\<rparr>)"
  by (simp add: sess_inv_def task_frame_def)

lemma sess_inv_over: "sess_inv cfg c \<Longrightarrow> sess_inv cfg (cen_over c)"
  by (simp add: sess_inv_def cen_over_def)

lemma sess_inv_sl: "sess_inv cfg c \<Longrightarrow> slots_inv cfg sl \<Longrightarrow> sess_inv cfg (c\<lparr>t_sl := sl\<rparr>)"
  by (simp add: sess_inv_def)

text \<open>The other tasks' frames.\<close>

lemma frame_cmd_turns:
  "wait_idle_turn s = (r, s') \<Longrightarrow> task_frame s s'"
  "scan_turn cfg stop now s = (r2, es, s') \<Longrightarrow> task_frame s s'"
  "client_turn f hv p cfg (s, st) = (os, s', st') \<Longrightarrow> task_frame s s'"
  by (metis wait_idle_state frame_flags(4) task_frame_refl)
    (metis scan_turn_state client_turn_shared frame_flags(4) task_frame_refl)+

lemma frame_central:
  assumes "central_step f bt hv ch cfg c os c'"
  shows "task_frame (snd c) (snd c')"
  using assms by (cases rule: central_step.cases) (auto dest: frame_cmd_turns simp: frame_api)

lemma bond_turn_state:
  assumes "bond_admin_turn bt h hv cfg (st, sl) s = (evs, (st', sl'), s', ended)"
  shows "task_frame s s'"
    and "hvec_ok BOND_SLOT_CAP hv \<Longrightarrow> slots_inv cfg sl \<Longrightarrow> slots_inv cfg sl'"
proof -
  show "task_frame s s'"
    using assms
    by (auto simp: bond_admin_turn_def bond_fetch_def Let_def split: if_splits option.splits bond_request.splits prod.splits)
  have del: "slots_inv cfg sl \<Longrightarrow> slots_inv cfg (snd (snd (delete_slots h hv cfg is (st, sl))))"
    if "hvec_ok BOND_SLOT_CAP hv" for "is" st sl
  proof (induction "is" arbitrary: st sl)
    case (Cons i js)
    obtain b e1 st1 sl1 where d: "delete_bond_slot h hv cfg i (st, sl) = (b, e1, st1, sl1)" by (metis prod_cases4)
    have "slots_inv cfg sl1" using slots_inv_delete[OF that Cons.prems, of h i st] d by simp
    from Cons.IH[OF this, of st1] show ?case using d by (simp add: case_prod_beta)
  qed simp
  have del1: "slots_inv cfg sl1" if "delete_bond_slot h hv cfg i (st, sl) = (b, e1, st1, sl1)"
      "hvec_ok BOND_SLOT_CAP hv" "slots_inv cfg sl" for i b e1 st1 sl1
    using slots_inv_delete[OF that(2,3), of h i st] that(1) by simp
  show "slots_inv cfg sl'" if hv: "hvec_ok BOND_SLOT_CAP hv" and inv: "slots_inv cfg sl"
    using assms inv hv del1 del[OF hv inv, of "slot_range (bond_slot_count cfg)" st]
    by (auto simp: bond_admin_turn_def Let_def split: if_splits option.splits bond_request.splits prod.splits)
qed

lemma session_step_inv:
  assumes "session_step e g cfg c os c'" "senv_ok e" "sess_inv cfg c"
  shows "sess_inv cfg c' \<and> list_all (sess_good (se_central e) g) os"
proof -
  have env: "env_ok (se_env e)" "hvec_ok BOND_SLOT_CAP (e_slots (se_env e))" "host_ok (e_host (se_env e))"
    and ch: "ch_params_valid (se_central e) (ch_default_params (se_central e))"
    using assms(2) by (simp_all add: senv_ok_def env_ok_def)
  have inv: "shared_inv (t_sh c)" "slots_inv cfg (t_sl c)" using assms(3) by (simp_all add: sess_inv_def)
  have ev: "slots_inv cfg (fst (snd (central_event (e_bt (se_env e)) (e_host (se_env e)) (e_slots (se_env e)) cfg x (t_sl c))))" for x
    using event_slots[OF env(2,3) inv(2), of "e_bt (se_env e)" x] by (simp add: handlers_agree)
  show ?thesis
    using assms(1)
  proof (cases rule: session_step.cases)
    case (per_turn p os' p' s' sl')
    then show ?thesis
      using per_step_good[OF per_turn(4) env(1)] per_step_frame[OF per_turn(4)] inv assms(3)
      by (simp add: sess_inv_def task_frame_def)
  next
    case (cen_turn q os' q' s')
    have "pc_ok cfg q" using assms(3) cen_turn(3) by (simp add: sess_inv_def)
    then show ?thesis
      using step_inv[OF cen_turn(4) _ _ ch] cen_turn(1,2) inv by (simp add: sess_inv_def)
  next
    case (cen_event x os' sl')
    then show ?thesis using ev[of x] sess_inv_sl[OF assms(3)] by simp
  next
    case (cen_link_lost x os' sl')
    then show ?thesis using ev[of x] sess_inv_over[OF sess_inv_sl[OF assms(3)]] by simp
  next
    case (cen_link cv os' s')
    then show ?thesis using sess_inv_sh[OF assms(3)] frame_link[of "t_sh c" cv cfg] by simp
  next
    case (cen_l2_opened calls os' s')
    have "c\<lparr>t_l2 := True, t_sh := s'\<rparr> = c\<lparr>t_sh := s'\<rparr>\<lparr>t_l2 := True\<rparr>" by simp
    then show ?thesis
      using cen_l2_opened sess_inv_sh[OF assms(3), of s'] frame_l2_begin[of "t_sh c" cfg "e_f (se_env e)" calls]
      by (simp only: sess_inv_updates sess_good_maps snd_conv)
  next
    case (cen_l2_turn x os' s')
    then show ?thesis using sess_inv_sh[OF assms(3)] frame_l2_turn[of x "t_sh c" "e_f (se_env e)" cfg] by simp
  next
    case (cen_l2_over x os' s')
    then show ?thesis
      using sess_inv_over[OF sess_inv_sh[OF assms(3)]] frame_l2_turn[of x "t_sh c" "e_f (se_env e)" cfg] by simp
  next
    case (bond_turn evs st' sl' s')
    then show ?thesis
      using bond_turn_state[OF bond_turn(3)] env(2) inv assms(3) by (simp add: sess_inv_def task_frame_def)
  qed (use assms(3) sess_inv_over in simp_all)
qed

interpretation session_inv: step_invariant
  "\<lambda>c os c'. senv_ok e \<and> session_step e g cfg c os c'" "sess_inv cfg" "sess_good (se_central e) g"
  using session_step_inv by unfold_locales blast

section \<open>Connections of both roles\<close>

fun sess_per_mark :: "'k sess_out \<Rightarrow> bool list" where
  "sess_per_mark (SessPer o') = per_mark o'"
| "sess_per_mark _ = []"

fun sess_cen_mark :: "'k sess_out \<Rightarrow> bool list" where
  "sess_cen_mark (SessCen o') = conn_mark o'"
| "sess_cen_mark _ = []"

lemma sess_marks [simp]:
  "marks sess_per_mark (map SessPer os) = marks per_mark os" "marks sess_cen_mark (map SessPer os) = []"
  "marks sess_per_mark (map SessCen cs) = []" "marks sess_cen_mark (map SessCen cs) = conn_marks cs"
  "marks sess_per_mark (map SessConn ns) = []" "marks sess_cen_mark (map SessConn ns) = []"
  "marks sess_per_mark (map SessLink ls) = []" "marks sess_cen_mark (map SessLink ls) = []"
  "marks sess_per_mark (map SessL2 l2) = []" "marks sess_cen_mark (map SessL2 l2) = []"
  "marks sess_per_mark (map SessCb es) = []" "marks sess_cen_mark (map SessCb es) = []"
  by (simp_all add: marks_def comp_def)

lemma sess_marks_over [simp]:
  "marks sess_per_mark (cen_disconnected cfg) = []"
  "on_disconnected (cfg_callbacks cfg) \<Longrightarrow> marks sess_cen_mark (cen_disconnected cfg) = [False]"
  by (simp_all add: cen_disconnected_def)

lemma connected_now [simp]:
  "\<not> cen_connected (cen_over c)" "per_connected_now (cen_over c) = per_connected_now c"
  "cen_connected (c\<lparr>t_mtu := b\<rparr>) = cen_connected c" "per_connected_now (c\<lparr>t_mtu := b\<rparr>) = per_connected_now c"
  "cen_connected (c\<lparr>t_l2 := b\<rparr>) = cen_connected c" "per_connected_now (c\<lparr>t_l2 := b\<rparr>) = per_connected_now c"
  "cen_connected (c\<lparr>t_sh := s\<rparr>) = cen_connected c" "per_connected_now (c\<lparr>t_sh := s\<rparr>) = per_connected_now c"
  "cen_connected (c\<lparr>t_sl := sl\<rparr>) = cen_connected c" "per_connected_now (c\<lparr>t_sl := sl\<rparr>) = per_connected_now c"
  "cen_connected (c\<lparr>t_st := st\<rparr>) = cen_connected c" "per_connected_now (c\<lparr>t_st := st\<rparr>) = per_connected_now c"
  "cen_connected (c\<lparr>t_per := p\<rparr>) = cen_connected c" "per_connected_now (c\<lparr>t_cen := q\<rparr>) = per_connected_now c"
  "cen_connected (c\<lparr>t_cen := Some q'\<rparr>) = is_connected q'" "per_connected_now (c\<lparr>t_per := Some p'\<rparr>) = in_conn p'"
  by (simp_all add: cen_connected_def per_connected_now_def cen_over_def)

interpretation session_per: bracketed_connections
  "\<lambda>c os c'. reports_connections cfg \<and> session_step e g cfg c os c'" sess_per_mark per_connected_now
proof unfold_locales
  fix c :: "('a, 'b, 'c) sess" and os c'
  assume "reports_connections cfg \<and> session_step e g cfg c os c'"
  then have step: "session_step e g cfg c os c'" and cb: "reports_connections cfg" by simp_all
  show "alternates (per_connected_now c) (marks sess_per_mark os) (per_connected_now c')"
    using step
  proof (cases rule: session_step.cases)
    case (per_turn p os' p' s' sl')
    then show ?thesis
      using per_conn.step_marks[of cfg "se_env e" g "(p, t_sh c, t_sl c)" os' "(p', s', sl')"] cb
      by (simp add: reports_connections_def per_connected_now_def)
  qed simp_all
qed

interpretation session_cen: bracketed_connections
  "\<lambda>c os c'. reports_connections cfg \<and> session_step e g cfg c os c'" sess_cen_mark cen_connected
proof unfold_locales
  fix c :: "('a, 'b, 'c) sess" and os c'
  assume "reports_connections cfg \<and> session_step e g cfg c os c'"
  then have step: "session_step e g cfg c os c'" and cb: "reports_connections cfg" by simp_all
  have d: "marks sess_cen_mark (cen_disconnected cfg) = [False]" using cb by (simp add: reports_connections_def)
  show "alternates (cen_connected c) (marks sess_cen_mark os) (cen_connected c')"
    using step
  proof (cases rule: session_step.cases)
    case (cen_turn q os' q' s')
    then show ?thesis
      using central_conn.step_marks[OF conjI[OF cb cen_turn(4)]] by (simp add: cen_connected_def)
  qed (simp_all add: d)
qed

section \<open>Unloading\<close>

lemma session_step_frame:
  assumes "session_step e g cfg c os c'"
  shows "task_frame (t_sh c) (t_sh c')"
  using assms
proof (cases rule: session_step.cases)
  case (per_turn p os' p' s' sl')
  then show ?thesis using per_step_frame[OF per_turn(4)] by simp
next
  case (cen_turn q os' q' s')
  then show ?thesis using frame_central[OF cen_turn(4)] by simp
next
  case (cen_link cv os' s')
  then show ?thesis using frame_link[of "t_sh c" cv cfg] by simp
next
  case (cen_l2_opened calls os' s')
  then show ?thesis using frame_l2_begin[of "t_sh c" cfg "e_f (se_env e)" calls] by simp
next
  case (cen_l2_turn x os' s')
  then show ?thesis using frame_l2_turn[of x "t_sh c" "e_f (se_env e)" cfg] by simp
next
  case (cen_l2_over x os' s')
  then show ?thesis using frame_l2_turn[of x "t_sh c" "e_f (se_env e)" cfg] by (simp add: cen_over_def)
next
  case (bond_turn evs st' sl' s')
  then show ?thesis using bond_turn_state(1)[OF bond_turn(3)] by simp
qed (simp_all add: cen_over_def)

lemma session_frame: "runs (session_step e g cfg) c os c' \<Longrightarrow> task_frame (t_sh c) (t_sh c')"
  by (induction rule: runs.induct) (auto intro: task_frame_trans session_step_frame)

text \<open>The central role stays where it cannot start anything.\<close>

definition cen_quiet :: "('k, 'i, 'st) sess \<Rightarrow> bool" where
  "cen_quiet c \<longleftrightarrow> UNLOAD_REQ (t_sh c) \<and> (case t_cen c of None \<Rightarrow> True | Some q \<Rightarrow> quiet_rank q \<noteq> None)"

fun sess_starts_radio :: "'k sess_out \<Rightarrow> bool" where
  "sess_starts_radio (SessCen o') = starts_radio o'"
| "sess_starts_radio _ = False"

lemma sess_starts_maps [simp]:
  "list_ex sess_starts_radio (map SessPer os) = False" "list_ex sess_starts_radio (map SessCen cs) = list_ex starts_radio cs"
  "list_ex sess_starts_radio (map SessConn ns) = False" "list_ex sess_starts_radio (map SessLink ls) = False"
  "list_ex sess_starts_radio (map SessL2 l2) = False" "list_ex sess_starts_radio (map SessCb es) = False"
  "list_ex sess_starts_radio (cen_disconnected cfg) = False"
  by (auto simp: list_ex_iff cen_disconnected_def ctl_def)

lemma cen_quiet_step:
  assumes "session_step e g cfg c os c'" "cen_quiet c"
  shows "cen_quiet c' \<and> \<not> list_ex sess_starts_radio os"
proof -
  have u: "UNLOAD_REQ (t_sh c')" using session_step_frame[OF assms(1)] assms(2) by (simp add: task_frame_def cen_quiet_def)
  show ?thesis
    using assms(1)
  proof (cases rule: session_step.cases)
    case (cen_turn q os' q' s')
    obtain n where "quiet_rank q = Some n" using assms(2) cen_turn(3) by (auto simp: cen_quiet_def)
    then show ?thesis
      using unload_step[OF cen_turn(4), of n] assms(2) cen_turn u by (auto simp: cen_quiet_def)
  qed (use assms(2) u in \<open>simp_all add: cen_quiet_def cen_over_def\<close>)
qed

lemma cen_quiet_runs:
  "runs (session_step e g cfg) c os c' \<Longrightarrow> cen_quiet c \<Longrightarrow> cen_quiet c' \<and> \<not> list_ex sess_starts_radio os"
  by (induction rule: runs.induct) (auto dest: cen_quiet_step)

section \<open>Properties\<close>

lemma session_start_inv:
  assumes "senv_ok e" "shared_inv s" "session_start e peripheral cfg s st = (evs, c)"
  shows "sess_inv cfg c"
proof -
  obtain ev st' sl where r: "restore_bonds (e_bt (se_env e)) (e_host (se_env e)) (e_slots (se_env e)) cfg (st, []) = (ev, st', sl)"
    by (metis prod_cases3)
  have "slots_inv cfg sl"
  proof (cases "on_bond_load (cfg_callbacks cfg)")
    case None
    then show ?thesis using r by (simp add: restore_bonds_def slots_inv_def)
  next
    case (Some load)
    then show ?thesis using restore_bonds_slots[OF _ Some r] assms(1) by (simp add: senv_ok_def env_ok_def)
  qed
  then show ?thesis
    using assms(2,3) r central_start_ok(1)
    by (auto simp: session_start_def sess_inv_def)
qed


definition demo_senv :: "(u8, 128 word, 128 word, (u8, 128 word, 128 word) bond list) senv" where
  "demo_senv = \<lparr>se_env = demo_env, se_store = hvec_std 32, se_central = demo_central_host\<rparr>"

lemma demo_senv_ok: "senv_ok demo_senv"
  by (simp add: senv_ok_def demo_senv_def demo_env_ok demo_central_host_def)

definition demo_dual_cfg :: RuntimeCfg where
  "demo_dual_cfg = demo_per_cfg\<lparr>cfg_role := 2, cfg_peer_address := Some (\<lambda>i. of_nat i)\<rparr>"

text \<open>The points of a run in which both roles connect.\<close>

definition demo_at :: "per_pc \<Rightarrow> u8 central_pc \<Rightarrow> (u8, 128 word, (u8, 128 word, 128 word) bond list) sess" where
  "demo_at p q = \<lparr>t_per = Some p, t_cen = Some q, t_mtu = False, t_l2 = False, t_sh = shared_init, t_st = [], t_sl = []\<rparr>"

lemma demo_session_start: "session_start demo_senv True demo_dual_cfg shared_init [] = ([], demo_at AdvTop (LoopTop True))"
  by (simp add: session_start_def restore_bonds_def demo_at_def demo_dual_cfg_def demo_per_cfg_def demo_senv_def
      demo_env_def full_build_def central_start_def no_callbacks_def)

abbreviation demo_step where
  "demo_step \<equiv> session_step demo_senv (empty_gatt None) demo_dual_cfg"

lemma demo_cen:
  assumes "central_step (e_f (se_env demo_senv)) (e_bt (se_env demo_senv)) (se_store demo_senv) (se_central demo_senv)
     demo_dual_cfg (q, shared_init) os (q', shared_init)"
  shows "demo_step (demo_at p q) (map SessCen os) (demo_at p q')"
  using cen_turn[of "demo_at p q" q demo_senv demo_dual_cfg os q' shared_init "empty_gatt None"] assms
  by (simp add: demo_at_def)

lemma demo_per:
  assumes "per_step demo_env (empty_gatt None) demo_dual_cfg (p, shared_init, []) os (p', shared_init, [])"
  shows "demo_step (demo_at p q) (map SessPer os) (demo_at p' q)"
  using per_turn[of "demo_at p q" p demo_senv "empty_gatt None" demo_dual_cfg os p' shared_init "[]"] assms
  by (simp add: demo_at_def demo_senv_def)

lemma demo_session_run:
  "\<exists>os. runs demo_step (demo_at AdvTop (LoopTop True)) os (demo_at (InConn False False) (Connected []))"
proof -
  have u: "\<not> UNLOAD_REQ shared_init" by (simp add: shared_init_def)
  have eq: "advertise_connectable bt_std gap_std (hvec_std 255) (\<lambda>_. True) demo_dual_cfg
      = advertise_connectable bt_std gap_std (hvec_std 255) (\<lambda>_. True) demo_per_cfg"
    by (simp add: demo_dual_cfg_def demo_per_cfg_def) code_simp
  obtain rs where rs: "advertise_connectable bt_std gap_std (hvec_std 255) (\<lambda>_. True) demo_dual_cfg = (rs, True)"
    using demo_advertises eq by auto
  have adv: "per_step demo_env (empty_gatt None) demo_dual_cfg (AdvTop, shared_init, []) (map PerAdv rs) (Accepting, shared_init, [])"
    using rs by (intro conn_started) (simp_all add: demo_env_def demo_dual_cfg_def demo_per_cfg_def flatten_config_def zero_config_def)
  show ?thesis
    by (intro exI, rule runs_cons, rule demo_cen, rule auto_connect[OF u], rule runs_cons, rule demo_cen, rule connect,
        rule runs_cons, rule demo_cen, rule connected, rule runs_cons, rule demo_per, rule adv,
        rule runs_one, rule demo_per, rule accepted)
qed


text \<open>C13 (session_roles_bracketed). In a dual-role session the connections of each role are
  strictly bracketed on their own, however the two interleave: of the callbacks a role makes,
  \<^verbatim>\<open>on_connected\<close> and \<^verbatim>\<open>on_disconnected\<close> alternate, and the last one tells whether that role
  has a connection.\<close>

theorem session_roles_bracketed:
  assumes "runs (session_step e g cfg) c os c'" "\<not> per_connected_now c" "\<not> cen_connected c"
    and "on_connected (cfg_callbacks cfg)" "on_disconnected (cfg_callbacks cfg)"
  shows "(\<exists>n. marks sess_per_mark os = concat (replicate n [True, False]) @ (if per_connected_now c' then [True] else []))
     \<and> (\<exists>n. marks sess_cen_mark os = concat (replicate n [True, False]) @ (if cen_connected c' then [True] else []))"
proof -
  have r: "runs (\<lambda>c os c'. reports_connections cfg \<and> session_step e g cfg c os c') c os c'"
    using assms(4,5) by (intro runs_guarded[OF assms(1)]) (simp add: reports_connections_def)
  show ?thesis using session_per.brackets[OF r assms(2)] session_cen.brackets[OF r assms(3)] by blast
qed

theorem session_roles_bracketed_witness:
  "\<exists>os. runs demo_step (demo_at AdvTop (LoopTop True)) os (demo_at (InConn False False) (Connected []))
     \<and> last (marks sess_per_mark os) \<and> last (marks sess_cen_mark os)"
proof -
  obtain os where r: "runs demo_step (demo_at AdvTop (LoopTop True)) os (demo_at (InConn False False) (Connected []))"
    using demo_session_run by blast
  have open_roles: "\<not> per_connected_now (demo_at AdvTop (LoopTop True))" "\<not> cen_connected (demo_at AdvTop (LoopTop True))"
    "per_connected_now (demo_at (InConn False False) (Connected []))" "cen_connected (demo_at (InConn False False) (Connected []))"
    by (simp_all add: demo_at_def per_connected_now_def cen_connected_def)
  have cb: "on_connected (cfg_callbacks demo_dual_cfg)" "on_disconnected (cfg_callbacks demo_dual_cfg)"
    by (simp_all add: demo_dual_cfg_def demo_per_cfg_def)
  obtain n m where "marks sess_per_mark os = concat (replicate n [True, False]) @ [True]"
    "marks sess_cen_mark os = concat (replicate m [True, False]) @ [True]"
    using session_roles_bracketed[OF r open_roles(1,2) cb] open_roles(3,4) by auto
  then have "last (marks sess_per_mark os)" "last (marks sess_cen_mark os)" by (simp_all only: last_snoc)
  then show ?thesis using r by blast
qed



text \<open>Result (dual_link_command_ambiguous). The link calls are documented for \<open>the active
  connection\<close>. With both roles connected, the connection a waiting command acts on is not
  determined: the next turn of either role's connection may take it, and it then acts on that
  connection alone.\<close>

theorem dual_link_command_ambiguous:
  assumes "t_per c = Some (InConn m l)" "cen_connected c" "link_pending (t_sh c) = Some cmd"
  shows "\<exists>c1 c2. session_step e g cfg c (map SessPer (map PerLink (link_execute pv cfg cmd (t_sh c1)))) c1
     \<and> session_step e g cfg c (map SessLink (link_execute cv cfg cmd (t_sh c2))) c2
     \<and> link_pending (t_sh c1) = None \<and> link_pending (t_sh c2) = None"
proof -
  let ?s = "(t_sh c)\<lparr>LINK_CMD := LCMD_NONE\<rparr>"
  have turn: "link_control_once v cfg (t_sh c) = (link_execute v cfg cmd ?s, ?s)" for v
    using assms(3) by (simp add: link_control_once_def link_fetch_def link_pending_def split: if_splits)
  have none: "link_pending ?s = None" by (simp add: link_pending_def)
  have "per_step (se_env e) g cfg (InConn m l, t_sh c, t_sl c) (map PerLink (link_execute pv cfg cmd ?s)) (InConn m l, ?s, t_sl c)"
    by (rule link_command[OF turn])
  from per_turn[OF assms(1) this] cen_link[OF assms(2) turn] none show ?thesis
    by (intro exI[of _ "c\<lparr>t_per := Some (InConn m l), t_sh := ?s, t_sl := t_sl c\<rparr>"] exI[of _ "c\<lparr>t_sh := ?s\<rparr>"]) simp
qed

theorem dual_link_command_ambiguous_witness:
  "\<exists>c1 c2. demo_step ((demo_at (InConn False False) (Connected []))\<lparr>t_sh := shared_init\<lparr>LINK_CMD := LCMD_SECURITY_REQUEST\<rparr>\<rparr>)
        [SessPer (PerLink ReqSecurity)] c1
     \<and> demo_step ((demo_at (InConn False False) (Connected []))\<lparr>t_sh := shared_init\<lparr>LINK_CMD := LCMD_SECURITY_REQUEST\<rparr>\<rparr>)
        [SessLink ReqSecurity] c2"
proof -
  let ?c = "(demo_at (InConn False False) (Connected []))\<lparr>t_sh := shared_init\<lparr>LINK_CMD := LCMD_SECURITY_REQUEST\<rparr>\<rparr>"
  have x: "link_execute v demo_dual_cfg LCMD_SECURITY_REQUEST s = [ReqSecurity]" for v s
    by (simp add: link_execute_def lcmd_defs)
  have c: "t_per ?c = Some (InConn False False)" "cen_connected ?c" "link_pending (t_sh ?c) = Some LCMD_SECURITY_REQUEST"
    by (simp_all add: demo_at_def cen_connected_def link_pending_def lcmd_defs)
  from dual_link_command_ambiguous[OF c, of demo_senv "empty_gatt None" demo_dual_cfg] show ?thesis
    unfolding x by auto
qed

end
