(* ===== verification/Texts.thy ===== *)
theory Texts
  imports External
begin

text \<open>
  Text built in bounded buffers (\<^verbatim>\<open>heapless::String\<close> with \<^verbatim>\<open>write!\<close>) and handed to C: the
  pieces written until one does not fit, decimal numerals, and what C reads back.
\<close>

section \<open>Definitions\<close>

text \<open>\<^verbatim>\<open>write!\<close> on a bounded string: the pieces in order, up to the first that does not fit.\<close>

primrec write_pieces :: "char hvec \<Rightarrow> string \<Rightarrow> string list \<Rightarrow> string" where
  "write_pieces hv s [] = s"
| "write_pieces hv s (p # ps) =
     (case hv_extend hv s p of None \<Rightarrow> s | Some s' \<Rightarrow> write_pieces hv s' ps)"

definition dec_digit :: "nat \<Rightarrow> char" where
  "dec_digit n = ''0123456789'' ! n"

fun dec :: "nat \<Rightarrow> string" where
  "dec n = (if n < 10 then [dec_digit n] else dec (n div 10) @ [dec_digit (n mod 10)])"

declare dec.simps [simp del]

text \<open>The C string at the start of a buffer: \<open>None\<close> if it is not terminated there.\<close>

definition c_string :: "string \<Rightarrow> string option" where
  "c_string s = (if CHR 0x00 \<in> set s then Some (takeWhile (\<lambda>c. c \<noteq> CHR 0x00) s) else None)"

section \<open>Numerals and lengths\<close>

lemma length_dec: "n < 10 ^ k \<Longrightarrow> 0 < k \<Longrightarrow> length (dec n) \<le> k"
proof (induction k arbitrary: n)
  case (Suc k)
  show ?case
  proof (cases "n < 10")
    case True
    then show ?thesis by (subst dec.simps) simp
  next
    case False
    then have "n div 10 < 10 ^ k" "0 < k"
      using Suc.prems(1) by (auto simp: less_mult_imp_div_less mult.commute intro!: gr0I)
    then have "length (dec (n div 10)) \<le> k" by (rule Suc.IH)
    then show ?thesis using False by (subst dec.simps) simp
  qed
qed simp

lemma dec_no_nul: "CHR 0x00 \<notin> set (dec n)"
proof (induction n rule: dec.induct)
  case (1 n)
  have digit: "dec_digit k \<noteq> CHR 0x00" if "k < 10" for k
    using that by (auto simp: dec_digit_def nth_Cons numeral_eq_Suc less_Suc_eq split: nat.splits)
  show ?case
  proof (cases "n < 10")
    case True
    then show ?thesis using digit[of n] by (subst dec.simps) auto
  next
    case False
    then show ?thesis using 1 digit[of "n mod 10"] by (subst dec.simps) auto
  qed
qed

lemma write_pieces_fit:
  assumes "hvec_ok cap hv" "length s + length (concat ps) \<le> cap"
  shows "write_pieces hv s ps = s @ concat ps"
  using assms(2) by (induction ps arbitrary: s) (simp_all add: hv_extend[OF assms(1)])

lemma c_string_append: "CHR 0x00 \<notin> set s \<Longrightarrow> c_string (s @ [CHR 0x00]) = Some s"
  by (auto simp: c_string_def takeWhile_eq_all_conv intro!: takeWhile_append2 trans[OF takeWhile_append2])

text \<open>The number a decimal numeral denotes.\<close>

definition dec_value :: "string \<Rightarrow> nat" where
  "dec_value s = foldl (\<lambda>v c. 10 * v + (of_char c - 48)) 0 s"

lemma dec_value_dec: "dec_value (dec n) = n"
proof (induction n rule: dec.induct)
  case (1 n)
  have digit: "of_char (dec_digit k) - (48 :: nat) = k" if "k < 10" for k
  proof -
    have "k \<in> set [0..<10]" using that by simp
    then show ?thesis by (auto simp: dec_digit_def upt_rec)
  qed
  show ?case
  proof (cases "n < 10")
    case True
    then show ?thesis by (subst dec.simps) (simp add: dec_value_def digit)
  next
    case False
    then show ?thesis using 1 digit[of "n mod 10"]
      by (subst dec.simps) (simp add: dec_value_def mult_div_mod_eq)
  qed
qed

end
