(* ===== verification/SdcBuild.thy ===== *)
theory SdcBuild
  imports Advertise Texts
begin

text \<open>
  Configuring the SoftDevice Controller: \<^verbatim>\<open>build_sdc\<close> and \<^verbatim>\<open>log_required_mem\<close> of
  \<^verbatim>\<open>chip/nrf54l.rs\<close> (\<^verbatim>\<open>chip/nrf52.rs\<close> has the same code). The builder is seen through the
  calls made on it, in order; the calls that return a result are answered by an oracle.
\<close>

section \<open>Requests to the builder\<close>

datatype sdc_feature =
    FeatAdv | FeatPeripheral | FeatExtAdv | FeatLe2mPhy | FeatLeCodedPhy | FeatLePeriodicAdv
  | FeatPhyUpdatePeripheral | FeatDlePeripheral | FeatFrameSpacePeripheral | FeatExtendedFeatureSet
  | FeatSubratingPeripheral | FeatScan | FeatExtScan | FeatCentral | FeatExtCentral
  | FeatPhyUpdateCentral | FeatDleCentral | FeatFrameSpaceCentral | FeatSubratingCentral

datatype sdc_req =
    SdcNew
  | Support sdc_feature
  | PeripheralCount u8
  | AdvCount u8
  | AdvBufferCfg u16
  | PeriodicAdvCount u8
  | CentralCount u8
  | BufferCfg u16 u16 u8 u8
  | SdcBuild

datatype sdc_out = SdcRequest sdc_req | SdcLog cb_event

definition SDC_DISABLE_EXT_ADV :: u32 where "SDC_DISABLE_EXT_ADV = push_bit 0 1"
definition SDC_DISABLE_PERIODIC_ADV :: u32 where "SDC_DISABLE_PERIODIC_ADV = push_bit 1 1"
definition SDC_DISABLE_CODED_PHY :: u32 where "SDC_DISABLE_CODED_PHY = push_bit 2 1"
definition SDC_DISABLE_2M_PHY :: u32 where "SDC_DISABLE_2M_PHY = push_bit 3 1"
definition SDC_DISABLE_DLE :: u32 where "SDC_DISABLE_DLE = push_bit 4 1"
definition SDC_DISABLE_SUBRATING :: u32 where "SDC_DISABLE_SUBRATING = push_bit 5 1"
definition SDC_DISABLE_FRAME_SPACE :: u32 where "SDC_DISABLE_FRAME_SPACE = push_bit 6 1"

lemmas sdc_disable_defs = SDC_DISABLE_EXT_ADV_def SDC_DISABLE_PERIODIC_ADV_def SDC_DISABLE_CODED_PHY_def
  SDC_DISABLE_2M_PHY_def SDC_DISABLE_DLE_def SDC_DISABLE_SUBRATING_def SDC_DISABLE_FRAME_SPACE_def

definition L2CAP_TXQ :: u8 where "L2CAP_TXQ = 4"
definition L2CAP_RXQ :: u8 where "L2CAP_RXQ = 4"

definition SDC_MEM :: "features \<Rightarrow> usize" where
  "SDC_MEM f = (if f_central f then 12288 else if f_full f then 9216 else 6144)"

section \<open>The feature set\<close>

definition sdc_disabled :: "features \<Rightarrow> RuntimeCfg \<Rightarrow> u32" where
  "sdc_disabled f cfg =
     (if f_full f then cfg_sdc_disable cfg
      else cfg_sdc_disable cfg OR SDC_DISABLE_CODED_PHY OR SDC_DISABLE_SUBRATING OR SDC_DISABLE_FRAME_SPACE)"

definition want_ext_adv :: "features \<Rightarrow> RuntimeCfg \<Rightarrow> bool" where
  "want_ext_adv f cfg =
     (f_full f \<and> (cfg_adv_extended cfg \<noteq> 0 \<or> cfg_periodic_adv cfg \<noteq> 0
                  \<or> sdc_disabled f cfg AND SDC_DISABLE_EXT_ADV = 0))"

definition want_periodic :: "features \<Rightarrow> RuntimeCfg \<Rightarrow> bool" where
  "want_periodic f cfg =
     (f_full f \<and> (cfg_periodic_adv cfg \<noteq> 0 \<or> sdc_disabled f cfg AND SDC_DISABLE_PERIODIC_ADV = 0))"

definition add_if :: "bool \<Rightarrow> 'a list \<Rightarrow> 'a list" where
  "add_if b xs = (if b then xs else [])"

definition sdc_features :: "features \<Rightarrow> RuntimeCfg \<Rightarrow> sdc_feature list" where
  "sdc_features f cfg =
     (let dis = sdc_disabled f cfg in
      [FeatAdv, FeatPeripheral]
      @ add_if (want_ext_adv f cfg) [FeatExtAdv]
      @ add_if (dis AND SDC_DISABLE_2M_PHY = 0) [FeatLe2mPhy]
      @ add_if (dis AND SDC_DISABLE_CODED_PHY = 0) [FeatLeCodedPhy]
      @ add_if (want_periodic f cfg) [FeatLePeriodicAdv]
      @ [FeatPhyUpdatePeripheral]
      @ add_if (dis AND SDC_DISABLE_DLE = 0) [FeatDlePeripheral]
      @ add_if (dis AND SDC_DISABLE_FRAME_SPACE = 0) [FeatFrameSpacePeripheral]
      @ add_if (f_full f) [FeatExtendedFeatureSet]
      @ add_if (dis AND SDC_DISABLE_SUBRATING = 0) [FeatSubratingPeripheral]
      @ add_if (f_central f)
          ([FeatScan, FeatExtScan, FeatCentral, FeatExtCentral, FeatPhyUpdateCentral]
           @ add_if (dis AND SDC_DISABLE_DLE = 0) [FeatDleCentral]
           @ add_if (dis AND SDC_DISABLE_FRAME_SPACE = 0) [FeatFrameSpaceCentral]
           @ add_if (dis AND SDC_DISABLE_SUBRATING = 0) [FeatSubratingCentral]))"

text \<open>The calls up to \<^verbatim>\<open>required_memory\<close>; \<open>mtu\<close> is \<^verbatim>\<open>DefaultPacketPool::MTU\<close>.\<close>

definition sdc_adv_buffer :: "features \<Rightarrow> RuntimeCfg \<Rightarrow> u16" where
  "sdc_adv_buffer f cfg = of_nat (if want_ext_adv f cfg then EXT_ADV_DATA_MAX else 31)"

definition sdc_requests :: "features \<Rightarrow> usize \<Rightarrow> RuntimeCfg \<Rightarrow> sdc_req list" where
  "sdc_requests f mtu cfg =
     SdcNew # map Support (sdc_features f cfg)
     @ [PeripheralCount 1, AdvCount 1, AdvBufferCfg (sdc_adv_buffer f cfg)]
     @ add_if (want_periodic f cfg) [PeriodicAdvCount 1]
     @ add_if (f_central f) [CentralCount 1]
     @ [BufferCfg (ucast mtu) (ucast mtu) L2CAP_TXQ L2CAP_RXQ]"

text \<open>A chain of calls with \<^verbatim>\<open>?\<close> after those that can fail.\<close>

definition sdc_call_ok :: "(sdc_req \<Rightarrow> bool) \<Rightarrow> sdc_req \<Rightarrow> bool" where
  "sdc_call_ok ok r = (case r of Support _ \<Rightarrow> True | _ \<Rightarrow> ok r)"

primrec sdc_chain :: "(sdc_req \<Rightarrow> bool) \<Rightarrow> sdc_req list \<Rightarrow> sdc_req list \<times> bool" where
  "sdc_chain ok [] = ([], True)"
| "sdc_chain ok (r # rs) =
     (if sdc_call_ok ok r then let (made, b) = sdc_chain ok rs in (r # made, b) else ([r], False))"

section \<open>The memory report\<close>

definition sdc_mem_line :: "char hvec \<Rightarrow> usize option \<Rightarrow> usize \<Rightarrow> string" where
  "sdc_mem_line hv need pool =
     (case need of
        Some r \<Rightarrow> write_pieces hv []
          [''[runtime-ble] sdc mem: need '', dec (unat r), '' have '', dec (unat pool), [CHR 0x00]]
      | None \<Rightarrow> write_pieces hv [] [''[runtime-ble] sdc required_memory query failed'' @ [CHR 0x00]])"

text \<open>The line the application reads; \<open>None\<close> when it reads past the buffer.\<close>

definition log_required_mem :: "char hvec \<Rightarrow> RuntimeCfg \<Rightarrow> usize option \<Rightarrow> usize \<Rightarrow> cb_event list option" where
  "log_required_mem hv cfg need pool = map_option (log_str cfg) (c_string (sdc_mem_line hv need pool))"

section \<open>\<^verbatim>\<open>build_sdc\<close>\<close>

definition build_sdc ::
  "features \<Rightarrow> usize \<Rightarrow> (sdc_req \<Rightarrow> bool) \<Rightarrow> char hvec \<Rightarrow> (sdc_req list \<Rightarrow> usize option) \<Rightarrow> RuntimeCfg \<Rightarrow>
     sdc_out list \<times> bool" where
  "build_sdc f mtu ok hv req_mem cfg =
     (case sdc_chain ok (sdc_requests f mtu cfg) of
        (made, False) \<Rightarrow> (map SdcRequest made, False)
      | (made, True) \<Rightarrow>
          (map SdcRequest made
             @ map SdcLog (case log_required_mem hv cfg (req_mem made) (SDC_MEM f) of None \<Rightarrow> [] | Some es \<Rightarrow> es)
             @ [SdcRequest SdcBuild],
           ok SdcBuild))"

section \<open>The calls made\<close>

lemma sdc_chain_all: "sdc_chain ok rs = (made, True) \<Longrightarrow> made = rs"
  by (induction rs arbitrary: made) (auto split: prod.splits if_splits)

lemma build_sdc_ok:
  assumes "build_sdc f mtu ok hv req_mem cfg = (outs, True)"
  shows "q \<in> set (sdc_requests f mtu cfg) \<Longrightarrow> SdcRequest q \<in> set outs" "SdcRequest SdcBuild \<in> set outs" "ok SdcBuild"
  using assms sdc_chain_all[of ok "sdc_requests f mtu cfg"]
  by (auto simp: build_sdc_def split: prod.splits bool.splits)

lemma build_sdc_calls:
  assumes "build_sdc f mtu ok hv req_mem cfg = (outs, r)" "SdcRequest q \<in> set outs"
  shows "q \<in> set (sdc_requests f mtu cfg) \<or> q = SdcBuild"
proof -
  have "set (fst (sdc_chain ok rs)) \<subseteq> set rs" for rs
    by (induction rs) (auto simp: case_prod_beta)
  then show ?thesis
    using assms by (fastforce simp: build_sdc_def split: prod.splits bool.splits)
qed

lemma in_add_if [simp]: "x \<in> set (add_if b xs) \<longleftrightarrow> b \<and> x \<in> set xs"
  by (simp add: add_if_def)

lemma in_sdc_requests:
  "Support ft \<in> set (sdc_requests f mtu cfg) \<longleftrightarrow> ft \<in> set (sdc_features f cfg)"
  "AdvBufferCfg n \<in> set (sdc_requests f mtu cfg) \<longleftrightarrow> n = sdc_adv_buffer f cfg"
  "PeriodicAdvCount k \<in> set (sdc_requests f mtu cfg) \<longleftrightarrow> want_periodic f cfg \<and> k = 1"
  by (auto simp: sdc_requests_def)

lemma in_sdc_features:
  "FeatExtAdv \<in> set (sdc_features f cfg) \<longleftrightarrow> want_ext_adv f cfg"
  "FeatLePeriodicAdv \<in> set (sdc_features f cfg) \<longleftrightarrow> want_periodic f cfg"
  "FeatLeCodedPhy \<in> set (sdc_features f cfg) \<longleftrightarrow> sdc_disabled f cfg AND SDC_DISABLE_CODED_PHY = 0"
  by (auto simp: sdc_features_def Let_def)

section \<open>Advertising within the controller's limits\<close>

lemma and_push_bit_1: "w AND push_bit n 1 \<noteq> 0 \<longleftrightarrow> bit w n" if "n < 32" for w :: u32
proof -
  have "bit (w AND push_bit n 1) k \<longleftrightarrow> k = n \<and> bit w n" if "k < 32" for k
    using that by (auto simp: bit_simps)
  then show ?thesis using that by (auto simp: bit_eq_iff)
qed

text \<open>A request of the advertising code that the controller built can serve.\<close>

fun controller_serves :: "sdc_out list \<Rightarrow> 'k adv_req \<Rightarrow> bool" where
  "controller_serves outs (AdvertiseLegacy p a) =
     (\<exists>n. SdcRequest (AdvBufferCfg n) \<in> set outs \<and> (\<forall>d \<in> set (adv_data_bytes a). length d \<le> unat n))"
| "controller_serves outs (AdvertiseExt p a) =
     (SdcRequest (Support FeatExtAdv) \<in> set outs
      \<and> (\<exists>n. SdcRequest (AdvBufferCfg n) \<in> set outs \<and> (\<forall>d \<in> set (adv_data_bytes a). length d \<le> unat n)))"
| "controller_serves outs (SetPeriodicParams mn mx t) =
     (SdcRequest (Support FeatLePeriodicAdv) \<in> set outs \<and> SdcRequest (PeriodicAdvCount 1) \<in> set outs)"
| "controller_serves outs (SetPeriodicData d) = (SdcRequest (Support FeatLePeriodicAdv) \<in> set outs)"
| "controller_serves outs SetPeriodicEnable = (SdcRequest (Support FeatLePeriodicAdv) \<in> set outs)"
| "controller_serves outs _ = True"

text \<open>Extended and periodic requests come from a configuration that asks for them.\<close>

fun req_configured :: "RuntimeCfg \<Rightarrow> 'k adv_req \<Rightarrow> bool" where
  "req_configured cfg (AdvertiseExt _ _) = (cfg_adv_extended cfg \<noteq> 0)"
| "req_configured cfg (SetPeriodicParams _ _ _) = (cfg_periodic_adv cfg \<noteq> 0)"
| "req_configured cfg (SetPeriodicData _) = (cfg_periodic_adv cfg \<noteq> 0)"
| "req_configured cfg SetPeriodicEnable = (cfg_periodic_adv cfg \<noteq> 0)"
| "req_configured cfg _ = True"

lemma periodic_configured: "all_reqs (req_configured cfg) (enable_periodic_advertising ok cfg)"
proof (cases "cfg_periodic_adv cfg = 0")
  case True
  then show ?thesis by (simp add: enable_periodic_advertising_def all_reqs_base)
next
  case False
  then show ?thesis by (intro all_reqs_periodic) simp_all
qed

lemma connectable_configured: "all_reqs (req_configured cfg) (advertise_connectable bt gap hv ok cfg)"
  unfolding advertise_connectable_def
  by (auto intro!: all_reqs_intros periodic_configured split: option.split prod.split)

lemma nonconnectable_configured: "all_reqs (req_configured cfg) (advertise_nonconnectable bt gap hv ok cfg)"
  unfolding advertise_nonconnectable_def
  by (auto intro!: all_reqs_intros periodic_configured split: option.split prod.split)

lemma adv_buffer_size:
  "unat (sdc_adv_buffer f cfg) = (if want_ext_adv f cfg then 255 else 31)"
  by (simp add: sdc_adv_buffer_def EXT_ADV_DATA_MAX_def)

lemma serves_if:
  assumes "build_sdc f mtu ok hv req_mem cfg = (outs, True)" "f_full f" "req_fits r" "req_configured cfg r"
  shows "controller_serves outs r"
proof -
  note made = build_sdc_ok(1)[OF assms(1)]
  have buf: "SdcRequest (AdvBufferCfg (sdc_adv_buffer f cfg)) \<in> set outs"
    by (rule made) (simp add: in_sdc_requests)
  have ext: "SdcRequest (Support FeatExtAdv) \<in> set outs" if "want_ext_adv f cfg"
    using that by (intro made) (simp add: in_sdc_requests in_sdc_features)
  have per: "SdcRequest (Support FeatLePeriodicAdv) \<in> set outs \<and> SdcRequest (PeriodicAdvCount 1) \<in> set outs"
    if "cfg_periodic_adv cfg \<noteq> 0"
  proof -
    have "want_periodic f cfg" using that assms(2) by (simp add: want_periodic_def)
    then show ?thesis by (auto intro!: made simp: in_sdc_requests in_sdc_features)
  qed
  have we: "want_ext_adv f cfg" if "cfg_adv_extended cfg \<noteq> 0"
    using that assms(2) by (simp add: want_ext_adv_def)
  show ?thesis
  proof (cases r)
    case (AdvertiseLegacy p a)
    have "\<forall>d \<in> set (adv_data_bytes a). length d \<le> unat (sdc_adv_buffer f cfg)"
      using assms(3) AdvertiseLegacy by (fastforce simp: adv_buffer_size)
    then show ?thesis using AdvertiseLegacy buf by auto
  next
    case (AdvertiseExt p a)
    then have w: "want_ext_adv f cfg" using assms(4) we by simp
    have "\<forall>d \<in> set (adv_data_bytes a). length d \<le> unat (sdc_adv_buffer f cfg)"
      using assms(3) AdvertiseExt w by (simp add: adv_buffer_size)
    then show ?thesis using AdvertiseExt buf ext[OF w] by auto
  qed (use per assms(4) in auto)
qed

lemma serves_all:
  assumes "build_sdc f mtu ok hs req_mem cfg = (outs, True)" "f_full f"
    and "all_reqs req_fits a" "all_reqs (req_configured cfg) a"
  shows "all_reqs (controller_serves outs) a"
  using assms(3,4) serves_if[OF assms(1,2)] by (auto simp: all_reqs_def)

section \<open>Properties\<close>


definition demo_sdc_cfg :: RuntimeCfg where
  "demo_sdc_cfg = flatten_config zero_config\<lparr>cfg_adv_extended := 1, cfg_adv_primary_phy := 3, cfg_periodic_adv := 1,
     cfg_sdc_disable := 0xFFFFFFFF, cfg_adv_data := Some (\<lambda>i. [2, 1, 6] ! i), cfg_adv_data_len := 3\<rparr>"

lemma sdc_chain_succeeds: "(\<And>r. ok r) \<Longrightarrow> sdc_chain ok rs = (rs, True)"
  by (induction rs) (auto simp: sdc_call_ok_def split: sdc_req.split)

lemma demo_build: "\<exists>outs. build_sdc f mtu (\<lambda>_. True) hs req_mem cfg = (outs, True)"
  by (simp add: build_sdc_def sdc_chain_succeeds)


text \<open>Result (configured_features_dropped). \<^verbatim>\<open>runtime_ble.h\<close> promises that a feature the application
  configures is kept whatever \<^verbatim>\<open>sdc_disable\<close> says. That is so for extended and periodic
  advertising in the full builds only: with advertising configured on the Coded PHY and that
  PHY in the mask, the session asks for an advertising set on the Coded PHY from a controller
  that was built without it, and in the minimum build also without extended advertising.\<close>

theorem configured_features_dropped:
  assumes "build_sdc f mtu ok hs req_mem cfg = (outs, r)"
    and "cfg_sdc_disable cfg AND SDC_DISABLE_CODED_PHY \<noteq> 0" "cfg_adv_primary_phy cfg = 3"
    and "cfg_adv_extended cfg \<noteq> 0" "cfg_adv_filter_policy cfg = 0" "cfg_directed_peer_address cfg = None"
    and "advertising_parts_ext gap hv cfg = Some (adv, scan)"
  shows "(\<exists>p a. AdvertiseExt p a \<in> set (fst (advertise_connectable bt gap hv rok cfg)) \<and> primary_phy p = LeCoded)
     \<and> SdcRequest (Support FeatLeCodedPhy) \<notin> set outs
     \<and> (\<not> f_full f \<longrightarrow> SdcRequest (Support FeatExtAdv) \<notin> set outs)"
proof -
  have phy: "primary_phy (advertising_params cfg) = LeCoded"
    using assms(3) by (simp add: advertising_params_def adv_phy_from_c_def Let_def)
  have "sdc_disabled f cfg AND SDC_DISABLE_CODED_PHY \<noteq> 0"
  proof -
    have "bit (cfg_sdc_disable cfg) 2"
      using assms(2) and_push_bit_1[of 2 "cfg_sdc_disable cfg"] by (simp add: SDC_DISABLE_CODED_PHY_def del: push_bit_of_1)
    then have "bit (sdc_disabled f cfg) 2" by (simp add: sdc_disabled_def bit_or_iff)
    then show ?thesis using and_push_bit_1[of 2 "sdc_disabled f cfg"] by (simp only: SDC_DISABLE_CODED_PHY_def)
  qed
  then have "Support FeatLeCodedPhy \<notin> set (sdc_requests f mtu cfg)"
    by (simp add: in_sdc_requests in_sdc_features)
  moreover have "\<not> f_full f \<Longrightarrow> Support FeatExtAdv \<notin> set (sdc_requests f mtu cfg)"
    by (simp add: in_sdc_requests in_sdc_features want_ext_adv_def)
  moreover have "AdvertiseExt (advertising_params cfg) (ExtConnectableNonscannableUndirected adv)
      \<in> set (fst (advertise_connectable bt gap hv rok cfg))"
    using assms(4-7)
    by (simp add: advertise_connectable_def apply_adv_accept_list_def directed_peer_def andThen_def done_ok_def req_def)
  ultimately show ?thesis using phy build_sdc_calls[OF assms(1)] by blast
qed

theorem configured_features_dropped_witness:
  "\<exists>p a. AdvertiseExt p a \<in> set (fst (advertise_connectable bt_std gap_std (hvec_std 255) (\<lambda>_. True) demo_sdc_cfg))
     \<and> primary_phy p = LeCoded"
proof -
  obtain outs r where b: "build_sdc minimum_build 27 (\<lambda>_. True) (hvec_std 56) (\<lambda>_. None) demo_sdc_cfg = (outs, r)"
    by fastforce
  have c: "cfg_sdc_disable demo_sdc_cfg AND SDC_DISABLE_CODED_PHY \<noteq> 0" "cfg_adv_primary_phy demo_sdc_cfg = 3"
    "cfg_adv_extended demo_sdc_cfg \<noteq> 0" "cfg_adv_filter_policy demo_sdc_cfg = 0"
    "cfg_directed_peer_address demo_sdc_cfg = None"
    by (simp_all add: demo_sdc_cfg_def SDC_DISABLE_CODED_PHY_def flatten_config_def zero_config_def)
  have "advertising_parts_ext gap_std (hvec_std 255) demo_sdc_cfg = Some (from_raw_parts (\<lambda>i. [2, 1, 6] ! i) 3, [])"
    by (simp add: demo_sdc_cfg_def advertising_parts_ext_def advertising_payload_ext_def hvec_std_def slice_or_empty_def
        flatten_config_def zero_config_def)
  from configured_features_dropped[OF b c this] show ?thesis by blast
qed

text \<open>C31 (sdc_mem_report_complete). The memory report fits its 56-byte buffer for every value the
  controller can name and every pool of the crate: the line the application is given is
  terminated, complete, and its two numbers read back as the need and the pool.\<close>

theorem sdc_mem_report_complete:
  assumes "hvec_ok 56 hs"
  shows "log_required_mem hs cfg (Some need) (SDC_MEM f) =
      Some (log_str cfg (''[runtime-ble] sdc mem: need '' @ dec (unat need) @ '' have '' @ dec (unat (SDC_MEM f))))
     \<and> dec_value (dec (unat need)) = unat need \<and> dec_value (dec (unat (SDC_MEM f))) = unat (SDC_MEM f)
     \<and> log_required_mem hs cfg None (SDC_MEM f) =
      Some (log_str cfg ''[runtime-ble] sdc required_memory query failed'')"
proof -
  have n: "length (dec (unat need)) \<le> 10"
    using unsigned_less[of need, where 'a = nat] by (intro length_dec) simp_all
  have p: "length (dec (unat (SDC_MEM f))) \<le> 5" by (intro length_dec) (simp_all add: SDC_MEM_def)
  have line: "sdc_mem_line hs (Some need) (SDC_MEM f) =
      (''[runtime-ble] sdc mem: need '' @ dec (unat need) @ '' have '' @ dec (unat (SDC_MEM f))) @ [CHR 0x00]"
    unfolding sdc_mem_line_def option.case
    using n p by (subst write_pieces_fit[OF assms]) simp_all
  have fail: "sdc_mem_line hs None (SDC_MEM f) = ''[runtime-ble] sdc required_memory query failed'' @ [CHR 0x00]"
    unfolding sdc_mem_line_def option.case by (subst write_pieces_fit[OF assms]) simp_all
  have nul: "CHR 0x00 \<notin> set (''[runtime-ble] sdc mem: need '' @ dec (unat need) @ '' have '' @ dec (unat (SDC_MEM f)))"
    "CHR 0x00 \<notin> set ''[runtime-ble] sdc required_memory query failed''"
    using dec_no_nul by simp_all
  show ?thesis
    unfolding log_required_mem_def line fail c_string_append[OF nul(1)] c_string_append[OF nul(2)] by (simp add: dec_value_dec)
qed

theorem sdc_mem_report_complete_witness:
  "log_required_mem (hvec_std 56) demo_sdc_cfg None (SDC_MEM minimum_build) =
      Some (log_str demo_sdc_cfg ''[runtime-ble] sdc required_memory query failed'')"
  using sdc_mem_report_complete[of "hvec_std 56" demo_sdc_cfg 0 minimum_build] by simp

end
