(* ===== verification/Load.thy ===== *)
theory Load
  imports Session SdcBuild
begin

text \<open>
  A load/unload cycle: \<^verbatim>\<open>run\<close> of \<^verbatim>\<open>chip/nrf54l.rs\<close> (\<^verbatim>\<open>chip/nrf52.rs\<close> has the same
  code), \<^verbatim>\<open>serve_session\<close> and \<^verbatim>\<open>serve_central\<close> of \<^verbatim>\<open>radio.rs\<close> around the session's
  tasks, and \<^verbatim>\<open>runtime_ble_run\<close>. The boxes that are turned into raw pointers are tracked on
  the heap of the theory Gatt; what the glue and the application see is the output.
\<close>

section \<open>Outputs\<close>

record 'k stack_cfg =
  sk_address :: "'k address"
  sk_io :: io_capabilities
  sk_spsm :: "u16 option"

datatype (plugins only: code size) 'k load_out =
    LoadPending
  | LoadDone c_int
  | LoadLog cb_event
  | LoadSdc sdc_out
  | LoadStack "'k stack_cfg"
  | LoadEvent cb_event
  | LoadTask "'k sess_out"

definition signal_load_pending :: "shared \<Rightarrow> shared" where
  "signal_load_pending s = s\<lparr>LOAD_STATUS := RUNTIME_BLE_LOAD_PENDING\<rparr>"

definition signal_load_done :: "c_int \<Rightarrow> shared \<Rightarrow> shared" where
  "signal_load_done status s = s\<lparr>LOAD_STATUS := status\<rparr>"

definition load_log :: "RuntimeCfg \<Rightarrow> string \<Rightarrow> 'k load_out list" where
  "load_log cfg m = map LoadLog (log_str cfg m)"

section \<open>Bring-up\<close>

text \<open>The radio's side: whether MPSL starts, the controller's answers and numbers, the buffer of
  the memory report, and the hardware address.\<close>

record chip =
  c_mpsl_ok :: bool
  c_sdc_ok :: "sdc_req \<Rightarrow> bool"
  c_req_mem :: "sdc_req list \<Rightarrow> usize option"
  c_mtu :: usize
  c_log_vec :: "char hvec"
  c_hw_addr :: "u8 list"

definition stack_config :: "features \<Rightarrow> ('k, 'l, 'i) bt_ops \<Rightarrow> chip \<Rightarrow> RuntimeCfg \<Rightarrow> 'k stack_cfg" where
  "stack_config f bt ch cfg =
     \<lparr>sk_address = device_address bt (c_hw_addr ch) cfg,
      sk_io = io_capability_from_c (cfg_security_io_capability cfg),
      sk_spsm = (if f_l2cap f \<and> cfg_l2cap_psm cfg \<noteq> 0 then Some (cfg_l2cap_psm cfg) else None)\<rparr>"

text \<open>\<^verbatim>\<open>run\<close> up to serving: the outputs, the heap (\<open>None\<close> after a double free), the statics, and
  the boxes of the session unless the load was aborted, in the order they are freed.\<close>

definition bring_up ::
  "features \<Rightarrow> ('k, 'l, 'i) bt_ops \<Rightarrow> chip \<Rightarrow> RuntimeCfg \<Rightarrow> heap \<times> shared \<Rightarrow>
     'k load_out list \<times> heap option \<times> shared \<times> nat list option" where
  "bring_up f bt ch cfg hs =
     (let (h, s) = hs in
      if \<not> c_mpsl_ok ch
      then (load_log cfg ''[runtime-ble] MPSL init failed; aborting load'' @ [LoadDone RUNTIME_BLE_ERR_MPSL],
            Some h, signal_load_done RUNTIME_BLE_ERR_MPSL s, None)
      else
        let (mpsl, h) = box_new h; (rng, h) = box_new h; (mem, h) = box_new h;
            (outs, built) = build_sdc f (c_mtu ch) (c_sdc_ok ch) (c_log_vec ch) (c_req_mem ch) cfg
        in if \<not> built
           then (map LoadSdc outs @ load_log cfg ''[runtime-ble] SDC init failed; aborting load''
                   @ [LoadDone RUNTIME_BLE_ERR_SDC],
                 free_all [mem, rng, mpsl] h, signal_load_done RUNTIME_BLE_ERR_SDC s, None)
           else
             let (res, h) = box_new h
             in (map LoadSdc outs @ LoadStack (stack_config f bt ch cfg)
                   # load_log cfg ''[runtime-ble] loaded on heap'' @ [LoadDone RUNTIME_BLE_OK],
                 Some h, signal_load_done RUNTIME_BLE_OK s, Some [res, mem, rng, mpsl]))"

section \<open>Serving\<close>

text \<open>The session's environment: the host, the attribute table it answers for, its bonds and
  its out-of-band data at the start.\<close>

record ('k, 'l, 'i, 'st) world =
  w_env :: "('k, 'l, 'i, 'st) senv"
  w_att :: att_host
  w_bonds :: 'st
  w_oob :: oob_data

definition w_f :: "('k, 'l, 'i, 'st) world \<Rightarrow> features" where
  "w_f w = e_f (se_env (w_env w))"

definition w_bt :: "('k, 'l, 'i, 'st) world \<Rightarrow> ('k, 'l, 'i) bt_ops" where
  "w_bt w = e_bt (se_env (w_env w))"

text \<open>What the session's start reports: the bonds restored, then the out-of-band data.\<close>

definition start_events :: "('k, 'l, 'i, 'st) world \<Rightarrow> RuntimeCfg \<Rightarrow> cb_event list \<Rightarrow> 'k load_out list" where
  "start_events w cfg evs = map LoadEvent (evs @ emit_local_oob_data (w_oob w) cfg)"

inductive serve_session ::
  "('k, 'l, 'i, 'st) world \<Rightarrow> RuntimeCfg \<Rightarrow> heap \<times> shared \<Rightarrow> 'k load_out list \<Rightarrow> heap option \<times> shared \<Rightarrow> bool"
  for w cfg where
  no_table: "build_gatt (w_f w) (e_gap (se_env (w_env w))) (w_att w) cfg (device_name cfg) h = (None, h') \<Longrightarrow>
    serve_session w cfg (h, s) [] (h', s)"
| table: "build_gatt (w_f w) (e_gap (se_env (w_env w))) (w_att w) cfg (device_name cfg) h = (Some g, Some h1) \<Longrightarrow>
    session_start (w_env w) True cfg s (w_bonds w) = (evs, c) \<Longrightarrow>
    runs (session_step (w_env w) g cfg) c os c' \<Longrightarrow> session_ends runner_failed c' \<Longrightarrow>
    serve_session w cfg (h, s) (start_events w cfg evs @ map LoadTask os) (session_teardown g h1, t_sh c')"

inductive serve_central ::
  "('k, 'l, 'i, 'st) world \<Rightarrow> RuntimeCfg \<Rightarrow> heap \<times> shared \<Rightarrow> 'k load_out list \<Rightarrow> heap option \<times> shared \<Rightarrow> bool"
  for w cfg where
  central: "session_start (w_env w) False cfg s (w_bonds w) = (evs, c) \<Longrightarrow>
    runs (session_step (w_env w) (empty_gatt None) cfg) c os c' \<Longrightarrow> session_ends runner_failed c' \<Longrightarrow>
    serve_central w cfg (h, s) (start_events w cfg evs @ map LoadTask os) (Some h, t_sh c')"

definition serve_role ::
  "('k, 'l, 'i, 'st) world \<Rightarrow> RuntimeCfg \<Rightarrow> heap \<times> shared \<Rightarrow> 'k load_out list \<Rightarrow> heap option \<times> shared \<Rightarrow> bool" where
  "serve_role w cfg =
     (if f_central (w_f w) \<and> cfg_role cfg = 1 then serve_central w cfg else serve_session w cfg)"

section \<open>The cycle\<close>

inductive chip_run ::
  "('k, 'l, 'i, 'st) world \<Rightarrow> chip \<Rightarrow> RuntimeCfg option \<Rightarrow>
     heap \<times> shared \<Rightarrow> 'k load_out list \<Rightarrow> heap option \<times> shared \<Rightarrow> bool"
  for w ch where
  no_config: "chip_run w ch None (h, s) [LoadPending, LoadDone RUNTIME_BLE_ERR_INVALID]
    (Some h, signal_load_done RUNTIME_BLE_ERR_INVALID (signal_load_pending s))"
| aborted: "bring_up (w_f w) (w_bt w) ch cfg (h, signal_load_pending s) = (os, h', s', None) \<Longrightarrow>
    chip_run w ch (Some cfg) (h, s) (LoadPending # os) (h', s')"
| served: "bring_up (w_f w) (w_bt w) ch cfg (h, signal_load_pending s) = (os, Some h1, s1, Some boxes) \<Longrightarrow>
    serve_role w cfg (h1, s1) os' (h2, s2) \<Longrightarrow>
    chip_run w ch (Some cfg) (h, s) (LoadPending # os @ os' @ load_log cfg ''[runtime-ble] unloaded; heap freed'')
      (Option.bind h2 (free_all boxes), s2)"

text \<open>\<^verbatim>\<open>runtime_ble_run\<close>; without a radio feature it only resets the requests.\<close>

inductive runtime_ble_run ::
  "('k, 'l, 'i, 'st) world \<Rightarrow> chip \<Rightarrow> RuntimeCfg option \<Rightarrow>
     heap \<times> shared \<Rightarrow> 'k load_out list \<Rightarrow> heap option \<times> shared \<Rightarrow> bool"
  for w ch cfgo where
  no_radio: "\<not> f_radio (w_f w) \<Longrightarrow> runtime_ble_run w ch cfgo (h, s) [] (Some h, runtime_ble_run_reset s)"
| radio: "f_radio (w_f w) \<Longrightarrow> chip_run w ch cfgo (h, runtime_ble_run_reset s) os r \<Longrightarrow>
    runtime_ble_run w ch cfgo (h, s) os r"

section \<open>What the paths have in common\<close>

fun is_signal :: "'k load_out \<Rightarrow> bool" where
  "is_signal LoadPending = True"
| "is_signal (LoadDone _) = True"
| "is_signal _ = False"

fun is_served :: "'k load_out \<Rightarrow> bool" where
  "is_served (LoadEvent _) = True"
| "is_served (LoadTask _) = True"
| "is_served _ = False"

lemma signals_other [simp]:
  "filter is_signal (load_log cfg m) = []" "filter is_signal (map LoadSdc ss) = []"
  "filter is_signal (map LoadTask ts) = []" "filter is_signal (start_events w cfg evs) = []"
  by (simp_all add: load_log_def start_events_def filter_empty_conv)

lemma served_other [simp]:
  "list_ex is_served (load_log cfg m) = False" "list_ex is_served (map LoadSdc ss) = False"
  by (simp_all add: load_log_def list_ex_iff)

lemma signal_simps [simp]:
  "LOAD_STATUS (signal_load_done st s) = st" "shared_inv (signal_load_done st s) = shared_inv s"
  "shared_inv (signal_load_pending s) = shared_inv s" "UNLOAD_REQ (signal_load_done st s) = UNLOAD_REQ s"
  "UNLOAD_REQ (signal_load_pending s) = UNLOAD_REQ s"
  by (simp_all add: signal_load_done_def signal_load_pending_def shared_inv_def channel_inv_defs)

text \<open>The status a load ends its bring-up with.\<close>

definition load_result :: "('k, 'l, 'i, 'st) world \<Rightarrow> chip \<Rightarrow> RuntimeCfg option \<Rightarrow> c_int" where
  "load_result w ch cfgo =
     (case cfgo of
        None \<Rightarrow> RUNTIME_BLE_ERR_INVALID
      | Some cfg \<Rightarrow>
          if \<not> c_mpsl_ok ch then RUNTIME_BLE_ERR_MPSL
          else if \<not> snd (build_sdc (w_f w) (c_mtu ch) (c_sdc_ok ch) (c_log_vec ch) (c_req_mem ch) cfg)
          then RUNTIME_BLE_ERR_SDC
          else RUNTIME_BLE_OK)"

lemma box_new_wf:
  "heap_wf h \<Longrightarrow> box_new h = (p, h') \<Longrightarrow> heap_wf h' \<and> hp_live h' = p # hp_live h"
  by (auto simp: box_new_def heap_wf_def less_Suc_eq)

text \<open>The three outcomes of the bring-up.\<close>

lemma bring_up_cases:
  assumes "bring_up (w_f w) (w_bt w) ch cfg (h, s) = (os, h', s', boxes)" "heap_wf h"
  obtains (abort) st where "boxes = None" "st = load_result w ch (Some cfg)" "st \<noteq> RUNTIME_BLE_OK"
      "filter is_signal os = [LoadDone st]" "s' = signal_load_done st s" "\<not> list_ex is_served os"
      "\<exists>h2. h' = Some h2 \<and> hp_live h2 = hp_live h"
  | (up) ps h1 where "boxes = Some ps" "load_result w ch (Some cfg) = RUNTIME_BLE_OK"
      "filter is_signal os = [LoadDone RUNTIME_BLE_OK]" "s' = signal_load_done RUNTIME_BLE_OK s"
      "\<not> list_ex is_served os" "h' = Some h1" "heap_wf h1" "hp_live h1 = ps @ hp_live h"
proof (cases "c_mpsl_ok ch")
  case False
  then show thesis using abort[of RUNTIME_BLE_ERR_MPSL] assms(1) by (auto simp: bring_up_def load_result_def result_codes)
next
  case True
  obtain mpsl h1 where b1: "box_new h = (mpsl, h1)" by fastforce
  obtain rng h2 where b2: "box_new h1 = (rng, h2)" by fastforce
  obtain mem h3 where b3: "box_new h2 = (mem, h3)" by fastforce
  obtain res h4 where b4: "box_new h3 = (res, h4)" by fastforce
  have w3: "heap_wf h3" "hp_live h3 = [mem, rng, mpsl] @ hp_live h"
    using box_new_wf[OF assms(2) b1] box_new_wf[OF _ b2] box_new_wf[OF _ b3] by auto
  have w4: "heap_wf h4" "hp_live h4 = [res, mem, rng, mpsl] @ hp_live h"
    using box_new_wf[OF w3(1) b4] w3(2) by auto
  obtain outs built where bs: "build_sdc (w_f w) (c_mtu ch) (c_sdc_ok ch) (c_log_vec ch) (c_req_mem ch) cfg = (outs, built)"
    by fastforce
  show thesis
  proof (cases built)
    case False
    then show thesis
      using abort[of RUNTIME_BLE_ERR_SDC] assms(1) True free_all_live[OF w3(2)] bs b1 b2 b3
      by (auto simp: bring_up_def load_result_def result_codes)
  next
    case built: True
    then show thesis
      using up[of "[res, mem, rng, mpsl]" h4] assms(1) True w4 bs b1 b2 b3 b4
      by (auto simp: bring_up_def load_result_def result_codes)
  qed
qed

lemma session_start_shared: "session_start e peripheral cfg s st = (evs, c) \<Longrightarrow> t_sh c = s \<and> t_per c = (if peripheral then Some AdvTop else None)"
  by (auto simp: session_start_def case_prod_beta)

lemma no_per_stays: "session_step e g cfg c os c' \<Longrightarrow> (t_per c' = None) = (t_per c = None)"
  by (induction rule: session_step.induct) (simp_all add: cen_over_def)

lemma serve_session_facts:
  assumes "serve_session w cfg (h, s) os (h', s')" "heap_wf h"
  shows "task_frame s s' \<and> filter is_signal os = [] \<and> (\<exists>h2. h' = Some h2 \<and> hp_live h2 = hp_live h)
    \<and> (if fst (build_gatt (w_f w) (e_gap (se_env (w_env w))) (w_att w) cfg (device_name cfg) h) = None
         then os = [] \<and> s' = s else UNLOAD_REQ s')"
proof -
  note bal = build_gatt_balanced[OF assms(2), where f = "w_f w" and gap = "e_gap (se_env (w_env w))" and ah = "w_att w"
      and cfg = cfg and name = "device_name cfg"]
  have per: "runs (session_step e g cfg) c os c' \<Longrightarrow> (t_per c' = None) = (t_per c = None)"
    for e :: "('a, 'b, 'c, 'd) senv" and g cfg os c c'
    by (induction rule: runs.induct) (auto dest: no_per_stays)
  show ?thesis
    using assms(1)
  proof (cases rule: serve_session.cases)
    case no_table
    then show ?thesis using bal by auto
  next
    case (table g h1 evs c os' c' rf)
    have "t_sh c = s" "t_per c \<noteq> None" using session_start_shared[OF table(5)] by simp_all
    moreover have "t_per c' \<noteq> None" using per[OF table(6)] \<open>t_per c \<noteq> None\<close> by simp
    moreover obtain h3 where "session_teardown g h1 = Some h3" "hp_live h3 = hp_live h"
      using bal table(4) by auto
    ultimately show ?thesis
      using session_frame[OF table(6)] table by (auto simp: session_ends_def)
  qed
qed

lemma serve_role_facts:
  assumes "serve_role w cfg (h, s) os (h', s')" "heap_wf h"
  shows "task_frame s s' \<and> filter is_signal os = [] \<and> (\<exists>h2. h' = Some h2 \<and> hp_live h2 = hp_live h)"
proof (cases "f_central (w_f w) \<and> cfg_role cfg = 1")
  case True
  then have "serve_central w cfg (h, s) os (h', s')" using assms(1) by (simp add: serve_role_def)
  then show ?thesis
  proof (cases rule: serve_central.cases)
    case (central evs c os' c' rf)
    then show ?thesis using session_frame[OF central(5)] session_start_shared[OF central(4)] central(1-3) by auto
  qed
next
  case False
  then have "serve_session w cfg (h, s) os (h', s')" using assms(1) by (auto simp: serve_role_def)
  then show ?thesis using serve_session_facts[OF _ assms(2)] by blast
qed

section \<open>Properties\<close>


text \<open>A load of both roles that is unloaded at once.\<close>

definition demo_world :: "(u8, 128 word, 128 word, (u8, 128 word, 128 word) bond list) world" where
  "demo_world = \<lparr>w_env = demo_senv, w_att = ex_host, w_bonds = [], w_oob = ([], [])\<rparr>"

definition demo_chip :: chip where
  "demo_chip = \<lparr>c_mpsl_ok = True, c_sdc_ok = (\<lambda>_. True), c_req_mem = (\<lambda>_. Some 9480), c_mtu = 27,
     c_log_vec = hvec_std 56, c_hw_addr = [1, 2, 3, 4, 5, 6]\<rparr>"

lemma ex_heap_wf: "heap_wf ex_heap"
  by (simp add: heap_wf_def ex_heap_def)

lemma demo_load_ok: "load_result demo_world demo_chip (Some demo_dual_cfg) = RUNTIME_BLE_OK"
  using demo_build by (auto simp: load_result_def demo_chip_def build_sdc_def sdc_chain_succeeds)

lemma build_gatt_accepts: "(\<And>n a. ah_gap_ok ah n a) \<Longrightarrow> \<exists>g h2. build_gatt f gap ah cfg name h = (Some g, Some h2)"
  by (simp add: build_gatt_def case_prod_beta Let_def)

lemma demo_chip_run:
  "\<exists>os h' s'. chip_run demo_world demo_chip (Some demo_dual_cfg) (ex_heap, shared_init) os (h', s')"
proof -
  obtain os h1 s1 boxes where up: "bring_up (w_f demo_world) (w_bt demo_world) demo_chip demo_dual_cfg
      (ex_heap, signal_load_pending shared_init) = (os, Some h1, s1, Some boxes)"
    by (simp add: bring_up_def demo_chip_def build_sdc_def sdc_chain_succeeds case_prod_beta Let_def)
  have "ah_gap_ok (w_att demo_world) n a" for n a by (simp add: demo_world_def ex_host_def)
  then obtain g h2 where g: "build_gatt (w_f demo_world) (e_gap (se_env (w_env demo_world))) (w_att demo_world) demo_dual_cfg
      (device_name demo_dual_cfg) h1 = (Some g, Some h2)"
    using build_gatt_accepts by metis
  obtain evs c where c: "session_start (w_env demo_world) True demo_dual_cfg s1 (w_bonds demo_world) = (evs, c)" by fastforce
  let ?c = "c\<lparr>t_per := Some AdvTop, t_sh := snd (api_step full_build ApiSignalUnload (t_sh c)), t_sl := t_sl c\<rparr>"
  have "per_step (se_env (w_env demo_world)) g demo_dual_cfg (AdvTop, t_sh c, t_sl c) []
      (AdvTop, snd (api_step full_build ApiSignalUnload (t_sh c)), t_sl c)"
    using per_app_call[of "se_env (w_env demo_world)" g demo_dual_cfg AdvTop "t_sh c" "t_sl c" ApiSignalUnload]
    by (simp add: demo_world_def demo_senv_def demo_env_def)
  then have step: "session_step (w_env demo_world) g demo_dual_cfg c (map SessPer []) ?c"
    by (intro per_turn) (use session_start_shared[OF c] in simp_all)
  have ends: "session_ends False ?c" by (simp add: session_ends_def runtime_ble_signal_unload_def)
  have "runs (session_step (w_env demo_world) g demo_dual_cfg) c (map SessPer []) ?c"
    using step by (rule runs_one)
  then have "serve_session demo_world demo_dual_cfg (h1, s1) (start_events demo_world demo_dual_cfg evs @ map LoadTask (map SessPer []))
      (session_teardown g h2, t_sh ?c)"
    using ends by (rule serve_session.table[OF g c])
  moreover have "cfg_role demo_dual_cfg = 2" by (simp add: demo_dual_cfg_def)
  ultimately have "serve_role demo_world demo_dual_cfg (h1, s1)
      (start_events demo_world demo_dual_cfg evs @ map LoadTask (map SessPer [])) (session_teardown g h2, t_sh ?c)"
    by (simp add: serve_role_def)
  then show ?thesis using served[OF up] by blast
qed






end
