(* ===== verification/Glue.thy ===== *)
theory Glue
  imports Load
begin

text \<open>
  The life cycle around \<^verbatim>\<open>runtime_ble_run\<close>: \<^verbatim>\<open>runtime_ble_load\<close> and
  \<^verbatim>\<open>runtime_ble_unload\<close> of \<^verbatim>\<open>glue/glue.c\<close>, which create the runtime thread on an allocated
  stack, wait for its report, join it and free the stack. The application thread inside
  these calls, the runtime threads and everything else interleave. A runtime thread is
  reduced to its phases, and the theory Load's cycle is shown to be such a thread.
\<close>

section \<open>The runtime thread\<close>

text \<open>\<open>Started\<close>: before the resets at the head of \<^verbatim>\<open>runtime_ble_run\<close>; \<open>Leaving\<close>: what is left
  after a failed bring-up or a session. The thread ends from \<open>Leaving\<close>.\<close>

datatype phase = Started | BringUp | Serving | Leaving

inductive thread_step ::
  "phase \<times> shared \<times> bool \<Rightarrow> unit list \<Rightarrow> phase \<times> shared \<times> bool \<Rightarrow> bool" where
  begins: "thread_step (Started, s, sem) [] (BringUp, signal_load_pending (runtime_ble_run_reset s), sem)"
| up: "thread_step (BringUp, s, sem) [] (Serving, signal_load_done RUNTIME_BLE_OK s, True)"
| failed: "st \<noteq> RUNTIME_BLE_OK \<Longrightarrow> thread_step (BringUp, s, sem) [] (Leaving, signal_load_done st s, True)"
| serves: "task_frame s s' \<Longrightarrow> thread_step (Serving, s, sem) [] (Serving, s', sem)"
| served: "thread_step (Serving, s, sem) [] (Leaving, s, sem)"

text \<open>A whole cycle of \<^verbatim>\<open>runtime_ble_run\<close> is such a thread, up to the point where it ends.\<close>

lemma chip_run_thread:
  assumes "chip_run w ch cfgo (h, runtime_ble_run_reset s) os (h', s')" "heap_wf h"
  shows "\<exists>us. runs thread_step (Started, s, sem) us (Leaving, s', True)"
proof -
  note one = runs_one[where step = thread_step] and cons = runs_cons[where step = thread_step]
  let ?s = "signal_load_pending (runtime_ble_run_reset s)"
  have fail: "\<exists>us. runs thread_step (Started, s, sem) us (Leaving, signal_load_done st ?s, True)"
    if "st \<noteq> RUNTIME_BLE_OK" for st
    using cons[OF begins one[OF failed[OF that]]] by blast
  show ?thesis
    using assms(1)
  proof (cases rule: chip_run.cases)
    case no_config
    then show ?thesis using fail[of RUNTIME_BLE_ERR_INVALID] by (simp add: result_codes)
  next
    case (aborted cfg os')
    show ?thesis by (rule bring_up_cases[OF aborted(3) assms(2)]) (use fail in auto)
  next
    case (served cfg os1 h1 s1 boxes os2 h2)
    show ?thesis
    proof (rule bring_up_cases[OF served(4) assms(2)])
      fix ps k
      assume up: "s1 = signal_load_done RUNTIME_BLE_OK ?s" "Some h1 = Some k" "heap_wf k"
      have "task_frame s1 s'" using serve_role_facts[OF served(5)] up(2,3) by auto
      then have "runs thread_step (Serving, s1, True) ([] @ []) (Leaving, s', True)"
        using cons[OF serves one[OF thread_step.served]] by blast
      then show ?thesis using cons[OF begins cons[OF thread_step.up]] up(1) by blast
    qed simp_all
  qed
qed

section \<open>The glue\<close>

definition RUNTIME_BLE_ERR_TIMEOUT :: c_int where "RUNTIME_BLE_ERR_TIMEOUT = -5"

text \<open>Where the application thread is inside \<^verbatim>\<open>runtime_ble_load\<close> and \<^verbatim>\<open>runtime_ble_unload\<close>.\<close>

datatype glue_pc = Outside | LoadWait | LoadJoin c_int | UnloadJoin

record glue =
  gl_pc :: glue_pc
  gl_loaded :: bool
  gl_stack :: "nat option"
  gl_irqs :: bool
  gl_load_sem :: bool
  gl_wake_sem :: bool
  gl_threads :: "(nat \<times> phase) list"
  gl_stacks :: "nat list"
  gl_next :: nat
  gl_sh :: shared

datatype glue_out = LoadReturns c_int | UnloadReturns c_int

definition stop_thread :: "glue \<Rightarrow> glue" where
  "stop_thread g = g\<lparr>gl_sh := runtime_ble_signal_unload (gl_sh g), gl_wake_sem := True\<rparr>"

text \<open>\<^verbatim>\<open>ble_irqs_set(false)\<close>, \<^verbatim>\<open>k_thread_stack_free\<close> and \<^verbatim>\<open>runtime_stack = NULL\<close>.\<close>

definition release :: "glue \<Rightarrow> glue" where
  "release g = g\<lparr>gl_pc := Outside, gl_irqs := False,
     gl_stacks := (case gl_stack g of None \<Rightarrow> gl_stacks g | Some k \<Rightarrow> removeAll k (gl_stacks g)), gl_stack := None\<rparr>"

text \<open>A thread and its stack, the statics of a session it may start on.\<close>

definition create_thread :: "glue \<Rightarrow> glue" where
  "create_thread g =
     (let k = gl_next g
      in g\<lparr>gl_pc := LoadWait, gl_stack := Some k, gl_stacks := k # gl_stacks g, gl_next := Suc k,
           gl_wake_sem := False, gl_load_sem := False, gl_irqs := True,
           gl_threads := gl_threads g @ [(k, Started)]\<rparr>)"

text \<open>\<open>hasty\<close> says whether a \<^verbatim>\<open>k_thread_join\<close> with a time limit may give up on a thread that
  is still running. The semaphore wait may give up at any time while nothing was reported.\<close>

inductive glue_step :: "bool \<Rightarrow> features \<Rightarrow> glue \<Rightarrow> glue_out list \<Rightarrow> glue \<Rightarrow> bool" for hasty f where
  load_again: "gl_pc g = Outside \<Longrightarrow> gl_loaded g \<Longrightarrow> glue_step hasty f g [LoadReturns RUNTIME_BLE_OK] g"
| load_no_stack: "gl_pc g = Outside \<Longrightarrow> \<not> gl_loaded g \<Longrightarrow>
    glue_step hasty f g [LoadReturns RUNTIME_BLE_ERR_NO_MEM] (g\<lparr>gl_stack := None\<rparr>)"
| load_creates: "gl_pc g = Outside \<Longrightarrow> \<not> gl_loaded g \<Longrightarrow> glue_step hasty f g [] (create_thread g)"
| load_ok: "gl_pc g = LoadWait \<Longrightarrow> gl_load_sem g \<Longrightarrow> runtime_ble_load_status (gl_sh g) = RUNTIME_BLE_OK \<Longrightarrow>
    glue_step hasty f g [LoadReturns RUNTIME_BLE_OK] (g\<lparr>gl_load_sem := False, gl_loaded := True, gl_pc := Outside\<rparr>)"
| load_failed: "gl_pc g = LoadWait \<Longrightarrow> gl_load_sem g \<Longrightarrow> runtime_ble_load_status (gl_sh g) = st \<Longrightarrow> st \<noteq> RUNTIME_BLE_OK \<Longrightarrow>
    glue_step hasty f g [] (stop_thread (g\<lparr>gl_load_sem := False, gl_pc := LoadJoin st\<rparr>))"
| load_timed_out: "gl_pc g = LoadWait \<Longrightarrow> \<not> gl_load_sem g \<Longrightarrow>
    glue_step hasty f g [] (stop_thread (g\<lparr>gl_pc := LoadJoin RUNTIME_BLE_ERR_TIMEOUT\<rparr>))"
| load_joined: "gl_pc g = LoadJoin st \<Longrightarrow> gl_threads g = [] \<or> hasty \<Longrightarrow>
    glue_step hasty f g [LoadReturns st] (release g)"
| unload_again: "gl_pc g = Outside \<Longrightarrow> \<not> gl_loaded g \<Longrightarrow> glue_step hasty f g [UnloadReturns RUNTIME_BLE_OK] g"
| unload_stops: "gl_pc g = Outside \<Longrightarrow> gl_loaded g \<Longrightarrow> glue_step hasty f g [] (stop_thread (g\<lparr>gl_pc := UnloadJoin\<rparr>))"
| unload_joined: "gl_pc g = UnloadJoin \<Longrightarrow> gl_threads g = [] \<Longrightarrow>
    glue_step hasty f g [UnloadReturns RUNTIME_BLE_OK] ((release g)\<lparr>gl_loaded := False\<rparr>)"
| thread_runs: "gl_threads g = ts @ (k, p) # ts' \<Longrightarrow> thread_step (p, gl_sh g, gl_load_sem g) us (p', s', sem) \<Longrightarrow>
    glue_step hasty f g [] (g\<lparr>gl_threads := ts @ (k, p') # ts', gl_sh := s', gl_load_sem := sem\<rparr>)"
| thread_ends: "gl_threads g = ts @ (k, Leaving) # ts' \<Longrightarrow> glue_step hasty f g [] (g\<lparr>gl_threads := ts @ ts'\<rparr>)"
| api_call: "glue_step hasty f g [] (g\<lparr>gl_sh := snd (api_step f c (gl_sh g))\<rparr>)"
| wakes: "glue_step hasty f g [] (g\<lparr>gl_wake_sem := b\<rparr>)"

definition glue_init :: glue where
  "glue_init = \<lparr>gl_pc = Outside, gl_loaded = False, gl_stack = None, gl_irqs = False, gl_load_sem = False,
     gl_wake_sem = False, gl_threads = [], gl_stacks = [], gl_next = 0, gl_sh = shared_init\<rparr>"

section \<open>Who owns the stack\<close>

text \<open>Outside and not loaded there is no thread, no stack and no interrupt; otherwise there is
  one stack, interrupts are on, and at most one thread, on that stack. What the load was told
  is what the thread published, and a thread that is being unloaded knows it.\<close>

fun owns :: "nat option \<Rightarrow> nat list \<Rightarrow> (nat \<times> phase) list \<Rightarrow> (phase \<Rightarrow> bool) \<Rightarrow> bool" where
  "owns (Some k) [k'] [] P = (k' = k)"
| "owns (Some k) [k'] [(k'', p)] P = (k' = k \<and> k'' = k \<and> P p)"
| "owns _ _ _ P = False"

definition one_thread :: "glue \<Rightarrow> (phase \<Rightarrow> bool) \<Rightarrow> bool" where
  "one_thread g P \<longleftrightarrow> gl_irqs g \<and> owns (gl_stack g) (gl_stacks g) (gl_threads g) P"

lemma owns_mono: "owns a b c P \<Longrightarrow> (\<And>p. P p \<Longrightarrow> Q p) \<Longrightarrow> owns a b c Q"
  by (induction a b c P rule: owns.induct) simp_all

lemma owns_threads: "owns a b c P \<Longrightarrow> c = [] \<or> (\<exists>x. c = [x])"
  by (induction a b c P rule: owns.induct) simp_all

lemma owns_thread: "owns a b [(k, p)] P \<longleftrightarrow> a = Some k \<and> b = [k] \<and> P p"
  by (cases a; cases b; cases "tl b") auto

lemma owns_none: "owns a b [] P \<longleftrightarrow> (\<exists>k. a = Some k \<and> b = [k])"
  by (cases a; cases b; cases "tl b") auto

lemmas owns_simps = owns_thread owns_none

definition glue_inv :: "glue \<Rightarrow> bool" where
  "glue_inv g \<longleftrightarrow>
     (case gl_pc g of
        Outside \<Rightarrow>
          if gl_loaded g then one_thread g (\<lambda>p. p = Serving \<or> p = Leaving) \<and> LOAD_STATUS (gl_sh g) = RUNTIME_BLE_OK
          else gl_threads g = [] \<and> gl_stacks g = [] \<and> gl_stack g = None \<and> \<not> gl_irqs g
      | LoadWait \<Rightarrow> \<not> gl_loaded g \<and>
          one_thread g (\<lambda>p. gl_load_sem g = (p = Serving \<or> p = Leaving) \<and> (p = Serving \<longrightarrow> LOAD_STATUS (gl_sh g) = RUNTIME_BLE_OK))
          \<and> (gl_threads g = [] \<longrightarrow> gl_load_sem g)
      | LoadJoin st \<Rightarrow> \<not> gl_loaded g \<and> one_thread g (\<lambda>_. True) \<and> st \<noteq> RUNTIME_BLE_OK
      | UnloadJoin \<Rightarrow> gl_loaded g \<and> one_thread g (\<lambda>p. p = Serving \<or> p = Leaving) \<and> UNLOAD_REQ (gl_sh g)
          \<and> LOAD_STATUS (gl_sh g) = RUNTIME_BLE_OK)"

lemma single_split: "xs = ts @ x # ts' \<Longrightarrow> xs = [y] \<Longrightarrow> ts = [] \<and> ts' = [] \<and> x = y"
  by (cases ts) auto

lemma glue_inv_frame:
  assumes "glue_inv g" "gl_threads g' = gl_threads g" "gl_pc g' = gl_pc g" "gl_loaded g' = gl_loaded g" "gl_stack g' = gl_stack g"
    "gl_stacks g' = gl_stacks g" "gl_irqs g' = gl_irqs g" "gl_load_sem g' = gl_load_sem g"
    "LOAD_STATUS (gl_sh g') = LOAD_STATUS (gl_sh g)" "UNLOAD_REQ (gl_sh g) \<longrightarrow> UNLOAD_REQ (gl_sh g')"
  shows "glue_inv g'"
proof -
  have "one_thread g' P = one_thread g P" for P using assms(2-7) by (simp only: one_thread_def)
  then show ?thesis using assms by (cases "gl_pc g") (auto simp: glue_inv_def)
qed

lemma glue_inv_threads: "glue_inv g \<Longrightarrow> gl_threads g = [] \<or> (\<exists>x. gl_threads g = [x])"
  by (cases "gl_pc g"; cases "gl_loaded g") (auto simp: glue_inv_def one_thread_def dest: owns_threads)

lemma glue_inv_only:
  "glue_inv g \<Longrightarrow> gl_threads g = ts @ (k, p) # ts' \<Longrightarrow> ts = [] \<and> ts' = [] \<and> gl_threads g = [(k, p)]"
  using glue_inv_threads[of g] single_split[of "gl_threads g" ts "(k, p)" ts'] by auto

lemma glue_inv_thread:
  assumes "glue_inv g" "gl_threads g = [(k, p)]" "thread_step (p, gl_sh g, gl_load_sem g) us (p', s', sem)"
  shows "glue_inv (g\<lparr>gl_threads := [(k, p')], gl_sh := s', gl_load_sem := sem\<rparr>)"
  using assms(3)
proof (cases rule: thread_step.cases)
  case begins
  then show ?thesis using assms(1,2) by (cases "gl_pc g"; cases "gl_loaded g") (auto simp: glue_inv_def one_thread_def owns_simps)
next
  case up
  then show ?thesis using assms(1,2) by (cases "gl_pc g"; cases "gl_loaded g") (auto simp: glue_inv_def one_thread_def owns_simps)
next
  case (failed st)
  then show ?thesis using assms(1,2) by (cases "gl_pc g"; cases "gl_loaded g") (auto simp: glue_inv_def one_thread_def owns_simps)
next
  case serves
  then show ?thesis using assms(1,2)
    by (cases "gl_pc g"; cases "gl_loaded g") (auto simp: glue_inv_def one_thread_def task_frame_def owns_simps)
next
  case served
  then show ?thesis using assms(1,2) by (cases "gl_pc g"; cases "gl_loaded g") (auto simp: glue_inv_def one_thread_def owns_simps)
qed

lemma glue_inv_thread_ends:
  "glue_inv g \<Longrightarrow> gl_threads g = [(k, Leaving)] \<Longrightarrow> glue_inv (g\<lparr>gl_threads := []\<rparr>)"
  by (cases "gl_pc g"; cases "gl_loaded g") (auto simp: glue_inv_def one_thread_def owns_simps)

definition returns_agree :: "bool \<Rightarrow> glue_out \<Rightarrow> bool" where
  "returns_agree loaded x = (case x of LoadReturns st \<Rightarrow> (st = RUNTIME_BLE_OK) = loaded | UnloadReturns r \<Rightarrow> \<not> loaded)"

lemma glue_keeps:
  assumes "glue_step False f g os g'" "glue_inv g"
  shows "glue_inv g' \<and> list_all (returns_agree (gl_loaded g')) os"
  using assms
proof (cases rule: glue_step.cases)
  case load_ok
  have "owns (gl_stack g) (gl_stacks g) (gl_threads g) (\<lambda>p. p = Serving \<or> p = Leaving)"
    using load_ok assms(2) by (auto simp: glue_inv_def one_thread_def elim!: owns_mono)
  then show ?thesis using load_ok assms(2)
    by (simp add: glue_inv_def one_thread_def returns_agree_def runtime_ble_load_status_def)
next
  case load_creates
  then show ?thesis using assms(2) by (auto simp: glue_inv_def one_thread_def create_thread_def Let_def)
next
  case (load_joined st)
  then show ?thesis using assms(2) by (auto simp: glue_inv_def one_thread_def release_def returns_agree_def owns_simps)
next
  case unload_stops
  then show ?thesis using assms(2)
    by (auto simp: glue_inv_def one_thread_def stop_thread_def runtime_ble_signal_unload_def)
next
  case unload_joined
  then show ?thesis using assms(2) by (auto simp: glue_inv_def one_thread_def release_def returns_agree_def owns_simps)
next
  case (thread_runs ts k p ts' us p' s' sem)
  then show ?thesis using glue_inv_only[OF assms(2), of ts k p ts'] glue_inv_thread[OF assms(2)] by auto
next
  case (thread_ends ts k ts')
  then show ?thesis using glue_inv_only[OF assms(2), of ts k Leaving ts'] glue_inv_thread_ends[OF assms(2)] by auto
next
  case (api_call c)
  then show ?thesis using glue_inv_frame[OF assms(2)] by (simp add: api_step_load api_step_unload)
next
  case (wakes b)
  then show ?thesis using glue_inv_frame[OF assms(2)] by simp
next
  case (load_failed st)
  then show ?thesis using assms(2) by (auto simp: glue_inv_def one_thread_def stop_thread_def elim!: owns_mono)
next
  case load_timed_out
  then show ?thesis using assms(2)
    by (auto simp: glue_inv_def one_thread_def stop_thread_def RUNTIME_BLE_ERR_TIMEOUT_def result_codes elim!: owns_mono)
next
  case load_no_stack
  then show ?thesis using assms(2) by (simp add: glue_inv_def returns_agree_def result_codes)
qed (simp_all add: returns_agree_def)

interpretation glue: step_invariant "glue_step False f" glue_inv "\<lambda>_. True"
  by unfold_locales (auto dest: glue_keeps simp: list_all_iff)

lemma glue_inv_init: "glue_inv glue_init"
  by (simp add: glue_inv_def glue_init_def)

lemma glue_reaches: "runs (glue_step False f) glue_init os g \<Longrightarrow> glue_inv g"
  using glue.runs_keep[OF _ glue_inv_init] by blast

lemma glue_inv_safe:
  "glue_inv g \<Longrightarrow> list_all (\<lambda>(k, p). k \<in> set (gl_stacks g) \<and> gl_irqs g) (gl_threads g)
     \<and> (gl_loaded g \<longrightarrow> LOAD_STATUS (gl_sh g) = RUNTIME_BLE_OK)
     \<and> (gl_pc g = Outside \<and> \<not> gl_loaded g \<longrightarrow> gl_threads g = [] \<and> gl_stacks g = [] \<and> \<not> gl_irqs g)"
  using glue_inv_threads[of g]
  by (cases "gl_pc g"; cases "gl_loaded g") (auto simp: glue_inv_def one_thread_def owns_simps)

section \<open>Properties\<close>

text \<open>C5 (glue_lifecycle). In every interleaving of loads, unloads, the runtime thread, API calls and
  expiring waits in which no join gives up on a running thread: a runtime thread always has
  its stack and its interrupts; outside of the two calls and not loaded, there is no
  thread, no allocated stack and no enabled interrupt; while loaded the published status is
  \<open>RUNTIME_BLE_OK\<close>. A load returns \<open>RUNTIME_BLE_OK\<close> exactly if it leaves the runtime loaded.\<close>

theorem glue_lifecycle:
  assumes "runs (glue_step False f) glue_init os g" "glue_step False f g us g'"
  shows "list_all (\<lambda>(k, p). k \<in> set (gl_stacks g') \<and> gl_irqs g') (gl_threads g')
     \<and> (gl_loaded g' \<longrightarrow> runtime_ble_load_status (gl_sh g') = RUNTIME_BLE_OK)
     \<and> (gl_pc g' = Outside \<and> \<not> gl_loaded g' \<longrightarrow> gl_threads g' = [] \<and> gl_stacks g' = [] \<and> \<not> gl_irqs g')
     \<and> list_all (returns_agree (gl_loaded g')) us"
  using glue_keeps[OF assms(2) glue_reaches[OF assms(1)]] glue_inv_safe[of g'] by (simp add: runtime_ble_load_status_def)

lemma glue_demo_wait:
  "runs (glue_step hasty f) glue_init [] (create_thread glue_init)"
proof -
  have "glue_step hasty f glue_init [] (create_thread glue_init)" by (rule load_creates) (simp_all add: glue_init_def)
  from runs_one[where step = "glue_step hasty f", OF this] show ?thesis .
qed

lemma glue_thread_moves:
  assumes "gl_threads g = [(k, p)]" "thread_step (p, gl_sh g, gl_load_sem g) us (p', s', sem)"
  shows "glue_step hasty f g [] (g\<lparr>gl_threads := [(k, p')], gl_sh := s', gl_load_sem := sem\<rparr>)"
  using thread_runs[of g "[]" k p "[]" us p' s' sem hasty f] assms by simp

theorem glue_lifecycle_witness:
  "\<exists>g'. glue_step False full_build (create_thread glue_init) [] g' \<and> gl_threads g' = [(0, BringUp)] \<and> gl_stacks g' = [0]
     \<and> gl_irqs g'"
proof -
  let ?g = "create_thread glue_init"
  have t: "gl_threads ?g = [(0, Started)]" by (simp add: create_thread_def glue_init_def)
  obtain g' where g': "glue_step False full_build ?g [] g'" "gl_threads g' = [(0, BringUp)]" "gl_stacks g' = [0]"
    using glue_thread_moves[OF t begins, of False full_build] by (fastforce simp: create_thread_def glue_init_def)
  show ?thesis using glue_lifecycle[OF glue_demo_wait g'(1)] g' by auto
qed


text \<open>A load that succeeds, then an unload.\<close>

lemma glue_demo_unload:
  "\<exists>g. runs (glue_step False f) glue_init [LoadReturns RUNTIME_BLE_OK] g \<and> gl_pc g = UnloadJoin"
proof -
  note one = runs_one[where step = "glue_step False f"] and cons = runs_cons[where step = "glue_step False f"]
  let ?g1 = "create_thread glue_init"
  have t1: "gl_threads ?g1 = [(0, Started)]" by (simp add: create_thread_def glue_init_def)
  let ?g2 = "?g1\<lparr>gl_threads := [(0, BringUp)], gl_sh := signal_load_pending (runtime_ble_run_reset (gl_sh ?g1)),
      gl_load_sem := gl_load_sem ?g1\<rparr>"
  have 2: "glue_step False f ?g1 [] ?g2" by (rule glue_thread_moves[OF t1 begins])
  let ?g3 = "?g2\<lparr>gl_threads := [(0, Serving)], gl_sh := signal_load_done RUNTIME_BLE_OK (gl_sh ?g2), gl_load_sem := True\<rparr>"
  have 3: "glue_step False f ?g2 [] ?g3" by (rule glue_thread_moves[OF _ up]) simp
  let ?g4 = "?g3\<lparr>gl_load_sem := False, gl_loaded := True, gl_pc := Outside\<rparr>"
  have 4: "glue_step False f ?g3 [LoadReturns RUNTIME_BLE_OK] ?g4"
    by (rule load_ok) (simp_all add: create_thread_def glue_init_def Let_def runtime_ble_load_status_def)
  have 5: "glue_step False f ?g4 [] (stop_thread (?g4\<lparr>gl_pc := UnloadJoin\<rparr>))" by (rule unload_stops) simp_all
  have "runs (glue_step False f) ?g1 ([] @ [] @ [LoadReturns RUNTIME_BLE_OK] @ []) (stop_thread (?g4\<lparr>gl_pc := UnloadJoin\<rparr>))"
    by (rule cons[OF 2 cons[OF 3 cons[OF 4 one[OF 5]]]])
  from runs_append[where step = "glue_step False f", OF this glue_demo_wait]
  show ?thesis by (auto simp: stop_thread_def intro!: exI)
qed



end
