(* ===== verification/Interrupts.thy ===== *)
theory Interrupts
  imports Glue
begin

text \<open>
  The interrupts of the radio and the device address: the handlers bound in
  \<^verbatim>\<open>chip/nrf54l.rs\<close> and \<^verbatim>\<open>chip/nrf52.rs\<close>, the C shims that call them, and what
  \<^verbatim>\<open>glue/glue.c\<close> connects at boot and switches with each session. The handlers themselves
  are the MPSL crate's. A line has the name of the Rust interrupt type; the vendor's headers
  write \<^verbatim>\<open>SWI0_EGU0_IRQn\<close> for \<open>EGU0_SWI0\<close>.
\<close>

section \<open>The Rust side\<close>

datatype soc = NRF54L | NRF52

datatype irq_line =
  SWI00 | EGU0_SWI0 | CLOCK_POWER | RADIO_0 | RADIO | TIMER10 | TIMER0 | GRTC_3 | RTC0 | Other nat

datatype irq_handler = LowPrioInterruptHandler | ClockInterruptHandler | HighPrioInterruptHandler

text \<open>\<^verbatim>\<open>unsafe impl Binding<line, handler> for Irqs\<close>: what MPSL is promised.\<close>

fun nrf54l_binding :: "irq_line \<Rightarrow> irq_handler option" where
  "nrf54l_binding SWI00 = Some LowPrioInterruptHandler"
| "nrf54l_binding CLOCK_POWER = Some ClockInterruptHandler"
| "nrf54l_binding RADIO_0 = Some HighPrioInterruptHandler"
| "nrf54l_binding TIMER10 = Some HighPrioInterruptHandler"
| "nrf54l_binding GRTC_3 = Some HighPrioInterruptHandler"
| "nrf54l_binding _ = None"

fun nrf52_binding :: "irq_line \<Rightarrow> irq_handler option" where
  "nrf52_binding EGU0_SWI0 = Some LowPrioInterruptHandler"
| "nrf52_binding CLOCK_POWER = Some ClockInterruptHandler"
| "nrf52_binding RADIO = Some HighPrioInterruptHandler"
| "nrf52_binding TIMER0 = Some HighPrioInterruptHandler"
| "nrf52_binding RTC0 = Some HighPrioInterruptHandler"
| "nrf52_binding _ = None"

definition irq_binding :: "soc \<Rightarrow> irq_line \<Rightarrow> irq_handler option" where
  "irq_binding soc = (case soc of NRF54L \<Rightarrow> nrf54l_binding | NRF52 \<Rightarrow> nrf52_binding)"

text \<open>The shims, and the handler each runs for which line; \<open>None\<close> where the chip has no such
  shim.\<close>

datatype irq_shim =
  runtime_irq_radio | runtime_irq_timer10 | runtime_irq_grtc3 | runtime_irq_clock_power | runtime_irq_swi00
| runtime_irq_timer0 | runtime_irq_rtc0 | runtime_irq_egu0_swi0

fun nrf54l_shim :: "irq_shim \<Rightarrow> (irq_handler \<times> irq_line) option" where
  "nrf54l_shim runtime_irq_radio = Some (HighPrioInterruptHandler, RADIO_0)"
| "nrf54l_shim runtime_irq_timer10 = Some (HighPrioInterruptHandler, TIMER10)"
| "nrf54l_shim runtime_irq_grtc3 = Some (HighPrioInterruptHandler, GRTC_3)"
| "nrf54l_shim runtime_irq_clock_power = Some (ClockInterruptHandler, CLOCK_POWER)"
| "nrf54l_shim runtime_irq_swi00 = Some (LowPrioInterruptHandler, SWI00)"
| "nrf54l_shim _ = None"

fun nrf52_shim :: "irq_shim \<Rightarrow> (irq_handler \<times> irq_line) option" where
  "nrf52_shim runtime_irq_radio = Some (HighPrioInterruptHandler, RADIO)"
| "nrf52_shim runtime_irq_timer0 = Some (HighPrioInterruptHandler, TIMER0)"
| "nrf52_shim runtime_irq_rtc0 = Some (HighPrioInterruptHandler, RTC0)"
| "nrf52_shim runtime_irq_egu0_swi0 = Some (LowPrioInterruptHandler, EGU0_SWI0)"
| "nrf52_shim runtime_irq_clock_power = Some (ClockInterruptHandler, CLOCK_POWER)"
| "nrf52_shim _ = None"

definition irq_shim_calls :: "soc \<Rightarrow> irq_shim \<Rightarrow> (irq_handler \<times> irq_line) option" where
  "irq_shim_calls soc = (case soc of NRF54L \<Rightarrow> nrf54l_shim | NRF52 \<Rightarrow> nrf52_shim)"

section \<open>The C side\<close>

text \<open>The vector table (a line's priority and entry) and the enable bits. The entries that are
  not the runtime's are another party's, with a shim of its own.\<close>

datatype irq_entry = Runtime irq_shim | Foreign nat

record irq_ctrl =
  ic_vector :: "irq_line \<Rightarrow> (nat \<times> irq_entry) option"
  ic_enabled :: "irq_line \<Rightarrow> bool"

definition IRQ_CONNECT :: "irq_line \<Rightarrow> nat \<Rightarrow> irq_shim \<Rightarrow> irq_ctrl \<Rightarrow> irq_ctrl" where
  "IRQ_CONNECT l prio sh ic = ic\<lparr>ic_vector := (ic_vector ic)(l \<mapsto> (prio, Runtime sh))\<rparr>"

fun runtime_glue_init :: "soc \<Rightarrow> irq_ctrl \<Rightarrow> irq_ctrl" where
  "runtime_glue_init NRF54L ic =
     IRQ_CONNECT SWI00 4 runtime_irq_swi00
       (IRQ_CONNECT GRTC_3 0 runtime_irq_grtc3
         (IRQ_CONNECT TIMER10 0 runtime_irq_timer10 (IRQ_CONNECT RADIO_0 0 runtime_irq_radio ic)))"
| "runtime_glue_init NRF52 ic =
     IRQ_CONNECT EGU0_SWI0 4 runtime_irq_egu0_swi0
       (IRQ_CONNECT RTC0 0 runtime_irq_rtc0
         (IRQ_CONNECT TIMER0 0 runtime_irq_timer0 (IRQ_CONNECT RADIO 0 runtime_irq_radio ic)))"

fun session_lines :: "soc \<Rightarrow> irq_line list" where
  "session_lines NRF54L = [RADIO_0, TIMER10, GRTC_3, SWI00]"
| "session_lines NRF52 = [RADIO, TIMER0, RTC0, EGU0_SWI0]"

definition ble_irqs_set :: "soc \<Rightarrow> bool \<Rightarrow> irq_ctrl \<Rightarrow> irq_ctrl" where
  "ble_irqs_set soc en ic = fold (\<lambda>l ic. ic\<lparr>ic_enabled := (ic_enabled ic)(l := en)\<rparr>) (session_lines soc) ic"

text \<open>What the processor runs when a line is raised, with its priority.\<close>

definition taken :: "irq_ctrl \<Rightarrow> irq_line \<Rightarrow> (nat \<times> irq_entry) option" where
  "taken ic l = (if ic_enabled ic l then ic_vector ic l else None)"

definition handler_priority :: "irq_handler \<Rightarrow> nat" where
  "handler_priority h = (case h of LowPrioInterruptHandler \<Rightarrow> 4 | _ \<Rightarrow> 0)"

text \<open>A taken line runs the handler that is bound to it, for that line, at the handler's
  priority.\<close>

definition runs_bound :: "soc \<Rightarrow> irq_ctrl \<Rightarrow> irq_line \<Rightarrow> bool" where
  "runs_bound soc ic l =
     (case (taken ic l, irq_binding soc l) of
        (Some (prio, Runtime sh), Some h) \<Rightarrow> irq_shim_calls soc sh = Some (h, l) \<and> prio = handler_priority h
      | _ \<Rightarrow> False)"

lemma fold_enable:
  "fold (\<lambda>l ic. ic\<lparr>ic_enabled := (ic_enabled ic)(l := en)\<rparr>) ls ic
     = ic\<lparr>ic_enabled := (\<lambda>l. if l \<in> set ls then en else ic_enabled ic l)\<rparr>"
  by (induction ls arbitrary: ic) (auto simp: fun_eq_iff)

lemma ble_irqs_set_eq:
  "ble_irqs_set soc en ic = ic\<lparr>ic_enabled := (\<lambda>l. if l \<in> set (session_lines soc) then en else ic_enabled ic l)\<rparr>"
  by (simp only: ble_irqs_set_def fold_enable)

lemma taken_set:
  "taken (ble_irqs_set soc en ic) l = (if l \<in> set (session_lines soc) then if en then ic_vector ic l else None else taken ic l)"
  by (simp add: ble_irqs_set_eq taken_def)

lemma taken_foreign:
  "l \<notin> set (session_lines soc) \<Longrightarrow> taken (ble_irqs_set soc en (runtime_glue_init soc ic)) l = taken ic l"
  unfolding taken_set by (cases soc) (auto simp: taken_def IRQ_CONNECT_def)

lemma runs_bound_enabled:
  "l \<in> set (session_lines soc) \<Longrightarrow> runs_bound soc (ble_irqs_set soc True (runtime_glue_init soc ic)) l"
  by (cases soc)
    (auto simp: runs_bound_def taken_set IRQ_CONNECT_def irq_binding_def irq_shim_calls_def handler_priority_def)

text \<open>Every line MPSL is promised is switched with the session, but the clock's, which Zephyr
  keeps.\<close>

lemma bound_lines: "irq_binding soc l \<noteq> None \<longleftrightarrow> l = CLOCK_POWER \<or> l \<in> set (session_lines soc)"
  by (cases soc; cases l) (simp_all add: irq_binding_def)

section \<open>Over the life cycle\<close>

text \<open>The interrupt controller in a state of the glue: \<^verbatim>\<open>runtime_glue_init\<close> ran once, and
  \<open>gl_irqs\<close> is the last argument of \<^verbatim>\<open>ble_irqs_set\<close>.\<close>

definition irqs_in :: "soc \<Rightarrow> irq_ctrl \<Rightarrow> glue \<Rightarrow> irq_ctrl" where
  "irqs_in soc ic g = ble_irqs_set soc (gl_irqs g) (runtime_glue_init soc ic)"

lemma ble_irqs_set_again: "ble_irqs_set soc en (ble_irqs_set soc en' ic) = ble_irqs_set soc en ic"
  by (simp add: ble_irqs_set_eq fun_eq_iff)

text \<open>Result (interrupts_follow_thread). In every interleaving of the life cycle in which no
  join gives up: while a runtime thread lives, every interrupt MPSL is promised, but the
  clock's, runs the handler bound to it at that handler's priority; when the runtime is not
  loaded none of them is taken. All other lines are as Zephyr has them throughout.\<close>

theorem interrupts_follow_thread:
  assumes "runs (glue_step False f) glue_init os g"
  shows "(gl_threads g \<noteq> [] \<longrightarrow> (\<forall>l. irq_binding soc l \<noteq> None \<and> l \<noteq> CLOCK_POWER \<longrightarrow> runs_bound soc (irqs_in soc ic g) l))
     \<and> (gl_pc g = Outside \<and> \<not> gl_loaded g \<longrightarrow>
          (\<forall>l. irq_binding soc l \<noteq> None \<and> l \<noteq> CLOCK_POWER \<longrightarrow> taken (irqs_in soc ic g) l = None))
     \<and> (\<forall>l. irq_binding soc l = None \<or> l = CLOCK_POWER \<longrightarrow> taken (irqs_in soc ic g) l = taken ic l)"
proof -
  have safe: "gl_threads g \<noteq> [] \<Longrightarrow> gl_irqs g" "gl_pc g = Outside \<and> \<not> gl_loaded g \<Longrightarrow> \<not> gl_irqs g"
    using glue_inv_safe[OF glue_reaches[OF assms]] by (cases "gl_threads g"; auto)+
  have other: "CLOCK_POWER \<notin> set (session_lines soc)" by (cases soc) simp_all
  have lines: "irq_binding soc l \<noteq> None \<and> l \<noteq> CLOCK_POWER \<longleftrightarrow> l \<in> set (session_lines soc)"
    "irq_binding soc l = None \<or> l = CLOCK_POWER \<longleftrightarrow> l \<notin> set (session_lines soc)" for l
    using bound_lines[of soc l] other by auto
  show ?thesis
    unfolding lines irqs_in_def
    using safe runs_bound_enabled[of _ soc ic] taken_foreign[of _ soc _ ic] by (simp add: taken_set)
qed

section \<open>The device address\<close>

text \<open>\<open>hwid\<close> is the eight byte buffer after \<^verbatim>\<open>hwinfo_get_device_id\<close>, \<open>len\<close> what that returned
  (negative for an error).\<close>

definition addr_fallback :: "u8 list" where
  "addr_fallback = [0x52, 0x55, 0x4e, 0x42, 0x4c, 0x45]"

definition runtime_ble_addr :: "u8 list \<Rightarrow> int \<Rightarrow> u8 list" where
  "runtime_ble_addr hwid len =
     (let src = (if 6 \<le> len then hwid else addr_fallback);
          out = map (\<lambda>i. src ! i) [0..<6]
      in out[5 := (out ! 5 AND 0x3F) OR 0xC0])"

lemma static_random_bits: "((b AND 0x3F) OR 0xC0) AND 0xC0 = (0xC0 :: u8)"
  by (rule bit_word_eqI) (auto simp: bit_simps)

text \<open>Result (hw_address_is_static_random). Without a configured address the device uses a
  static random address: six bytes, the top two bits set, the other 46 from the device id or
  from the fallback.\<close>

theorem hw_address_is_static_random:
  assumes "cfg_address cfg = None"
  shows "addr_kind (device_address bt (runtime_ble_addr hwid len) cfg) = ak_random bt
     \<and> length (addr_raw (device_address bt (runtime_ble_addr hwid len) cfg)) = 6
     \<and> addr_raw (device_address bt (runtime_ble_addr hwid len) cfg) ! 5 AND 0xC0 = 0xC0
     \<and> (\<forall>i<5. addr_raw (device_address bt (runtime_ble_addr hwid len) cfg) ! i = (if 6 \<le> len then hwid else addr_fallback) ! i)"
  using assms by (simp add: device_address_def runtime_ble_addr_def Let_def static_random_bits)

end
