(* ===== verification/ZephyrHeap.thy ===== *)
theory ZephyrHeap
  imports Prelude
begin

text \<open>
  The global allocator of \<^verbatim>\<open>lib.rs\<close> over the Zephyr heap. The heap is a parameter with
  the laws its documentation states; the allocator is shown to keep the contract of
  \<^verbatim>\<open>core::alloc::GlobalAlloc\<close>, on which every box of the theories Gatt and Load rests.
\<close>

section \<open>The Zephyr heap\<close>

text \<open>\<open>k_live\<close> is the set of allocated blocks, address and size; a null pointer is \<open>None\<close>.\<close>

record 'h kheap =
  k_aligned_alloc :: "nat \<Rightarrow> nat \<Rightarrow> 'h \<Rightarrow> nat option \<times> 'h"
  k_free :: "nat option \<Rightarrow> 'h \<Rightarrow> 'h"
  k_live :: "'h \<Rightarrow> (nat \<times> nat) set"

definition apart :: "nat \<times> nat \<Rightarrow> nat \<times> nat \<Rightarrow> bool" where
  "apart b c \<longleftrightarrow> fst b + snd b \<le> fst c \<or> fst c + snd c \<le> fst b"

text \<open>An alignment \<^verbatim>\<open>k_aligned_alloc\<close> takes: a power of two and a multiple of the size of a
  pointer.\<close>

definition k_align_ok :: "nat \<Rightarrow> bool" where
  "k_align_ok a \<longleftrightarrow> (\<exists>n. a = 2 ^ n) \<and> 4 dvd a"

definition kheap_ok :: "'h kheap \<Rightarrow> bool" where
  "kheap_ok K \<longleftrightarrow>
     (\<forall>a n h. k_align_ok a \<longrightarrow>
        (case k_aligned_alloc K a n h of
           (None, h') \<Rightarrow> k_live K h' = k_live K h
         | (Some p, h') \<Rightarrow> p \<noteq> 0 \<and> a dvd p \<and> (\<forall>b\<in>k_live K h. apart (p, n) b) \<and> k_live K h' = insert (p, n) (k_live K h)))
   \<and> (\<forall>h. k_live K (k_free K None h) = k_live K h)
   \<and> (\<forall>p h. p \<in> fst ` k_live K h \<longrightarrow> k_live K (k_free K (Some p) h) = {b \<in> k_live K h. fst b \<noteq> p})"

section \<open>The allocator\<close>

record layout =
  layout_size :: nat
  layout_align :: nat

text \<open>\<^verbatim>\<open>Layout\<close> promises an alignment that is a power of two; an allocation is of at least one
  byte. \<^verbatim>\<open>size_of::<usize>()\<close> is 4.\<close>

definition layout_ok :: "layout \<Rightarrow> bool" where
  "layout_ok l \<longleftrightarrow> (\<exists>n. layout_align l = 2 ^ n) \<and> 0 < layout_size l"

definition zephyr_alloc :: "'h kheap \<Rightarrow> layout \<Rightarrow> 'h \<Rightarrow> nat option \<times> 'h" where
  "zephyr_alloc K l = k_aligned_alloc K (max (layout_align l) 4) (layout_size l)"

definition zephyr_dealloc :: "'h kheap \<Rightarrow> nat \<Rightarrow> layout \<Rightarrow> 'h \<Rightarrow> 'h" where
  "zephyr_dealloc K p l = k_free K (Some p)"

lemma asked_alignment:
  assumes "layout_ok l"
  shows "k_align_ok (max (layout_align l) 4)" "layout_align l dvd max (layout_align l) 4"
proof -
  obtain n where n: "layout_align l = 2 ^ n" using assms by (auto simp: layout_ok_def)
  have "mono (\<lambda>k. (2 :: nat) ^ k)" by (rule monoI) (simp add: power_increasing)
  from max_of_mono[OF this, of n 2] have m: "max (layout_align l) 4 = 2 ^ max n 2" by (simp add: n)
  have "(2 :: nat) ^ 2 dvd 2 ^ max n 2" by (rule le_imp_power_dvd) simp
  then show "k_align_ok (max (layout_align l) 4)" by (auto simp: m k_align_ok_def)
  have "(2 :: nat) ^ n dvd 2 ^ max n 2" by (rule le_imp_power_dvd) simp
  then show "layout_align l dvd max (layout_align l) 4" by (subst m) (simp only: n)
qed

lemma k_aligned_allocD:
  assumes "kheap_ok K" "k_align_ok a" "k_aligned_alloc K a n h = (r, h')"
  shows "case r of None \<Rightarrow> k_live K h' = k_live K h
     | Some p \<Rightarrow> p \<noteq> 0 \<and> a dvd p \<and> (\<forall>b\<in>k_live K h. apart (p, n) b) \<and> k_live K h' = insert (p, n) (k_live K h)"
proof -
  have "case k_aligned_alloc K a n h of
           (None, h') \<Rightarrow> k_live K h' = k_live K h
         | (Some p, h') \<Rightarrow> p \<noteq> 0 \<and> a dvd p \<and> (\<forall>b\<in>k_live K h. apart (p, n) b) \<and> k_live K h' = insert (p, n) (k_live K h)"
    using assms(1,2) by (simp add: kheap_ok_def)
  then show ?thesis by (simp add: assms(3) split: option.splits)
qed

text \<open>Result (allocator_contract). A block the allocator returns has the alignment of its
  layout, overlaps no live block, and is what its deallocation releases, and nothing else;
  an allocation that fails leaves the heap as it was.\<close>

theorem allocator_contract:
  assumes "kheap_ok K" "layout_ok l" "\<forall>b\<in>k_live K h. 0 < snd b"
  shows "zephyr_alloc K l h = (Some p, h') \<Longrightarrow>
     p \<noteq> 0 \<and> layout_align l dvd p \<and> (\<forall>b\<in>k_live K h. apart (p, layout_size l) b)
     \<and> k_live K h' = insert (p, layout_size l) (k_live K h)
     \<and> k_live K (zephyr_dealloc K p l h') = k_live K h"
    and "zephyr_alloc K l h = (None, h') \<Longrightarrow> k_live K h' = k_live K h"
proof -
  note D = k_aligned_allocD[OF assms(1) asked_alignment(1)[OF assms(2)]]
  show "k_live K h' = k_live K h" if "zephyr_alloc K l h = (None, h')"
    using D[OF that[unfolded zephyr_alloc_def]] by simp
  assume a: "zephyr_alloc K l h = (Some p, h')"
  have got: "p \<noteq> 0" "max (layout_align l) 4 dvd p" "\<forall>b\<in>k_live K h. apart (p, layout_size l) b"
    "k_live K h' = insert (p, layout_size l) (k_live K h)"
    using D[OF a[unfolded zephyr_alloc_def]] by simp_all
  have "fst b \<noteq> p" if "b \<in> k_live K h" for b
  proof
    assume "fst b = p"
    then show False using got(3) assms(2,3) that by (fastforce simp: apart_def layout_ok_def)
  qed
  then have "{b \<in> insert (p, layout_size l) (k_live K h). fst b \<noteq> p} = k_live K h" by auto
  then have "k_live K (zephyr_dealloc K p l h') = k_live K h"
    using assms(1) by (simp add: zephyr_dealloc_def kheap_ok_def got(4))
  then show "p \<noteq> 0 \<and> layout_align l dvd p \<and> (\<forall>b\<in>k_live K h. apart (p, layout_size l) b)
     \<and> k_live K h' = insert (p, layout_size l) (k_live K h) \<and> k_live K (zephyr_dealloc K p l h') = k_live K h"
    using got dvd_trans[OF asked_alignment(2)[OF assms(2)] got(2)] by simp
qed

text \<open>A heap that keeps the laws: a block is put above all blocks there are.\<close>

definition high_heap :: "(nat \<times> nat) list kheap" where
  "high_heap =
     \<lparr>k_aligned_alloc = (\<lambda>a n bs. let p = a * Suc (sum_list (map (\<lambda>b. fst b + snd b) bs)) in (Some p, (p, n) # bs)),
      k_free = (\<lambda>r bs. case r of None \<Rightarrow> bs | Some p \<Rightarrow> filter (\<lambda>b. fst b \<noteq> p) bs),
      k_live = set\<rparr>"

lemma high_heap_ok: "kheap_ok high_heap"
proof -
  have "0 < a" if "k_align_ok a" for a using that by (auto simp: k_align_ok_def)
  moreover have "fst b + snd b \<le> a * Suc (sum_list (map (\<lambda>b. fst b + snd b) bs))" if "b \<in> set bs" "0 < a" for a b bs
  proof -
    have "fst b + snd b \<le> sum_list (map (\<lambda>b. fst b + snd b) bs)" using that(1) by (intro member_le_sum_list) auto
    also have "\<dots> \<le> a * Suc (sum_list (map (\<lambda>b. fst b + snd b) bs))" using that(2) by (cases a) simp_all
    finally show ?thesis .
  qed
  ultimately show ?thesis by (fastforce simp: kheap_ok_def high_heap_def apart_def Let_def)
qed

lemma allocator_contract_witness:
  "zephyr_alloc high_heap \<lparr>layout_size = 9, layout_align = 1\<rparr> [(4, 8)] = (Some 52, [(52, 9), (4, 8)])
   \<and> 4 dvd (52 :: nat) \<and> k_live high_heap (zephyr_dealloc high_heap 52 \<lparr>layout_size = 9, layout_align = 1\<rparr> [(52, 9), (4, 8)]) = {(4, 8)}"
proof -
  let ?l = "\<lparr>layout_size = 9, layout_align = 1\<rparr>"
  have a: "zephyr_alloc high_heap ?l [(4, 8)] = (Some 52, [(52, 9), (4, 8)])" by (simp add: zephyr_alloc_def high_heap_def)
  have ok: "layout_ok ?l" by (auto simp: layout_ok_def intro: exI[of _ 0])
  show ?thesis using allocator_contract(1)[OF high_heap_ok ok _ a] a by (simp add: high_heap_def)
qed

end
