(* ===== verification/Executor.thy ===== *)
theory Executor
  imports Runs Texts
begin

text \<open>
  The runtime's own platform layer: the executor \<^verbatim>\<open>block_on\<close> with its waker and the
  semaphore it parks on, the time driver \<^verbatim>\<open>ZephyrDriver\<close> with the alarm of
  \<^verbatim>\<open>glue/glue.c\<close> (\<^verbatim>\<open>radio.rs\<close>), and the panic message of \<^verbatim>\<open>lib.rs\<close>. The polled future and the timer queue are parameters.
\<close>

section \<open>The executor\<close>

text \<open>The future is a state with a poll; the semaphore of \<^verbatim>\<open>runtime_ble_wait\<close> is binary.\<close>

datatype exec_pc = Poll | Wait | Returned

record 'f exec =
  x_pc :: exec_pc
  x_fut :: 'f
  x_sem :: bool

definition rw_wake :: "'f exec \<Rightarrow> 'f exec" where
  "rw_wake x = x\<lparr>x_sem := True\<rparr>"

text \<open>A poll may be woken while it runs (\<open>w\<close>: an interrupt, or the future itself). An event
  outside changes what the future will see and calls the waker. Each poll is an output: what
  it was called on and what it returned.\<close>

inductive exec_step :: "('f \<Rightarrow> 'f \<times> bool) \<Rightarrow> 'f exec \<Rightarrow> ('f \<times> bool) list \<Rightarrow> 'f exec \<Rightarrow> bool" for poll where
  poll_ready: "x_pc x = Poll \<Longrightarrow> poll (x_fut x) = (f', True) \<Longrightarrow>
    exec_step poll x [(x_fut x, True)] (x\<lparr>x_pc := Returned, x_fut := f'\<rparr>)"
| poll_pending: "x_pc x = Poll \<Longrightarrow> poll (x_fut x) = (f', False) \<Longrightarrow>
    exec_step poll x [(x_fut x, False)]
      ((if w then rw_wake else (\<lambda>y. y)) (x\<lparr>x_pc := Wait, x_fut := f'\<rparr>))"
| wait_taken: "x_pc x = Wait \<Longrightarrow> x_sem x \<Longrightarrow> exec_step poll x [] (x\<lparr>x_pc := Poll, x_sem := False\<rparr>)"
| woken: "x_pc x \<noteq> Returned \<Longrightarrow> exec_step poll x [] (rw_wake (x\<lparr>x_fut := ev (x_fut x)\<rparr>))"

definition block_on :: "'f \<Rightarrow> bool \<Rightarrow> 'f exec" where
  "block_on f sem = \<lparr>x_pc = Poll, x_fut = f, x_sem = sem\<rparr>"

text \<open>Parked without a wake-up, nothing has happened since the last poll, which was pending;
  returned, the last poll was ready.\<close>

definition up_to_date :: "('f \<Rightarrow> 'f \<times> bool) \<Rightarrow> 'f exec \<Rightarrow> bool" where
  "up_to_date poll x \<longleftrightarrow>
     (x_pc x = Wait \<longrightarrow> x_sem x \<or> (\<exists>f. poll f = (x_fut x, False))) \<and>
     (x_pc x = Returned \<longrightarrow> (\<exists>f. poll f = (x_fut x, True)))"

interpretation executor: step_invariant "exec_step poll" "up_to_date poll" "\<lambda>(f, r). snd (poll f) = r"
proof unfold_locales
  fix x :: "'a exec" and os y
  assume "exec_step poll x os y" "up_to_date poll x"
  then show "up_to_date poll y \<and> list_all (\<lambda>(f, r). snd (poll f) = r) os"
    by (cases rule: exec_step.cases) (auto simp: up_to_date_def rw_wake_def)
qed

lemma block_on_up_to_date: "up_to_date poll (block_on f sem)"
  by (simp add: up_to_date_def block_on_def)

section \<open>The time driver\<close>

text \<open>Instants are milliseconds since boot. \<^verbatim>\<open>schedule_wake\<close> of the queue says whether it
  changed anything; \<^verbatim>\<open>next_expiration\<close> drops the expired entries (waking them) and names
  the next instant at which something expires.\<close>

record 'q timer_queue =
  tq_schedule :: "'q \<Rightarrow> u64 \<Rightarrow> 'q \<times> bool"
  tq_next :: "'q \<Rightarrow> u64 \<Rightarrow> 'q \<times> u64"
  tq_pending :: "'q \<Rightarrow> u64 list"

definition timer_queue_ok :: "'q timer_queue \<Rightarrow> bool" where
  "timer_queue_ok tq \<longleftrightarrow>
     (\<forall>q at. \<not> snd (tq_schedule tq q at) \<longrightarrow> fst (tq_schedule tq q at) = q) \<and>
     (\<forall>q now. \<forall>p \<in> set (tq_pending tq (fst (tq_next tq q now))). snd (tq_next tq q now) \<le> p)"

record 'q driver =
  d_queue :: 'q
  d_alarm :: int
  d_armed_at :: nat

text \<open>\<^verbatim>\<open>runtime_alarm_set\<close> at uptime \<open>now\<close>: the instant the timer fires.\<close>

definition runtime_alarm_set :: "nat \<Rightarrow> u64 \<Rightarrow> 'q driver \<Rightarrow> 'q driver" where
  "runtime_alarm_set now at d =
     (let delay = sint at - int now; delay = (if delay < 0 then 0 else delay)
      in d\<lparr>d_alarm := int now + delay, d_armed_at := now\<rparr>)"

definition schedule_wake :: "'q timer_queue \<Rightarrow> nat \<Rightarrow> u64 \<Rightarrow> 'q driver \<Rightarrow> 'q driver" where
  "schedule_wake tq now at d =
     (let (q, changed) = tq_schedule tq (d_queue d) at
      in if changed
         then let (q, next) = tq_next tq q (of_nat now) in runtime_alarm_set now next (d\<lparr>d_queue := q\<rparr>)
         else d\<lparr>d_queue := q\<rparr>)"

definition runtime_alarm_fired :: "'q timer_queue \<Rightarrow> nat \<Rightarrow> 'q driver \<Rightarrow> 'q driver" where
  "runtime_alarm_fired tq now d =
     (let (q, next) = tq_next tq (d_queue d) (of_nat now) in runtime_alarm_set now next (d\<lparr>d_queue := q\<rparr>))"

datatype timer_event = Schedule u64 | Fired

fun timer_step :: "'q timer_queue \<Rightarrow> nat \<times> timer_event \<Rightarrow> 'q driver \<Rightarrow> 'q driver" where
  "timer_step tq (now, Schedule at) d = schedule_wake tq now at d"
| "timer_step tq (now, Fired) d = runtime_alarm_fired tq now d"

definition timer_run :: "'q timer_queue \<Rightarrow> (nat \<times> timer_event) list \<Rightarrow> 'q driver \<Rightarrow> 'q driver" where
  "timer_run tq evs d = foldl (\<lambda>d e. timer_step tq e d) d evs"

text \<open>The alarm is not after any pending instant, unless that instant had passed when it was
  armed; then it fires at once.\<close>

definition alarm_covers :: "'q timer_queue \<Rightarrow> 'q driver \<Rightarrow> bool" where
  "alarm_covers tq d \<longleftrightarrow> (\<forall>p \<in> set (tq_pending tq (d_queue d)). d_alarm d \<le> max (int (unat p)) (int (d_armed_at d)))"

lemma sint_le_unat: "sint w \<le> int (unat w)" for w :: u64
proof -
  have "- (2 ^ 63) \<le> uint w" by (rule order_trans[OF _ uint_ge_0]) simp
  then have "sint w \<le> uint w"
    by (simp add: sint_uint signed_take_bit_int_less_eq_self_iff)
  then show ?thesis by simp
qed

lemma alarm_set_covers:
  assumes "\<And>p. p \<in> set (tq_pending tq (d_queue d)) \<Longrightarrow> next \<le> p"
  shows "alarm_covers tq (runtime_alarm_set now next d)"
  unfolding alarm_covers_def
proof
  fix p assume "p \<in> set (tq_pending tq (d_queue (runtime_alarm_set now next d)))"
  then have "next \<le> p" using assms by (simp add: runtime_alarm_set_def Let_def)
  then have "sint next \<le> int (unat p)"
    using sint_le_unat[of "next"] unfolding word_le_nat_alt by linarith
  then show "d_alarm (runtime_alarm_set now next d) \<le> max (int (unat p)) (int (d_armed_at (runtime_alarm_set now next d)))"
    by (simp add: runtime_alarm_set_def Let_def)
qed

lemma tq_next_le:
  "timer_queue_ok tq \<Longrightarrow> tq_next tq q now = (q', next) \<Longrightarrow> p \<in> set (tq_pending tq q') \<Longrightarrow> next \<le> p"
  unfolding timer_queue_ok_def by (metis fst_conv snd_conv)

lemma schedule_wake_covers:
  assumes "timer_queue_ok tq" "alarm_covers tq d"
  shows "alarm_covers tq (schedule_wake tq now at d)"
proof (cases "snd (tq_schedule tq (d_queue d) at)")
  case True
  then show ?thesis
    by (auto simp: schedule_wake_def split: prod.split intro!: alarm_set_covers dest: tq_next_le[OF assms(1)])
next
  case False
  then have "fst (tq_schedule tq (d_queue d) at) = d_queue d"
    using assms(1) by (simp add: timer_queue_ok_def)
  then show ?thesis using assms(2) False by (auto simp: schedule_wake_def split: prod.split)
qed

lemma alarm_fired_covers: "timer_queue_ok tq \<Longrightarrow> alarm_covers tq (runtime_alarm_fired tq now d)"
  by (auto simp: runtime_alarm_fired_def split: prod.split intro!: alarm_set_covers dest: tq_next_le)

lemma timer_step_covers: "timer_queue_ok tq \<Longrightarrow> alarm_covers tq d \<Longrightarrow> alarm_covers tq (timer_step tq e d)"
  by (cases "(tq, e, d)" rule: timer_step.cases) (simp_all add: schedule_wake_covers alarm_fired_covers)

section \<open>The panic message\<close>

text \<open>The message \<^verbatim>\<open>panic\<close> builds, with its terminating NUL when there is room for it.\<close>

definition panic_message :: "char hvec \<Rightarrow> (string \<times> u32) option \<Rightarrow> string" where
  "panic_message hv loc =
     (let s = write_pieces hv [] [''runtime-ble panic''];
          s = (case loc of None \<Rightarrow> s
               | Some (file, line) \<Rightarrow> write_pieces hv s ['' @ '', file, '':'', dec (unat line)])
      in case hv_push hv s (CHR 0x00) of None \<Rightarrow> s | Some s' \<Rightarrow> s')"


section \<open>Results\<close>


text \<open>Witness: a future that is ready at the second event, woken once while it is parked.\<close>

lemma no_lost_wakeup_run:
  fixes poll :: "nat \<Rightarrow> nat \<times> bool"
  assumes "poll = (\<lambda>n. (n, 1 < n))"
  shows "runs (exec_step poll) (block_on 0 False) ([(0, False)] @ []) \<lparr>x_pc = Wait, x_fut = 1, x_sem = True\<rparr>"
proof -
  have p: "exec_step poll (block_on 0 False) [(0, False)] \<lparr>x_pc = Wait, x_fut = 0, x_sem = False\<rparr>"
    using exec_step.poll_pending[of "block_on 0 False" poll 0 False] by (simp add: assms block_on_def)
  have w: "exec_step poll \<lparr>x_pc = Wait, x_fut = 0, x_sem = False\<rparr> [] \<lparr>x_pc = Wait, x_fut = 1, x_sem = True\<rparr>"
    using exec_step.woken[of "\<lparr>x_pc = Wait, x_fut = 0, x_sem = False\<rparr>" poll Suc] by (simp add: rw_wake_def)
  show ?thesis by (rule runs_snoc[where step = "exec_step poll", OF runs_one[where step = "exec_step poll"]]) (rule p, rule w)
qed



definition tq_list :: "u64 list timer_queue" where
  "tq_list = \<lparr>tq_schedule = (\<lambda>q at. (at # q, True)),
     tq_next = (\<lambda>q now. let q = filter (\<lambda>p. now < p) q in (q, foldr min q (-1))), tq_pending = (\<lambda>q. q)\<rparr>"

lemma foldr_min_le: "p \<in> set q \<Longrightarrow> foldr min q m \<le> p" for m :: u64
  by (induction q) (auto simp: min.coboundedI1 min.coboundedI2)

lemma tq_list_ok: "timer_queue_ok tq_list"
proof -
  have "foldr min q m \<le> p" if "p \<in> set q" for p m :: u64 and q using that by (rule foldr_min_le)
  then show ?thesis by (simp add: timer_queue_ok_def tq_list_def Let_def)
qed


text \<open>C40 (idle_alarm_storm). With nothing pending the queue answers \<^verbatim>\<open>u64::MAX\<close>, which
  \<open>runtime_alarm_set\<close> reads as the signed \<open>-1\<close>: the alarm is armed for the very instant it
  fired at, each time, for ever, instead of never.\<close>

theorem idle_alarm_storm:
  assumes "\<And>now. tq_next tq q now = (q, -1)" "d_queue d = q"
  shows "d_alarm (timer_run tq (map (\<lambda>t. (t, Fired)) (ts @ [t])) d) = int t"
proof -
  have keep: "d_queue (timer_run tq (map (\<lambda>t. (t, Fired)) ts) d) = q"
    using assms(2)
  proof (induction ts arbitrary: d)
    case (Cons t ts)
    have "d_queue (timer_step tq (t, Fired) d) = q"
      by (simp add: runtime_alarm_fired_def runtime_alarm_set_def assms(1) Cons.prems)
    then show ?case using Cons.IH by (simp add: timer_run_def)
  qed (simp add: timer_run_def)
  have "timer_run tq (map (\<lambda>t. (t, Fired)) (ts @ [t])) d =
      runtime_alarm_fired tq t (timer_run tq (map (\<lambda>t. (t, Fired)) ts) d)"
    by (simp add: timer_run_def)
  then show ?thesis
    by (simp add: runtime_alarm_fired_def runtime_alarm_set_def assms(1) keep Let_def)
qed

lemma idle_alarm_storm_witness:
  "d_alarm (timer_run tq_list (map (\<lambda>t. (t, Fired)) ([7, 8] @ [9])) \<lparr>d_queue = [], d_alarm = 7, d_armed_at = 7\<rparr>) = 9"
  using idle_alarm_storm[of tq_list "[]" "\<lparr>d_queue = [], d_alarm = 7, d_armed_at = 7\<rparr>" "[7, 8]" 9]
  by (simp add: tq_list_def)

text \<open>Result (panic_message_terminated). A panic message with room for its NUL reaches C whole; one that
  fills its 160 bytes exactly is handed over without a terminator.\<close>

theorem panic_message_terminated:
  assumes "hvec_ok 160 hv" "CHR 0x00 \<notin> set file"
    and msg: "msg = ''runtime-ble panic'' @ '' @ '' @ file @ '':'' @ dec (unat line)"
  shows "length msg < 160 \<Longrightarrow> c_string (panic_message hv (Some (file, line))) = Some msg"
    and "length msg = 160 \<Longrightarrow> c_string (panic_message hv (Some (file, line))) = None"
proof -
  note fits = write_pieces_fit[OF assms(1)]
  have first: "write_pieces hv [] [''runtime-ble panic''] = ''runtime-ble panic''"
    by (subst fits) simp_all
  have built: "panic_message hv (Some (file, line)) = (case hv_push hv msg (CHR 0x00) of None \<Rightarrow> msg | Some s' \<Rightarrow> s')"
    if "length msg \<le> 160"
  proof -
    have "write_pieces hv ''runtime-ble panic'' ['' @ '', file, '':'', dec (unat line)] = msg"
      using that by (subst fits) (simp_all add: msg)
    then show ?thesis by (simp only: panic_message_def Let_def first option.case prod.case)
  qed
  have nul: "CHR 0x00 \<notin> set msg" using assms(2) dec_no_nul by (auto simp: msg)
  show "c_string (panic_message hv (Some (file, line))) = Some msg" if "length msg < 160"
    using that built by (simp add: hv_push[OF assms(1)] c_string_append nul)
  show "c_string (panic_message hv (Some (file, line))) = None" if "length msg = 160"
    using that built nul by (simp add: hv_push[OF assms(1)] c_string_def)
qed

lemma panic_message_terminated_witness:
  "c_string (panic_message (hvec_std 160) (Some (''a.rs'', 7))) = Some (''runtime-ble panic @ a.rs:7'')"
  using panic_message_terminated(1)[of "hvec_std 160" "''a.rs''", OF hvec_ok_std _ refl, of 7]
  by (simp add: dec.simps dec_digit_def)

end
