(* ===== verification/Access.thy ===== *)
theory Access
  imports Runs Mailbox
begin

text \<open>
  The API at the granularity of the machine. The theories of the single calls treat a call as
  one step; here a call is a program of atomic loads, stores and swaps and of single-byte
  copies, an access outside a buffer is a fault, and the programs of any number of application
  threads and of the runtime thread are interleaved access by access. The accesses the
  code makes to the flag of a channel are acquire loads and release stores, so what is read
  after the flag is what was written before it: interleavings are enough.

  Two locales carry the proofs: \<open>publication\<close> (one application thread: the interleaving
  behaves as the mailbox of the theory Mailbox whose operations are single steps) and
  \<open>bounded_accesses\<close> (any number of threads: no access is out of bounds).
\<close>

section \<open>Programs\<close>

text \<open>\<open>Access g k\<close> is one access: the state becomes \<open>g s\<close> and the program goes on with what it
  learnt from \<open>s\<close>.\<close>

datatype (plugins only: code size) ('s, 'r) prog =
    Ret 'r
  | Fault
  | Access "'s \<Rightarrow> 's" "'s \<Rightarrow> ('s, 'r) prog"

definition load :: "('s \<Rightarrow> 'a) \<Rightarrow> ('a \<Rightarrow> ('s, 'r) prog) \<Rightarrow> ('s, 'r) prog" where
  "load x k = Access (\<lambda>s. s) (\<lambda>s. k (x s))"

definition store :: "('s \<Rightarrow> 's) \<Rightarrow> ('s, 'r) prog \<Rightarrow> ('s, 'r) prog" where
  "store g k = Access g (\<lambda>_. k)"

definition swap :: "('s \<Rightarrow> 'a) \<Rightarrow> ('s \<Rightarrow> 's) \<Rightarrow> ('a \<Rightarrow> ('s, 'r) prog) \<Rightarrow> ('s, 'r) prog" where
  "swap x g k = Access g (\<lambda>s. k (x s))"

text \<open>\<^verbatim>\<open>copy_nonoverlapping\<close> into and out of a static buffer, byte by byte.\<close>

primrec copy_in ::
  "('s \<Rightarrow> 'b list) \<Rightarrow> ('b list \<Rightarrow> 's \<Rightarrow> 's) \<Rightarrow> 'b list \<Rightarrow> nat \<Rightarrow> ('s, 'r) prog \<Rightarrow> ('s, 'r) prog" where
  "copy_in buf put [] i k = k"
| "copy_in buf put (b # bs) i k =
     Access (\<lambda>s. put ((buf s)[i := b]) s)
       (\<lambda>s. if i < length (buf s) then copy_in buf put bs (Suc i) k else Fault)"

primrec copy_out ::
  "('s \<Rightarrow> 'b list) \<Rightarrow> nat \<Rightarrow> 'b list \<Rightarrow> ('b list \<Rightarrow> ('s, 'r) prog) \<Rightarrow> ('s, 'r) prog" where
  "copy_out buf 0 acc k = k acc"
| "copy_out buf (Suc n) acc k =
     Access (\<lambda>s. s)
       (\<lambda>s. if length acc < length (buf s) then copy_out buf n (acc @ [buf s ! length acc]) k else Fault)"

text \<open>The program run alone: its result (\<open>None\<close> after a fault) and the final state.\<close>

primrec exec :: "('s, 'r) prog \<Rightarrow> 's \<Rightarrow> 'r option \<times> 's" where
  "exec (Ret r) s = (Some r, s)"
| "exec Fault s = (None, s)"
| "exec (Access g k) s = exec (k s) (g s)"

lemma exec_simps [simp]:
  "exec (load x k) s = exec (k (x s)) s" "exec (store g p) s = exec p (g s)"
  "exec (swap x g k) s = exec (k (x s)) (g s)"
  by (simp_all add: load_def store_def swap_def)

lemma exec_copy_in:
  assumes put: "\<And>b s. buf (put b s) = b" "\<And>b b' s. put b (put b' s) = put b s" "\<And>s. put (buf s) s = s"
    and "i + length bs \<le> length (buf s)"
  shows "exec (copy_in buf put bs i k) s = exec k (put (blit (buf s) i bs) s)"
  using assms(4)
proof (induction bs arbitrary: i s)
  case Nil
  then show ?case by (simp add: blit_def put)
next
  case (Cons b bs)
  have "blit ((buf s)[i := b]) (Suc i) bs = blit (buf s) i (b # bs)"
    using Cons.prems by (simp add: blit_def take_Suc_conv_app_nth)
  then show ?case using Cons by (simp add: put)
qed

lemma exec_copy_out:
  "length acc + n \<le> length (buf s) \<Longrightarrow> acc = take (length acc) (buf s) \<Longrightarrow>
     exec (copy_out buf n acc k) s = exec (k (take (length acc + n) (buf s))) s"
proof (induction n arbitrary: acc)
  case (Suc n)
  have "acc @ [buf s ! length acc] = take (Suc (length acc)) (buf s)"
    using Suc.prems by (simp add: take_Suc_conv_app_nth)
  then show ?case using Suc.IH[of "acc @ [buf s ! length acc]"] Suc.prems by simp
qed simp

lemma exec_copy_out0: "n \<le> length (buf s) \<Longrightarrow> exec (copy_out buf n [] k) s = exec (k (take n (buf s))) s"
  using exec_copy_out[of "[]" n buf s k] by simp

section \<open>What a program promises while others interfere\<close>

text \<open>\<open>goes_on R G Q p s1 s2\<close>: after an access from \<open>s1\<close> to \<open>s2\<close> the program goes on with \<open>p\<close>, and
  as long as the others change the state by \<open>R\<close> only, each of its accesses (this one
  included) changes it by \<open>G\<close>, the last one by \<open>Q\<close> of the result, and none is a fault.\<close>

primrec goes_on ::
  "('s \<Rightarrow> 's \<Rightarrow> bool) \<Rightarrow> ('s \<Rightarrow> 's \<Rightarrow> bool) \<Rightarrow> ('r \<Rightarrow> 's \<Rightarrow> 's \<Rightarrow> bool) \<Rightarrow> ('s, 'r) prog \<Rightarrow> 's \<Rightarrow> 's \<Rightarrow> bool" where
  "goes_on R G Q (Ret r) s1 s2 = Q r s1 s2"
| "goes_on R G Q Fault s1 s2 = False"
| "goes_on R G Q (Access g k) s1 s2 = (G s1 s2 \<and> (\<forall>s. R s2 s \<longrightarrow> goes_on R G Q (k s) s (g s)))"

text \<open>The same of a program that is about to make an access.\<close>

definition sat ::
  "('s \<Rightarrow> 's \<Rightarrow> bool) \<Rightarrow> ('s \<Rightarrow> 's \<Rightarrow> bool) \<Rightarrow> ('r \<Rightarrow> 's \<Rightarrow> 's \<Rightarrow> bool) \<Rightarrow> ('s, 'r) prog \<Rightarrow> 's \<Rightarrow> bool" where
  "sat R G Q p s = (case p of Access g k \<Rightarrow> (\<forall>s1. R s s1 \<longrightarrow> goes_on R G Q (k s1) s1 (g s1)) | _ \<Rightarrow> False)"

definition is_access :: "('s, 'r) prog \<Rightarrow> bool" where
  "is_access p \<longleftrightarrow> (case p of Access _ _ \<Rightarrow> True | _ \<Rightarrow> False)"

lemma is_access_simps [simp]:
  "is_access (Access g k)" "\<not> is_access (Ret r)" "\<not> is_access Fault"
  "is_access (load x c)" "is_access (store g p)" "is_access (swap x g c)"
  by (simp_all add: is_access_def load_def store_def swap_def)

lemma is_access_copy [simp]:
  "is_access k \<Longrightarrow> is_access (copy_in buf put bs i k)"
  "(\<And>bs. is_access (c bs)) \<Longrightarrow> is_access (copy_out buf n acc c)"
  by (cases bs; simp) (cases n; simp)

lemma goes_on_access: "is_access p \<Longrightarrow> goes_on R G Q p s1 s2 \<longleftrightarrow> G s1 s2 \<and> sat R G Q p s2"
  by (cases p) (simp_all add: sat_def)

lemma sat_access: "sat R G Q (Access g k) s \<longleftrightarrow> (\<forall>s1. R s s1 \<longrightarrow> goes_on R G Q (k s1) s1 (g s1))"
  by (simp add: sat_def)

lemma satI:
  "(\<And>s1. R s s1 \<Longrightarrow> goes_on R G Q (c (x s1)) s1 s1) \<Longrightarrow> sat R G Q (load x c) s"
  "(\<And>s1. R s s1 \<Longrightarrow> goes_on R G Q p s1 (g s1)) \<Longrightarrow> sat R G Q (store g p) s"
  "(\<And>s1. R s s1 \<Longrightarrow> goes_on R G Q (c (x s1)) s1 (g s1)) \<Longrightarrow> sat R G Q (swap x g c) s"
  by (simp_all add: load_def store_def swap_def sat_access)

lemma sat_stable:
  "(\<And>a b c. R a b \<Longrightarrow> R b c \<Longrightarrow> R a c) \<Longrightarrow> sat R G Q p s \<Longrightarrow> R s s' \<Longrightarrow> sat R G Q p s'"
  by (cases p) (auto simp: sat_def)

text \<open>A copy keeps an assertion about the bytes copied so far.\<close>

lemma sat_copy_in:
  assumes stable: "\<And>j s s'. J j s \<Longrightarrow> R s s' \<Longrightarrow> J j s'"
    and byte: "\<And>j s. i \<le> j \<Longrightarrow> j < i + length bs \<Longrightarrow> J j s \<Longrightarrow> j < length (buf s)
        \<and> G s (put ((buf s)[j := bs ! (j - i)]) s) \<and> J (Suc j) (put ((buf s)[j := bs ! (j - i)]) s)"
    and k: "is_access k" "\<And>s. J (i + length bs) s \<Longrightarrow> sat R G Q k s"
    and "J i s"
  shows "sat R G Q (copy_in buf put bs i k) s"
  using byte k(2) assms(5)
proof (induction bs arbitrary: i s)
  case (Cons b bs)
  show ?case
    unfolding copy_in.simps sat_access
  proof (intro allI impI)
    fix s1
    assume "R s s1"
    then have J: "J i s1" using Cons.prems(3) stable by blast
    let ?s2 = "put ((buf s1)[i := b]) s1"
    have 1: "i < length (buf s1)" "G s1 ?s2" "J (Suc i) ?s2"
      using Cons.prems(1)[of i s1] J by simp_all
    have "sat R G Q (copy_in buf put bs (Suc i) k) ?s2"
    proof (rule Cons.IH)
      fix j s
      assume "Suc i \<le> j" "j < Suc i + length bs" "J j s"
      then show "j < length (buf s) \<and> G s (put ((buf s)[j := bs ! (j - Suc i)]) s)
          \<and> J (Suc j) (put ((buf s)[j := bs ! (j - Suc i)]) s)"
        using Cons.prems(1)[of j s] by (simp add: nth_Cons' Suc_le_eq)
    qed (use Cons.prems(2) 1 in simp_all)
    then show "goes_on R G Q (if i < length (buf s1) then copy_in buf put bs (Suc i) k else Fault) s1 ?s2"
      using 1 k(1) by (simp add: goes_on_access)
  qed
qed simp

lemma sat_copy_out:
  assumes stable: "\<And>acc s s'. J acc s \<Longrightarrow> R s s' \<Longrightarrow> J acc s'"
    and byte: "\<And>acc s. length acc < m \<Longrightarrow> J acc s \<Longrightarrow> length acc < length (buf s) \<and> G s s \<and> J (acc @ [buf s ! length acc]) s"
    and k: "\<And>bs. is_access (c bs)" "\<And>bs s. length bs = m \<Longrightarrow> J bs s \<Longrightarrow> sat R G Q (c bs) s"
    and "length acc + n = m" "J acc s"
  shows "sat R G Q (copy_out buf n acc c) s"
  using assms(5,6)
proof (induction n arbitrary: acc s)
  case 0
  then show ?case using k(2) by simp
next
  case (Suc n)
  show ?case
    unfolding copy_out.simps sat_access
  proof (intro allI impI)
    fix s1
    assume "R s s1"
    then have J: "J acc s1" using Suc.prems(2) stable by blast
    have 1: "length acc < length (buf s1)" "G s1 s1" "J (acc @ [buf s1 ! length acc]) s1"
      using byte[OF _ J] Suc.prems(1) by auto
    then show "goes_on R G Q (if length acc < length (buf s1)
        then copy_out buf n (acc @ [buf s1 ! length acc]) c else Fault) s1 s1"
      using k(1) Suc.IH[of "acc @ [buf s1 ! length acc]" s1] Suc.prems(1) by (simp add: goes_on_access)
  qed
qed

section \<open>Threads and interleavings\<close>

text \<open>A configuration: for each application thread the call it is inside, with the rest of its
  program; the rest of the runtime thread's fetch; and the state. A move is the beginning of
  a call or a fetch, one access of a thread, or a change of what does not concern the channel
  (\<open>env\<close>) by anything else. What returns is an output.\<close>

type_synonym ('m, 'n, 's) conf =
  "('m \<times> ('s, c_int) prog) option list \<times> ('s, 'n option) prog option \<times> 's"

datatype ('m, 's) move = CallBegin nat 'm | CallAccess nat | FetchBegin | FetchAccess | Outside 's

datatype (plugins only: code size) ('m, 'n) acc_out = Returned 'm c_int | Fetched "'n option" | Faulted

definition advance :: "('s, 'r) prog \<Rightarrow> 's \<Rightarrow> ('s, 'r) prog \<times> 's" where
  "advance p s = (case p of Access g k \<Rightarrow> (k s, g s) | _ \<Rightarrow> (p, s))"

definition call_goes :: "'m \<Rightarrow> ('s, c_int) prog \<Rightarrow> ('m, 'n) acc_out list \<times> ('m \<times> ('s, c_int) prog) option" where
  "call_goes m p = (case p of Ret r \<Rightarrow> ([Returned m r], None) | Fault \<Rightarrow> ([Faulted], None) | Access _ _ \<Rightarrow> ([], Some (m, p)))"

definition fetch_goes :: "('s, 'n option) prog \<Rightarrow> ('m, 'n) acc_out list \<times> ('s, 'n option) prog option" where
  "fetch_goes p = (case p of Ret n \<Rightarrow> ([Fetched n], None) | Fault \<Rightarrow> ([Faulted], None) | Access _ _ \<Rightarrow> ([], Some p))"

fun acc_move ::
  "('m \<Rightarrow> ('s, c_int) prog) \<Rightarrow> ('s, 'n option) prog \<Rightarrow> ('s \<Rightarrow> 's \<Rightarrow> bool) \<Rightarrow> ('m, 's) move \<Rightarrow>
     ('m, 'n, 's) conf \<Rightarrow> ('m, 'n) acc_out list \<times> ('m, 'n, 's) conf" where
  "acc_move post fetch env (CallBegin i m) (as, t, s) =
     (if i < length as
      then (case as ! i of
              None \<Rightarrow> let (os, a) = call_goes m (post m) in (os, as[i := a], t, s)
            | Some _ \<Rightarrow> ([], as, t, s))
      else ([], as, t, s))"
| "acc_move post fetch env (CallAccess i) (as, t, s) =
     (if i < length as
      then (case as ! i of
              None \<Rightarrow> ([], as, t, s)
            | Some (m, p) \<Rightarrow>
                let (p', s') = advance p s; (os, a) = call_goes m p' in (os, as[i := a], t, s'))
      else ([], as, t, s))"
| "acc_move post fetch env FetchBegin (as, t, s) =
     (case t of None \<Rightarrow> let (os, t') = fetch_goes fetch in (os, as, t', s) | Some _ \<Rightarrow> ([], as, t, s))"
| "acc_move post fetch env FetchAccess (as, t, s) =
     (case t of
        None \<Rightarrow> ([], as, t, s)
      | Some p \<Rightarrow> let (p', s') = advance p s; (os, t') = fetch_goes p' in (os, as, t', s'))"
| "acc_move post fetch env (Outside s') (as, t, s) = (if env s s' then ([], as, t, s') else ([], as, t, s))"

definition acc_step ::
  "('m \<Rightarrow> ('s, c_int) prog) \<Rightarrow> ('s, 'n option) prog \<Rightarrow> ('s \<Rightarrow> 's \<Rightarrow> bool) \<Rightarrow>
     ('m, 'n, 's) conf \<Rightarrow> ('m, 'n) acc_out list \<Rightarrow> ('m, 'n, 's) conf \<Rightarrow> bool" where
  "acc_step post fetch env c os c' \<longleftrightarrow> (\<exists>mv. acc_move post fetch env mv c = (os, c'))"

primrec acc_run ::
  "('m \<Rightarrow> ('s, c_int) prog) \<Rightarrow> ('s, 'n option) prog \<Rightarrow> ('s \<Rightarrow> 's \<Rightarrow> bool) \<Rightarrow> ('m, 's) move list \<Rightarrow>
     ('m, 'n, 's) conf \<Rightarrow> ('m, 'n) acc_out list \<times> ('m, 'n, 's) conf" where
  "acc_run post fetch env [] c = ([], c)"
| "acc_run post fetch env (mv # mvs) c =
     (let (os, c') = acc_move post fetch env mv c; (os', c'') = acc_run post fetch env mvs c' in (os @ os', c''))"

text \<open>The results of the calls, and what was fetched.\<close>

fun acc_results :: "('m, 'n) acc_out list \<Rightarrow> c_int list" where
  "acc_results [] = []"
| "acc_results (Returned m r # os) = r # acc_results os"
| "acc_results (_ # os) = acc_results os"

fun acc_fetched :: "('m, 'n) acc_out list \<Rightarrow> 'n option list" where
  "acc_fetched [] = []"
| "acc_fetched (Fetched n # os) = n # acc_fetched os"
| "acc_fetched (_ # os) = acc_fetched os"

lemma acc_run_runs: "acc_run post fetch env mvs c = (os, c') \<Longrightarrow> runs (acc_step post fetch env) c os c'"
proof (induction mvs arbitrary: c os)
  case (Cons mv mvs)
  obtain os1 c1 os2 where *: "acc_move post fetch env mv c = (os1, c1)"
    "acc_run post fetch env mvs c1 = (os2, c')" "os = os1 @ os2"
    using Cons.prems by (auto split: prod.splits)
  have "acc_step post fetch env c os1 c1" using *(1) by (auto simp: acc_step_def)
  then show ?case using runs_cons Cons.IH[OF *(2)] *(3) by metis
qed (simp add: runs_refl)

text \<open>The moves that do something, case by case.\<close>

lemma acc_step_cases:
  fixes os :: "('m, 'n) acc_out list" and s :: 's
  assumes "acc_step post fetch env (as, t, s) os (as', t', s')"
  obtains (none) "os = []" "as' = as" "t' = t" "s' = s"
  | (begin_call) i m a where "i < length as" "as ! i = None" "call_goes m (post m) = (os, a)" "as' = as[i := a]"
      "t' = t" "s' = s"
  | (call) i m g k a where "i < length as" "as ! i = Some (m, Access g k)" "call_goes m (k s) = (os, a)"
      "as' = as[i := a]" "t' = t" "s' = g s"
  | (call_stuck) i m p where "i < length as" "as ! i = Some (m, p)" "\<not> is_access p"
  | (begin_fetch) "t = None" "fetch_goes fetch = (os, t')" "as' = as" "s' = s"
  | (fetch) g k where "t = Some (Access g k)" "fetch_goes (k s) = (os, t')" "as' = as" "s' = g s"
  | (fetch_stuck) p where "t = Some p" "\<not> is_access p"
  | (outside) "env s s'" "os = []" "as' = as" "t' = t"
proof -
  obtain mv where mv: "acc_move post fetch env mv (as, t, s) = (os, as', t', s')"
    using assms by (auto simp: acc_step_def)
  show thesis
  proof (cases mv)
    case (CallBegin i m)
    obtain os1 :: "('m, 'n) acc_out list" and a where go: "call_goes m (post m) = (os1, a)" by fastforce
    show thesis
    proof (cases "i < length as \<and> as ! i = None")
      case True
      then show thesis using mv by (intro begin_call[of i m a]) (simp_all add: CallBegin go)
    next
      case False
      then have "acc_move post fetch env mv (as, t, s) = ([], as, t, s)"
        by (cases "as ! i") (auto simp: CallBegin)
      then show thesis using mv by (intro none) simp_all
    qed
  next
    case (CallAccess i)
    show thesis
    proof (cases "i < length as \<and> as ! i \<noteq> None")
      case True
      then obtain m p where p: "as ! i = Some (m, p)" "i < length as" by auto
      show thesis
      proof (cases p)
        case (Access g k)
        obtain os1 :: "('m, 'n) acc_out list" and a where go: "call_goes m (k s) = (os1, a)" by fastforce
        show thesis
          using mv p by (intro call[of i m g k a]) (simp_all add: CallAccess Access advance_def go)
      qed (use call_stuck[of i m p] p in simp_all)
    next
      case False
      then have "acc_move post fetch env mv (as, t, s) = ([], as, t, s)"
        by (cases "as ! i") (auto simp: CallAccess)
      then show thesis using mv by (intro none) simp_all
    qed
  next
    case FetchBegin
    obtain os1 :: "('m, 'n) acc_out list" and t1 where go: "fetch_goes fetch = (os1, t1)" by fastforce
    show thesis
    proof (cases t)
      case None
      then show thesis using mv by (intro begin_fetch) (simp_all add: FetchBegin go)
    next
      case (Some p)
      then show thesis using mv by (intro none) (simp_all add: FetchBegin)
    qed
  next
    case FetchAccess
    show thesis
    proof (cases t)
      case None
      then show thesis using mv by (intro none) (simp_all add: FetchAccess)
    next
      case (Some p)
      show thesis
      proof (cases p)
        case (Access g k)
        obtain os1 :: "('m, 'n) acc_out list" and t1 where go: "fetch_goes (k s) = (os1, t1)" by fastforce
        show thesis using mv by (intro fetch[of g k]) (simp_all add: FetchAccess Some Access advance_def go)
      qed (use fetch_stuck[of p] Some in simp_all)
    qed
  next
    case (Outside s2)
    show thesis
    proof (cases "env s s2")
      case True
      then show thesis using mv by (intro outside) (simp_all add: Outside)
    next
      case False
      show thesis using mv by (intro none) (simp_all only: Outside acc_move.simps if_not_P[OF False] prod.inject)
    qed
  qed
qed

section \<open>One application thread: a mailbox\<close>

text \<open>The outputs replayed on the one-place queue of the theory Mailbox: what waits at the end, or
  \<open>None\<close> where an output is not the one the queue makes.\<close>

fun mb_replay :: "('m \<Rightarrow> bool) \<Rightarrow> ('m \<Rightarrow> 'n) \<Rightarrow> 'n option \<Rightarrow> ('m, 'n) acc_out list \<Rightarrow> 'n option option" where
  "mb_replay valid view q [] = Some q"
| "mb_replay valid view q (Returned m r # os) =
     (if \<not> valid m then (if r = RUNTIME_BLE_ERR_INVALID then mb_replay valid view q os else None)
      else if q = None then (if r = RUNTIME_BLE_OK then mb_replay valid view (Some (view m)) os else None)
      else if r = RUNTIME_BLE_ERR_NO_MEM then mb_replay valid view q os else None)"
| "mb_replay valid view q (Fetched n # os) = (if n = q then mb_replay valid view None os else None)"
| "mb_replay valid view q (Faulted # os) = None"

lemma mb_replay_append:
  "mb_replay valid view q os = Some q' \<Longrightarrow> mb_replay valid view q (os @ os') = mb_replay valid view q' os'"
  by (induction valid view q os rule: mb_replay.induct) (auto split: if_splits)

text \<open>What the accesses of a call and of a fetch do to what waits.\<close>

definition post_keeps :: "('s \<Rightarrow> bool) \<Rightarrow> ('s \<Rightarrow> 'n option) \<Rightarrow> ('s \<Rightarrow> 's \<Rightarrow> bool) \<Rightarrow> 's \<Rightarrow> 's \<Rightarrow> bool" where
  "post_keeps I pending Rc s s' \<longleftrightarrow> (I s \<longrightarrow> I s' \<and> Rc s s' \<and> pending s' = pending s)"

definition post_ends ::
  "('s \<Rightarrow> bool) \<Rightarrow> ('s \<Rightarrow> 'n option) \<Rightarrow> ('s \<Rightarrow> 's \<Rightarrow> bool) \<Rightarrow> 'n \<Rightarrow> c_int \<Rightarrow> 's \<Rightarrow> 's \<Rightarrow> bool" where
  "post_ends I pending Rc n r s s' \<longleftrightarrow>
     (I s \<longrightarrow> I s' \<and> Rc s s' \<and>
       (if pending s = None then r = RUNTIME_BLE_OK \<and> pending s' = Some n
        else r = RUNTIME_BLE_ERR_NO_MEM \<and> pending s' = pending s))"

definition fetch_ends ::
  "('s \<Rightarrow> bool) \<Rightarrow> ('s \<Rightarrow> 'n option) \<Rightarrow> ('s \<Rightarrow> 's \<Rightarrow> bool) \<Rightarrow> 'n option \<Rightarrow> 's \<Rightarrow> 's \<Rightarrow> bool" where
  "fetch_ends I pending Rp n s s' \<longleftrightarrow> (I s \<longrightarrow> I s' \<and> Rp s s' \<and> n = pending s \<and> pending s' = None)"

lemmas channel_accesses = post_keeps_def post_ends_def fetch_ends_def

text \<open>\<open>Rp\<close> is what the posting thread relies on, \<open>Rc\<close> what the fetching one relies on.\<close>

locale publication =
  fixes I :: "'s \<Rightarrow> bool"
    and pending :: "'s \<Rightarrow> 'n option"
    and post :: "'m \<Rightarrow> ('s, c_int) prog"
    and fetch :: "('s, 'n option) prog"
    and env :: "'s \<Rightarrow> 's \<Rightarrow> bool"
    and valid :: "'m \<Rightarrow> bool"
    and view :: "'m \<Rightarrow> 'n"
    and Rp :: "'s \<Rightarrow> 's \<Rightarrow> bool"
    and Rc :: "'s \<Rightarrow> 's \<Rightarrow> bool"
  assumes trans_p: "Rp a b \<Longrightarrow> Rp b c \<Longrightarrow> Rp a c" and refl_p: "Rp a a"
    and trans_c: "Rc a b \<Longrightarrow> Rc b c \<Longrightarrow> Rc a c" and refl_c: "Rc a a"
    and post_valid: "I s \<Longrightarrow> valid m \<Longrightarrow>
      is_access (post m) \<and> sat Rp (post_keeps I pending Rc) (post_ends I pending Rc (view m)) (post m) s"
    and post_refused: "\<not> valid m \<Longrightarrow> post m = Ret RUNTIME_BLE_ERR_INVALID"
    and fetch_prog: "I s \<Longrightarrow> is_access fetch \<and> sat Rc (post_keeps I pending Rp) (fetch_ends I pending Rp) fetch s"
    and env_ok: "env s s' \<Longrightarrow> I s \<Longrightarrow> I s' \<and> Rp s s' \<and> Rc s s' \<and> pending s' = pending s"
begin

definition call_ok :: "'s \<Rightarrow> ('m \<times> ('s, c_int) prog) option \<Rightarrow> bool" where
  "call_ok s a \<longleftrightarrow> (case a of None \<Rightarrow> True | Some (m, p) \<Rightarrow>
     valid m \<and> is_access p \<and> sat Rp (post_keeps I pending Rc) (post_ends I pending Rc (view m)) p s)"

definition fetch_ok :: "'s \<Rightarrow> ('s, 'n option) prog option \<Rightarrow> bool" where
  "fetch_ok s t \<longleftrightarrow> (case t of None \<Rightarrow> True | Some p \<Rightarrow>
     is_access p \<and> sat Rc (post_keeps I pending Rp) (fetch_ends I pending Rp) p s)"

definition conf_ok :: "('m, 'n, 's) conf \<Rightarrow> bool" where
  "conf_ok c \<longleftrightarrow> (case c of (as, t, s) \<Rightarrow> length as = 1 \<and> I s \<and> call_ok s (as ! 0) \<and> fetch_ok s t)"

lemma call_ok_stable: "call_ok s a \<Longrightarrow> Rp s s' \<Longrightarrow> call_ok s' a"
  using sat_stable[of Rp] trans_p by (fastforce simp: call_ok_def split: option.splits)

lemma fetch_ok_stable: "fetch_ok s t \<Longrightarrow> Rc s s' \<Longrightarrow> fetch_ok s' t"
  using sat_stable[of Rc] trans_c by (fastforce simp: fetch_ok_def split: option.splits)

lemma call_access:
  assumes "call_ok s (Some (m, Access g k))" "I s" "call_goes m (k s) = (os, a)"
  shows "I (g s) \<and> Rc s (g s) \<and> call_ok (g s) a \<and> mb_replay valid view (pending s) os = Some (pending (g s))"
proof -
  have v: "valid m" "goes_on Rp (post_keeps I pending Rc) (post_ends I pending Rc (view m)) (k s) s (g s)"
    using assms(1) refl_p by (auto simp: call_ok_def sat_def)
  show ?thesis
  proof (cases "k s")
    case (Ret r)
    then show ?thesis using v assms(2,3) by (auto simp: call_goes_def call_ok_def post_ends_def split: if_splits)
  next
    case (Access g' k')
    then show ?thesis
      using v assms(2,3) by (auto simp: call_goes_def call_ok_def post_keeps_def sat_access)
  qed (use v in simp)
qed

lemma fetch_access:
  assumes "fetch_ok s (Some (Access g k))" "I s" "fetch_goes (k s) = (os, t)"
  shows "I (g s) \<and> Rp s (g s) \<and> fetch_ok (g s) t \<and> mb_replay valid view (pending s) os = Some (pending (g s))"
proof -
  have v: "goes_on Rc (post_keeps I pending Rp) (fetch_ends I pending Rp) (k s) s (g s)"
    using assms(1) refl_c by (auto simp: fetch_ok_def sat_def)
  show ?thesis
  proof (cases "k s")
    case (Ret r)
    then show ?thesis using v assms(2,3) by (auto simp: fetch_goes_def fetch_ok_def fetch_ends_def)
  next
    case (Access g' k')
    then show ?thesis
      using v assms(2,3) by (auto simp: fetch_goes_def fetch_ok_def post_keeps_def sat_access)
  qed (use v in simp)
qed

lemma step_replays:
  assumes "acc_step post fetch env (as, t, s) os (as', t', s')" "conf_ok (as, t, s)"
  shows "conf_ok (as', t', s') \<and> mb_replay valid view (pending s) os = Some (pending s')"
proof -
  have ok: "length as = 1" "I s" "call_ok s (as ! 0)" "fetch_ok s t" using assms(2) by (auto simp: conf_ok_def)
  show ?thesis
    using assms(1)
  proof (cases rule: acc_step_cases)
    case none
    then show ?thesis using assms(2) by simp
  next
    case (begin_call i m a)
    have call: "(os, a) = (if valid m then ([], Some (m, post m)) else ([Returned m RUNTIME_BLE_ERR_INVALID], None))"
      using begin_call(3) post_valid[OF ok(2), of m] post_refused[of m]
      by (auto simp: call_goes_def is_access_def split: prog.splits if_splits)
    have "call_ok s a" using call post_valid[OF ok(2)] by (auto simp: call_ok_def split: if_splits)
    then show ?thesis using begin_call ok call by (auto simp: conf_ok_def split: if_splits)
  next
    case (call i m g k a)
    then have "call_ok s (Some (m, Access g k))" using ok by simp
    from call_access[OF this ok(2) call(3)] call ok fetch_ok_stable[OF ok(4)]
    show ?thesis by (auto simp: conf_ok_def)
  next
    case (call_stuck i m p)
    then show ?thesis using ok by (auto simp: call_ok_def)
  next
    case begin_fetch
    have acc: "is_access fetch" using fetch_prog[OF ok(2)] by simp
    then have "os = [] \<and> t' = Some fetch"
      using begin_fetch(2) by (cases fetch) (simp_all add: fetch_goes_def)
    then show ?thesis using begin_fetch ok fetch_prog[OF ok(2)] by (auto simp: conf_ok_def fetch_ok_def)
  next
    case (fetch g k)
    then have "fetch_ok s (Some (Access g k))" using ok by simp
    from fetch_access[OF this ok(2) fetch(2)] fetch ok call_ok_stable[OF ok(3)]
    show ?thesis by (auto simp: conf_ok_def)
  next
    case (fetch_stuck p)
    then show ?thesis using ok by (auto simp: fetch_ok_def)
  next
    case outside
    then show ?thesis
      using env_ok[OF outside(1) ok(2)] ok call_ok_stable[OF ok(3)] fetch_ok_stable[OF ok(4)] by (auto simp: conf_ok_def)
  qed
qed

lemma interleaving_is_mailbox:
  assumes "runs (acc_step post fetch env) c os (as, t, s)" "c = ([None], None, s0)" "I s0"
  shows "mb_replay valid view (pending s0) os = Some (pending s) \<and> I s"
proof -
  have "runs (acc_step post fetch env) c os c' \<Longrightarrow> conf_ok c \<Longrightarrow>
      conf_ok c' \<and> mb_replay valid view (pending (snd (snd c))) os = Some (pending (snd (snd c')))" for c os c'
  proof (induction rule: runs.induct)
    case (runs_snoc c os c' os' c'')
    then show ?case
      using step_replays[of "fst c'" "fst (snd c')" "snd (snd c')" os' "fst c''" "fst (snd c'')" "snd (snd c'')"]
      by (simp add: mb_replay_append)
  qed simp
  from this[OF assms(1)] show ?thesis using assms(2,3) by (simp add: conf_ok_def call_ok_def fetch_ok_def)
qed

end

section \<open>Any number of threads: accesses in bounds\<close>

definition keeps :: "('s \<Rightarrow> bool) \<Rightarrow> 's \<Rightarrow> 's \<Rightarrow> bool" where
  "keeps I s s' \<longleftrightarrow> (I s \<longrightarrow> I s')"

definition in_bounds :: "('s \<Rightarrow> bool) \<Rightarrow> ('s, 'r) prog \<Rightarrow> 's \<Rightarrow> bool" where
  "in_bounds I p s \<longleftrightarrow> is_access p \<and> sat (keeps I) (keeps I) (\<lambda>_. keeps I) p s"

lemma in_bounds_stable: "in_bounds I p s \<Longrightarrow> keeps I s s' \<Longrightarrow> in_bounds I p s'"
  unfolding in_bounds_def by (blast intro: sat_stable[of "keeps I"] dest: keeps_def[THEN iffD1] intro: keeps_def[THEN iffD2])

locale bounded_accesses =
  fixes I :: "'s \<Rightarrow> bool"
    and post :: "'m \<Rightarrow> ('s, c_int) prog"
    and fetch :: "('s, 'n option) prog"
    and env :: "'s \<Rightarrow> 's \<Rightarrow> bool"
  assumes post_in_bounds: "I s \<Longrightarrow> (\<exists>r. post m = Ret r) \<or> in_bounds I (post m) s"
    and fetch_in_bounds: "I s \<Longrightarrow> in_bounds I fetch s"
    and env_keeps: "env s s' \<Longrightarrow> I s \<Longrightarrow> I s'"
begin

definition thread_bounded :: "'s \<Rightarrow> ('m \<times> ('s, c_int) prog) option \<Rightarrow> bool" where
  "thread_bounded s a \<longleftrightarrow> (case a of None \<Rightarrow> True | Some (m, p) \<Rightarrow> in_bounds I p s)"

definition bounded :: "('m, 'n, 's) conf \<Rightarrow> bool" where
  "bounded c \<longleftrightarrow> (case c of (as, t, s) \<Rightarrow>
     I s \<and> list_all (thread_bounded s) as \<and> (case t of None \<Rightarrow> True | Some p \<Rightarrow> in_bounds I p s))"

lemma bounded_update:
  assumes "list_all (thread_bounded s) as" "keeps I s s'" "thread_bounded s' a"
  shows "list_all (thread_bounded s') (as[i := a])"
proof -
  have "thread_bounded s' x" if "thread_bounded s x" for x
    using that in_bounds_stable[OF _ assms(2)] by (auto simp: thread_bounded_def split: option.splits)
  then show ?thesis
    using assms(1,3) set_update_subset_insert[of as i a] by (fastforce simp: list_all_iff)
qed

lemma in_bounds_access:
  "in_bounds I (Access g k) s \<Longrightarrow> I s \<Longrightarrow>
     keeps I s (g s) \<and> k s \<noteq> Fault \<and> (is_access (k s) \<longrightarrow> in_bounds I (k s) (g s))"
  using goes_on_access[of "k s"] by (cases "k s") (auto simp: in_bounds_def sat_access keeps_def)

lemma step_bounded:
  assumes "acc_step post fetch env (as, t, s) os (as', t', s')" "bounded (as, t, s)"
  shows "bounded (as', t', s') \<and> list_all (\<lambda>x. x \<noteq> Faulted) os"
proof -
  have ok: "I s" "list_all (thread_bounded s) as" "\<And>p. t = Some p \<Longrightarrow> in_bounds I p s"
    using assms(2) by (auto simp: bounded_def)
  have thread: "in_bounds I p s" if "i < length as" "as ! i = Some (m, p)" for i m p
    using ok(2) that by (auto simp: list_all_iff thread_bounded_def dest!: nth_mem)
  have t_stable: "case t of None \<Rightarrow> True | Some p \<Rightarrow> in_bounds I p s'" if "keeps I s s'" for s'
    using ok(3) in_bounds_stable[OF _ that] by (cases t) auto
  have as_stable: "list_all (thread_bounded s') as" if "keeps I s s'" for s'
    using bounded_update[OF ok(2) that, of "None" "length as"]
    by (simp add: thread_bounded_def list_update_beyond)
  show ?thesis
    using assms(1)
  proof (cases rule: acc_step_cases)
    case (begin_call i m a)
    have "thread_bounded s a \<and> list_all (\<lambda>x. x \<noteq> Faulted) os"
      using begin_call(3) post_in_bounds[OF ok(1), of m]
      by (cases "post m") (auto simp: call_goes_def thread_bounded_def in_bounds_def)
    moreover have "keeps I s s" by (simp add: keeps_def)
    ultimately show ?thesis
      using begin_call ok bounded_update[OF ok(2), of s a i] t_stable[of s] by (simp add: bounded_def)
  next
    case (call i m g k a)
    have k: "keeps I s (g s)" "k s \<noteq> Fault" "is_access (k s) \<Longrightarrow> in_bounds I (k s) (g s)"
      using in_bounds_access[OF thread[OF call(1,2)] ok(1)] by blast+
    have "thread_bounded (g s) a \<and> list_all (\<lambda>x. x \<noteq> Faulted) os"
      using call(3) k(2,3) by (cases "k s") (auto simp: call_goes_def thread_bounded_def)
    then show ?thesis
      using call ok(1) k(1) bounded_update[OF ok(2) k(1), of a i] t_stable[OF k(1)] by (simp add: bounded_def keeps_def)
  next
    case (call_stuck i m p)
    then show ?thesis using thread by (auto simp: in_bounds_def)
  next
    case begin_fetch
    then have "t' = Some fetch \<and> os = []"
      using fetch_in_bounds[OF ok(1)] by (cases fetch) (auto simp: fetch_goes_def in_bounds_def)
    then show ?thesis using begin_fetch ok fetch_in_bounds[OF ok(1)] by (simp add: bounded_def)
  next
    case (fetch g k)
    have k: "keeps I s (g s)" "k s \<noteq> Fault" "is_access (k s) \<Longrightarrow> in_bounds I (k s) (g s)"
      using in_bounds_access[OF ok(3)[OF fetch(1)] ok(1)] by blast+
    then show ?thesis
      using fetch(2-4) ok(1) as_stable[OF k(1)]
      by (cases "k s") (auto simp: fetch_goes_def bounded_def keeps_def)
  next
    case (fetch_stuck p)
    then show ?thesis using ok(3) by (auto simp: in_bounds_def)
  next
    case outside
    then have "keeps I s s'" using env_keeps[OF outside(1)] by (simp add: keeps_def)
    then show ?thesis using outside ok(1) as_stable t_stable by (simp add: bounded_def keeps_def)
  qed (use assms(2) in simp)
qed

end

sublocale bounded_accesses \<subseteq> step_invariant "acc_step post fetch env" bounded "\<lambda>x. x \<noteq> Faulted"
proof unfold_locales
  fix c os c'
  assume "acc_step post fetch env c os c'" "bounded c"
  then show "bounded c' \<and> list_all (\<lambda>x. x \<noteq> Faulted) os"
    using step_bounded[of "fst c" "fst (snd c)" "snd (snd c)" os "fst c'" "fst (snd c')" "snd (snd c')"] by simp
qed

context bounded_accesses
begin

lemma no_fault:
  assumes "runs (acc_step post fetch env) (replicate n None, None, s) os c" "I s"
  shows "list_all (\<lambda>x. x \<noteq> Faulted) os \<and> I (snd (snd c))"
proof -
  have "bounded (replicate n None, None, s)"
    using assms(2) by (simp add: bounded_def thread_bounded_def list_all_iff)
  from runs_keep[OF assms(1) this] show ?thesis by (auto simp: bounded_def)
qed

end

end
