(* ===== verification/CallPrograms.thy ===== *)
theory CallPrograms
  imports Access TxApi
begin

text \<open>
  The transmit queue access by access: \<^verbatim>\<open>queue_tx\<close> of \<^verbatim>\<open>lib.rs\<close> and the taking half of
  the \<^verbatim>\<open>tx\<close> loop of \<^verbatim>\<open>radio.rs\<close> as programs of the theory Access. Run alone each is
  the single step of the theory TxApi; one application thread interleaved with the runtime
  thread behaves as the mailbox; any number of threads stay within the buffer.
\<close>

section \<open>The programs\<close>

definition put_send_buf :: "u8 list \<Rightarrow> shared \<Rightarrow> shared" where
  "put_send_buf b s = s\<lparr>SEND_BUF := b\<rparr>"

definition queue_tx_prog :: "usize \<Rightarrow> usize \<Rightarrow> u8 ptr \<Rightarrow> usize \<Rightarrow> (shared, c_int) prog" where
  "queue_tx_prog chr kind data len =
     (case data of
        None \<Rightarrow> Ret RUNTIME_BLE_ERR_INVALID
      | Some m \<Rightarrow>
          if len = 0 \<or> len > SEND_BUF_CAP then Ret RUNTIME_BLE_ERR_INVALID
          else load SEND_REQ (\<lambda>busy.
            if busy then Ret RUNTIME_BLE_ERR_NO_MEM
            else copy_in SEND_BUF put_send_buf (from_raw_parts m (unat len)) 0
              (store (\<lambda>s. s\<lparr>SEND_CHR := chr\<rparr>)
              (store (\<lambda>s. s\<lparr>SEND_KIND := kind\<rparr>)
              (store (\<lambda>s. s\<lparr>SEND_LEN := len\<rparr>)
              (store (\<lambda>s. s\<lparr>SEND_REQ := True\<rparr>)
              (Ret RUNTIME_BLE_OK)))))))"

definition tx_fetch_prog :: "features \<Rightarrow> (shared, (usize \<times> usize \<times> u8 list) option) prog" where
  "tx_fetch_prog f =
     load SEND_REQ (\<lambda>queued.
       if \<not> queued then Ret None
       else load SEND_CHR (\<lambda>chr. load SEND_KIND (\<lambda>kind. load SEND_LEN (\<lambda>l.
         let len = min (min (unat l) (VALUE_LEN f)) (unat SEND_BUF_CAP)
         in copy_out SEND_BUF len [] (\<lambda>bytes.
              let txbuf = blit (replicate (VALUE_LEN f) 0) 0 bytes
              in store (\<lambda>s. s\<lparr>SEND_REQ := False\<rparr>) (Ret (Some (chr, kind, take len txbuf))))))))"

text \<open>Run alone.\<close>

lemma exec_queue_tx:
  assumes "tx_inv s"
  shows "exec (queue_tx_prog chr kind data len) s =
     (Some (fst (queue_tx chr kind data len s)), snd (queue_tx chr kind data len s))"
  using assms unat_le_cap[of len]
  by (auto simp: queue_tx_prog_def queue_tx_def put_send_buf_def tx_inv_def not_less exec_copy_in split: option.split)

lemma exec_tx_fetch:
  assumes "tx_inv s"
  shows "exec (tx_fetch_prog f) s = (Some (fst (tx_fetch f s)), snd (tx_fetch f s))"
  using assms unat_le_cap[of "SEND_LEN s"]
  by (simp add: tx_fetch_prog_def tx_fetch_def tx_inv_def Let_def exec_copy_out0)

section \<open>What each side relies on\<close>

definition tx_same :: "shared \<Rightarrow> shared \<Rightarrow> bool" where
  "tx_same s s' \<longleftrightarrow> SEND_BUF s' = SEND_BUF s \<and> SEND_CHR s' = SEND_CHR s \<and> SEND_KIND s' = SEND_KIND s
     \<and> SEND_LEN s' = SEND_LEN s"

definition tx_outside :: "shared \<Rightarrow> shared \<Rightarrow> bool" where
  "tx_outside s s' \<longleftrightarrow> tx_same s s' \<and> SEND_REQ s' = SEND_REQ s"

definition tx_rely_post :: "shared \<Rightarrow> shared \<Rightarrow> bool" where
  "tx_rely_post s s' \<longleftrightarrow> tx_same s s' \<and> (SEND_REQ s' \<longrightarrow> SEND_REQ s)"

definition tx_rely_fetch :: "shared \<Rightarrow> shared \<Rightarrow> bool" where
  "tx_rely_fetch s s' \<longleftrightarrow> (tx_inv s \<longrightarrow> tx_inv s') \<and> (SEND_REQ s \<longrightarrow> tx_same s s' \<and> SEND_REQ s')"

lemmas tx_rely_defs = tx_same_def tx_outside_def tx_rely_post_def tx_rely_fetch_def

text \<open>While the bytes are copied in nothing is queued; the first \<open>j\<close> are there.\<close>

definition tx_copied :: "u8 list \<Rightarrow> nat \<Rightarrow> shared \<Rightarrow> bool" where
  "tx_copied bytes j s \<longleftrightarrow> tx_inv s \<and> \<not> SEND_REQ s \<and> take j (SEND_BUF s) = take j bytes"

lemma tx_copied_byte:
  "tx_copied bytes j s \<Longrightarrow> j < length bytes \<Longrightarrow> length bytes \<le> 512 \<Longrightarrow>
     j < length (SEND_BUF s) \<and> tx_copied bytes (Suc j) (put_send_buf ((SEND_BUF s)[j := bytes ! j]) s)"
  by (simp add: tx_copied_def tx_inv_def put_send_buf_def take_Suc_conv_app_nth)

lemma tx_copied_stable: "tx_copied bytes j s \<Longrightarrow> tx_rely_post s s' \<Longrightarrow> tx_copied bytes j s'"
  by (auto simp: tx_copied_def tx_rely_defs tx_inv_def)

lemma queue_tx_publishes:
  assumes "tx_inv s0" "data = Some m" "len \<noteq> 0" "len \<le> SEND_BUF_CAP"
  shows "sat tx_rely_post (post_keeps tx_inv (tx_pending f) tx_rely_fetch)
     (post_ends tx_inv (tx_pending f) tx_rely_fetch (tx_view f (chr, kind, data, len)))
     (queue_tx_prog chr kind data len) s0"
proof -
  let ?bytes = "from_raw_parts m (unat len)"
  let ?R = tx_rely_post and ?G = "post_keeps tx_inv (tx_pending f) tx_rely_fetch"
  let ?Q = "post_ends tx_inv (tx_pending f) tx_rely_fetch (tx_view f (chr, kind, data, len))"
  define rest :: "(shared, c_int) prog" where
    "rest = store (\<lambda>s. s\<lparr>SEND_CHR := chr\<rparr>) (store (\<lambda>s. s\<lparr>SEND_KIND := kind\<rparr>)
       (store (\<lambda>s. s\<lparr>SEND_LEN := len\<rparr>) (store (\<lambda>s. s\<lparr>SEND_REQ := True\<rparr>) (Ret RUNTIME_BLE_OK))))"
  have bytes: "length ?bytes = unat len" "unat len \<le> 512" using unat_le_cap[OF assms(4)] by simp_all
  have view: "tx_view f (chr, kind, data, len) = (chr, kind, take (VALUE_LEN f) ?bytes)"
    by (simp add: tx_view_def assms(2) slice_or_empty_def)
  have rest: "sat ?R ?G ?Q rest s" if "tx_copied ?bytes (unat len) s" for s
    using that bytes(1) assms(4)
    by (auto simp: rest_def store_def sat_access channel_accesses tx_copied_def tx_rely_defs tx_inv_def tx_pending_def view)
  have copy: "sat ?R ?G ?Q (copy_in SEND_BUF put_send_buf ?bytes 0 rest) s" if "tx_copied ?bytes 0 s" for s
  proof (rule sat_copy_in[where J = "tx_copied ?bytes"])
    fix j s
    assume j: "j < 0 + length ?bytes" "tx_copied ?bytes j s"
    then have byte: "j < length (SEND_BUF s) \<and> tx_copied ?bytes (Suc j) (put_send_buf ((SEND_BUF s)[j := ?bytes ! j]) s)"
      using tx_copied_byte[of ?bytes j s] bytes by simp
    moreover have "?G s (put_send_buf ((SEND_BUF s)[j := ?bytes ! j]) s)"
      using j(2) byte by (simp add: channel_accesses tx_copied_def tx_rely_defs put_send_buf_def tx_pending_def)
    ultimately show "j < length (SEND_BUF s) \<and> ?G s (put_send_buf ((SEND_BUF s)[j := ?bytes ! (j - 0)]) s)
        \<and> tx_copied ?bytes (Suc j) (put_send_buf ((SEND_BUF s)[j := ?bytes ! (j - 0)]) s)" by simp
  qed (use that rest bytes tx_copied_stable in \<open>simp_all add: rest_def\<close>)
  have busy: "goes_on ?R ?G ?Q
      (if SEND_REQ s1 then Ret RUNTIME_BLE_ERR_NO_MEM else copy_in SEND_BUF put_send_buf ?bytes 0 rest) s1 s1"
    if "?R s0 s1" for s1
  proof -
    have inv: "tx_inv s1" using that assms(1) by (simp add: tx_rely_defs tx_inv_def)
    have "is_access (copy_in SEND_BUF put_send_buf ?bytes 0 rest)" by (simp add: rest_def)
    moreover have "tx_copied ?bytes 0 s1" if "\<not> SEND_REQ s1" using that inv by (simp add: tx_copied_def)
    ultimately show ?thesis
      using copy[of s1] by (simp add: goes_on_access channel_accesses tx_rely_defs tx_pending_def)
  qed
  have prog: "queue_tx_prog chr kind data len = load SEND_REQ (\<lambda>busy. if busy then Ret RUNTIME_BLE_ERR_NO_MEM
      else copy_in SEND_BUF put_send_buf ?bytes 0 rest)"
    using assms(2-4) by (simp add: queue_tx_prog_def rest_def leD cong: if_cong)
  show ?thesis unfolding prog by (rule satI(1)) (rule busy)
qed

text \<open>While the bytes are copied out the message stays queued.\<close>

definition tx_taken :: "usize \<Rightarrow> usize \<Rightarrow> usize \<Rightarrow> u8 list \<Rightarrow> shared \<Rightarrow> bool" where
  "tx_taken chr kind l acc s \<longleftrightarrow> tx_inv s \<and> SEND_REQ s \<and> SEND_CHR s = chr \<and> SEND_KIND s = kind \<and> SEND_LEN s = l
     \<and> acc = take (length acc) (SEND_BUF s)"

lemma tx_taken_stable: "tx_taken chr kind l acc s \<Longrightarrow> tx_rely_fetch s s' \<Longrightarrow> tx_taken chr kind l acc s'"
  by (simp add: tx_taken_def tx_rely_defs)

lemma tx_fetch_takes:
  assumes "tx_inv s0"
  shows "sat tx_rely_fetch (post_keeps tx_inv (tx_pending f) tx_rely_post)
     (fetch_ends tx_inv (tx_pending f) tx_rely_post) (tx_fetch_prog f) s0"
proof -
  let ?R = tx_rely_fetch and ?G = "post_keeps tx_inv (tx_pending f) tx_rely_post"
  let ?Q = "fetch_ends tx_inv (tx_pending f) tx_rely_post"
  define len where "len l = min (min (unat (l :: usize)) (VALUE_LEN f)) (unat SEND_BUF_CAP)" for l
  define rest :: "usize \<Rightarrow> usize \<Rightarrow> usize \<Rightarrow> u8 list \<Rightarrow> (shared, (usize \<times> usize \<times> u8 list) option) prog"
    where "rest chr kind l bytes = store (\<lambda>s. s\<lparr>SEND_REQ := False\<rparr>)
      (Ret (Some (chr, kind, take (len l) (blit (replicate (VALUE_LEN f) 0) 0 bytes))))"
    for chr kind l bytes
  have same: "?G s s" for s by (simp add: channel_accesses tx_rely_defs)
  have rest: "sat ?R ?G ?Q (rest chr kind l bytes) s"
    if "length bytes = len l" "tx_taken chr kind l bytes s" for chr kind l bytes s
  proof -
    have "?Q (Some (chr, kind, take (len l) (blit (replicate (VALUE_LEN f) 0) 0 bytes))) s1 (s1\<lparr>SEND_REQ := False\<rparr>)"
      if "tx_taken chr kind l bytes s1" for s1
    proof -
      have "unat l \<le> 512" "len l \<le> VALUE_LEN f" using that unat_le_cap by (auto simp: tx_taken_def tx_inv_def len_def)
      moreover have "take (VALUE_LEN f) (take (unat l) (SEND_BUF s1)) = bytes"
        using that \<open>length bytes = len l\<close> \<open>unat l \<le> 512\<close>
        by (simp add: tx_taken_def len_def SEND_BUF_CAP_def min.commute)
      ultimately show ?thesis
        using that \<open>length bytes = len l\<close> by (simp add: channel_accesses tx_taken_def tx_rely_defs tx_inv_def tx_pending_def blit_def)
    qed
    then show ?thesis
      using tx_taken_stable[OF that(2)] by (simp add: rest_def store_def sat_access)
  qed
  have copy: "sat ?R ?G ?Q (copy_out SEND_BUF (len l) [] (rest chr kind l)) s" if "tx_taken chr kind l [] s" for chr kind l s
  proof (rule sat_copy_out[where J = "tx_taken chr kind l" and m = "len l"])
    fix acc s
    assume "length acc < len l" "tx_taken chr kind l acc s"
    then show "length acc < length (SEND_BUF s) \<and> ?G s s \<and> tx_taken chr kind l (acc @ [SEND_BUF s ! length acc]) s"
      using same by (auto simp: tx_taken_def tx_inv_def len_def SEND_BUF_CAP_def take_Suc_conv_app_nth)
  qed (use that rest tx_taken_stable in \<open>simp_all add: rest_def\<close>)
  have accs: "is_access (copy_out SEND_BUF (len l) [] (rest chr kind l))" for chr kind l by (simp add: rest_def)
  have loads: "sat ?R ?G ?Q (load SEND_CHR (\<lambda>chr. load SEND_KIND (\<lambda>kind. load SEND_LEN (\<lambda>l.
      copy_out SEND_BUF (len l) [] (rest chr kind l))))) s" if "tx_inv s" "SEND_REQ s" for s
    using that
    by (auto simp: load_def sat_access goes_on_access accs same tx_rely_defs intro!: copy) (simp_all add: tx_taken_def)
  have prog: "tx_fetch_prog f = load SEND_REQ (\<lambda>queued. if \<not> queued then Ret None
      else load SEND_CHR (\<lambda>chr. load SEND_KIND (\<lambda>kind. load SEND_LEN (\<lambda>l.
        copy_out SEND_BUF (len l) [] (rest chr kind l)))))"
    by (simp add: tx_fetch_prog_def Let_def len_def rest_def[abs_def] cong: if_cong)
  have first: "goes_on ?R ?G ?Q (if \<not> SEND_REQ s1 then Ret None
      else load SEND_CHR (\<lambda>chr. load SEND_KIND (\<lambda>kind. load SEND_LEN (\<lambda>l.
        copy_out SEND_BUF (len l) [] (rest chr kind l))))) s1 s1" if "?R s0 s1" for s1
    using that assms loads[of s1] same
    by (auto simp: goes_on_access tx_rely_fetch_def channel_accesses tx_rely_post_def tx_same_def tx_pending_def)
  show ?thesis unfolding prog by (rule satI(1)) (rule first)
qed

section \<open>The interfaces\<close>

definition tx_prog :: "tx_msg \<Rightarrow> (shared, c_int) prog" where
  "tx_prog m = (case m of (chr, kind, data, len) \<Rightarrow> queue_tx_prog chr kind data len)"

lemma queue_tx_prog_cases:
  "\<not> tx_valid (chr, kind, data, len) \<Longrightarrow> queue_tx_prog chr kind data len = Ret RUNTIME_BLE_ERR_INVALID"
  "tx_valid (chr, kind, data, len) \<Longrightarrow> is_access (queue_tx_prog chr kind data len)"
  by (auto simp: tx_valid_def queue_tx_prog_def not_less split: option.split)

interpretation tx_threads: publication tx_inv "tx_pending f" tx_prog "tx_fetch_prog f" tx_outside tx_valid "tx_view f"
  tx_rely_post tx_rely_fetch
proof unfold_locales
  fix s s' a b c :: shared and m :: tx_msg
  show "tx_rely_post a a" "tx_rely_fetch a a" by (simp_all add: tx_rely_defs)
  show "tx_rely_post a c" if "tx_rely_post a b" "tx_rely_post b c" using that by (simp add: tx_rely_defs)
  show "tx_rely_fetch a c" if "tx_rely_fetch a b" "tx_rely_fetch b c" using that by (auto simp: tx_rely_defs)
  show "is_access (tx_prog m) \<and> sat tx_rely_post (post_keeps tx_inv (tx_pending f) tx_rely_fetch)
      (post_ends tx_inv (tx_pending f) tx_rely_fetch (tx_view f m)) (tx_prog m) s" if "tx_inv s" "tx_valid m"
    using that queue_tx_publishes queue_tx_prog_cases by (cases m) (auto simp: tx_prog_def tx_valid_def)
  show "tx_prog m = Ret RUNTIME_BLE_ERR_INVALID" if "\<not> tx_valid m"
    using that queue_tx_prog_cases by (cases m) (simp add: tx_prog_def)
  show "is_access (tx_fetch_prog f) \<and> sat tx_rely_fetch (post_keeps tx_inv (tx_pending f) tx_rely_post)
      (fetch_ends tx_inv (tx_pending f) tx_rely_post) (tx_fetch_prog f) s" if "tx_inv s"
    using tx_fetch_takes[OF that] by (simp add: tx_fetch_prog_def)
  show "tx_inv s' \<and> tx_rely_post s s' \<and> tx_rely_fetch s s' \<and> tx_pending f s' = tx_pending f s"
    if "tx_outside s s'" "tx_inv s"
    using that by (simp add: tx_rely_defs tx_inv_def tx_pending_def)
qed

lemma queue_tx_in_bounds:
  assumes "tx_inv s" "tx_valid (chr, kind, data, len)"
  shows "in_bounds tx_inv (queue_tx_prog chr kind data len) s"
proof -
  let ?K = "keeps tx_inv"
  obtain m where m: "data = Some m" "len \<noteq> 0" "len \<le> SEND_BUF_CAP" using assms(2) by (auto simp: tx_valid_def)
  let ?bytes = "from_raw_parts m (unat len)"
  define rest :: "(shared, c_int) prog" where
    "rest = store (\<lambda>s. s\<lparr>SEND_CHR := chr\<rparr>) (store (\<lambda>s. s\<lparr>SEND_KIND := kind\<rparr>)
       (store (\<lambda>s. s\<lparr>SEND_LEN := len\<rparr>) (store (\<lambda>s. s\<lparr>SEND_REQ := True\<rparr>) (Ret RUNTIME_BLE_OK))))"
  have rest: "sat ?K ?K (\<lambda>_. ?K) rest s" if "tx_inv s" for s
    using that m(3) by (simp add: rest_def store_def sat_access keeps_def tx_inv_def)
  have copy: "sat ?K ?K (\<lambda>_. ?K) (copy_in SEND_BUF put_send_buf ?bytes 0 rest) s" if "tx_inv s" for s
    using that rest unat_le_cap[OF m(3)]
    by (intro sat_copy_in[where J = "\<lambda>_. tx_inv"])
      (simp_all add: keeps_def tx_inv_def put_send_buf_def rest_def)
  have prog: "queue_tx_prog chr kind data len = load SEND_REQ (\<lambda>busy. if busy then Ret RUNTIME_BLE_ERR_NO_MEM
      else copy_in SEND_BUF put_send_buf ?bytes 0 rest)"
    using m by (simp add: queue_tx_prog_def rest_def leD cong: if_cong)
  have acc: "is_access (copy_in SEND_BUF put_send_buf ?bytes 0 rest)" by (simp add: rest_def)
  show ?thesis
    unfolding prog in_bounds_def
    using assms(1) copy acc by (auto simp: load_def sat_access goes_on_access keeps_def)
qed

lemma tx_fetch_in_bounds: "tx_inv s \<Longrightarrow> in_bounds tx_inv (tx_fetch_prog f) s"
proof -
  let ?K = "keeps tx_inv"
  assume "tx_inv s"
  have copy: "sat ?K ?K (\<lambda>_. ?K) (copy_out SEND_BUF n [] (\<lambda>bytes. store (\<lambda>s. s\<lparr>SEND_REQ := False\<rparr>) (Ret (r bytes)))) s"
    if "tx_inv s" "n \<le> 512" for n s and r :: "u8 list \<Rightarrow> (usize \<times> usize \<times> u8 list) option"
    using that
    by (intro sat_copy_out[where J = "\<lambda>_. tx_inv" and m = n])
      (auto simp: keeps_def tx_inv_def store_def sat_access)
  have le: "min (min (unat l) (VALUE_LEN f)) (unat SEND_BUF_CAP) \<le> 512" for l :: usize
    by (simp add: SEND_BUF_CAP_def)
  show ?thesis
    using \<open>tx_inv s\<close> copy[OF _ le]
    by (auto simp: in_bounds_def tx_fetch_prog_def load_def sat_access goes_on_access keeps_def Let_def)
qed

interpretation tx_bounds: bounded_accesses tx_inv tx_prog "tx_fetch_prog f" "keeps tx_inv"
proof unfold_locales
  fix s s' :: shared and m :: tx_msg
  assume I: "tx_inv s"
  show "(\<exists>r. tx_prog m = Ret r) \<or> in_bounds tx_inv (tx_prog m) s"
    using queue_tx_in_bounds[OF I] queue_tx_prog_cases(1) by (cases m; cases "tx_valid m") (auto simp: tx_prog_def)
  show "in_bounds tx_inv (tx_fetch_prog f) s" by (rule tx_fetch_in_bounds[OF I])
  show "tx_inv s'" if "keeps tx_inv s s'" using that I by (simp add: keeps_def)
qed

section \<open>Properties\<close>

text \<open>C4 (tx_threads_are_a_mailbox). One application thread and the runtime thread, interleaved
  access by access and with any other change outside the queue's statics: the results of the
  calls and the values taken are, in order, those of a one-place queue whose operations are
  single steps. No value is torn, lost or taken twice, and at every moment what waits in the
  statics is what waits in the queue.\<close>

theorem tx_threads_are_a_mailbox:
  assumes "runs (acc_step tx_prog (tx_fetch_prog f) tx_outside) ([None], None, s0) os (as, t, s)"
    and "tx_inv s0"
  shows "mb_replay tx_valid (tx_view f) (tx_pending f s0) os = Some (tx_pending f s)"
  using tx_threads.interleaving_is_mailbox[OF assms(1) refl assms(2)] by simp

text \<open>A fetch that starts while a call is copying its bytes in, and one after it.\<close>

definition demo_msg :: "u16 \<Rightarrow> u8 \<Rightarrow> usize \<Rightarrow> tx_msg" where
  "demo_msg chr b n = (ucast chr, SEND_KIND_AUTO, Some (\<lambda>i. b + of_nat i), n)"

definition demo_moves :: "(tx_msg, shared) move list" where
  "demo_moves = [CallBegin 0 (demo_msg 3 7 2), CallAccess 0, CallAccess 0, FetchBegin, FetchAccess]
     @ replicate 5 (CallAccess 0) @ [FetchBegin] @ replicate 7 FetchAccess"

theorem tx_threads_are_a_mailbox_witness:
  "\<exists>os as t s. acc_run tx_prog (tx_fetch_prog minimum_build) tx_outside demo_moves ([None], None, shared_init) = (os, as, t, s)
     \<and> acc_fetched os = [None, Some (3, 0, [7, 8])] \<and> acc_results os = [0]
     \<and> mb_replay tx_valid (tx_view minimum_build) None os = Some (tx_pending minimum_build s)"
proof -
  obtain os as t s where run:
    "acc_run tx_prog (tx_fetch_prog minimum_build) tx_outside demo_moves ([None], None, shared_init) = (os, as, t, s)"
    by (metis prod_cases4)
  have "(let os = fst (acc_run tx_prog (tx_fetch_prog minimum_build) tx_outside demo_moves ([None], None, shared_init))
      in acc_fetched os = [None, Some (3, 0, [7, 8])] \<and> acc_results os = [0])" by code_simp
  moreover have "tx_inv shared_init" "tx_pending minimum_build shared_init = None"
    using shared_inv_init by (simp_all add: shared_inv_def shared_init_def tx_pending_def)
  ultimately show ?thesis
    using run tx_threads_are_a_mailbox[OF acc_run_runs[OF run]] by auto
qed

text \<open>C9 (tx_accesses_in_bounds). Whatever any number of application threads and the runtime thread
  do at the same time, calls with any arguments, torn lengths included: no byte is ever read
  or written outside the transmit buffer, and the buffer keeps its size.\<close>

theorem tx_accesses_in_bounds:
  assumes "runs (acc_step tx_prog (tx_fetch_prog f) (keeps tx_inv)) (replicate n None, None, s0) os (as, t, s)"
    and "tx_inv s0"
  shows "list_all (\<lambda>x. x \<noteq> Faulted) os \<and> tx_inv s"
  using tx_bounds.no_fault[OF assms] by simp

theorem tx_accesses_in_bounds_witness:
  "list_all (\<lambda>x. x \<noteq> Faulted) (fst (acc_run tx_prog (tx_fetch_prog minimum_build) (keeps tx_inv)
     [CallBegin 0 (0, 0, Some (\<lambda>_. 1), 2), CallBegin 1 (1, 0, Some (\<lambda>_. 2), 1), CallAccess 0, CallAccess 1, CallAccess 0]
     ([None, None], None, shared_init)))"
proof -
  let ?mvs = "[CallBegin 0 (0, 0, Some (\<lambda>_. 1), 2), CallBegin 1 (1, 0, Some (\<lambda>_. 2), 1), CallAccess 0, CallAccess 1, CallAccess 0]"
  let ?c = "(replicate 2 None, None, shared_init) :: (tx_msg, usize \<times> usize \<times> u8 list, shared) conf"
  obtain os as t s where run: "acc_run tx_prog (tx_fetch_prog minimum_build) (keeps tx_inv) ?mvs ?c = (os, as, t, s)"
    by (metis prod_cases4)
  have "tx_inv shared_init" using shared_inv_init by (simp add: shared_inv_def)
  from tx_accesses_in_bounds[OF acc_run_runs[OF run] this] run show ?thesis
    by (simp add: numeral_2_eq_2)
qed

text \<open>C35 (two_senders_tear). With two application threads the queue is no mailbox: \<^verbatim>\<open>SEND_REQ\<close> is
  loaded before and stored after the bytes, so two calls can both find it clear. Both return
  \<open>RUNTIME_BLE_OK\<close>, the value sent is made of bytes of either, and the other one is lost.\<close>

definition race_moves :: "(tx_msg, shared) move list" where
  "race_moves = [CallBegin 0 (demo_msg 3 10 2), CallBegin 1 (demo_msg 4 20 2), CallAccess 0, CallAccess 1]
     @ [CallAccess 0, CallAccess 1, CallAccess 1, CallAccess 0] @ replicate 4 (CallAccess 1) @ replicate 4 (CallAccess 0)
     @ [FetchBegin] @ replicate 7 FetchAccess @ [FetchBegin, FetchAccess]"


end
