(* ===== verification/CommandPrograms.thy ===== *)
theory CommandPrograms
  imports Access LinkApi CentralLoop
begin

text \<open>
  The command words access by access. A link-control call stores its parameters and posts its
  command with a load and a store of \<^verbatim>\<open>LINK_CMD\<close>, the runtime takes it with one swap: with one
  application thread each accepted command is taken exactly once. The parameters, which
  the runtime loads after the swap, are not protected by it: \<^verbatim>\<open>wait_idle_cmd\<close> and
  \<^verbatim>\<open>runtime_ble_connect_addr\<close> show what that means.
\<close>

section \<open>Link commands\<close>

definition stores :: "('s \<Rightarrow> 's) list \<Rightarrow> ('s, 'r) prog \<Rightarrow> ('s, 'r) prog" where
  "stores gs p = foldr store gs p"

lemma stores_simps [simp]: "stores [] p = p" "stores (g # gs) p = store g (stores gs p)"
  by (simp_all add: stores_def)

definition link_cmd_prog :: "u32 \<Rightarrow> (shared, c_int) prog" where
  "link_cmd_prog cmd =
     load LINK_CMD (\<lambda>waiting.
       if waiting \<noteq> LCMD_NONE then Ret RUNTIME_BLE_ERR_NO_MEM
       else store (\<lambda>s. s\<lparr>LINK_CMD := cmd\<rparr>) (Ret RUNTIME_BLE_OK))"

text \<open>The parameter stores of each call, in order.\<close>

fun link_stores :: "link_call \<Rightarrow> (shared \<Rightarrow> shared) list" where
  "link_stores (SetPhy phy) = [\<lambda>s. s\<lparr>LINK_PHY := ucast phy\<rparr>]"
| "link_stores (UpdateDataLength oc t) =
     [\<lambda>s. s\<lparr>LINK_DLE_OCTETS := ucast oc\<rparr>, \<lambda>s. s\<lparr>LINK_DLE_TIME_US := ucast t\<rparr>]"
| "link_stores (UpdateConnParams mn mx l t) =
     [\<lambda>s. s\<lparr>LINK_CONN_MIN_MS := ucast mn\<rparr>, \<lambda>s. s\<lparr>LINK_CONN_MAX_MS := ucast mx\<rparr>,
      \<lambda>s. s\<lparr>LINK_CONN_LATENCY := ucast l\<rparr>, \<lambda>s. s\<lparr>LINK_CONN_TIMEOUT_MS := ucast t\<rparr>]"
| "link_stores (UpdateFrameSpace mn mx ph ty) =
     [\<lambda>s. s\<lparr>LINK_FRAME_SPACE_MIN_US := mn\<rparr>, \<lambda>s. s\<lparr>LINK_FRAME_SPACE_MAX_US := mx\<rparr>,
      \<lambda>s. s\<lparr>LINK_FRAME_SPACE_PHY_MASK := ucast ph\<rparr>, \<lambda>s. s\<lparr>LINK_FRAME_SPACE_TYPES := ucast ty\<rparr>]"
| "link_stores (RequestConnectionRate mn mx smn smx l cn t) =
     [\<lambda>s. s\<lparr>LINK_CONN_MIN_MS := ucast mn\<rparr>, \<lambda>s. s\<lparr>LINK_CONN_MAX_MS := ucast mx\<rparr>,
      \<lambda>s. s\<lparr>LINK_RATE_SUBRATE_MIN := ucast smn\<rparr>, \<lambda>s. s\<lparr>LINK_RATE_SUBRATE_MAX := ucast smx\<rparr>,
      \<lambda>s. s\<lparr>LINK_CONN_LATENCY := ucast l\<rparr>, \<lambda>s. s\<lparr>LINK_RATE_CONTINUATION := ucast cn\<rparr>,
      \<lambda>s. s\<lparr>LINK_CONN_TIMEOUT_MS := ucast t\<rparr>]"
| "link_stores (PasskeyInput p) = [\<lambda>s. s\<lparr>LINK_PASSKEY := p\<rparr>]"
| "link_stores _ = []"

definition link_call_prog :: "link_call \<Rightarrow> (shared, c_int) prog" where
  "link_call_prog c =
     (if link_call_valid c then stores (link_stores c) (link_cmd_prog (link_call_cmd c))
      else Ret RUNTIME_BLE_ERR_INVALID)"

definition link_take_prog :: "(shared, u32 option) prog" where
  "link_take_prog =
     swap LINK_CMD (\<lambda>s. s\<lparr>LINK_CMD := LCMD_NONE\<rparr>) (\<lambda>cmd. Ret (if cmd = LCMD_NONE then None else Some cmd))"

lemma exec_stores: "exec (stores gs p) s = exec p (fold (\<lambda>g s. g s) gs s)"
  by (induction gs arbitrary: s) simp_all

lemma link_stores_store: "fold (\<lambda>g s. g s) (link_stores c) s = link_store c s"
  by (cases c) simp_all

lemma exec_link_call: "exec (link_call_prog c) s = (Some (fst (link_post c s)), snd (link_post c s))"
  by (simp add: link_call_prog_def link_post_eq exec_stores link_stores_store link_cmd_prog_def link_cmd_def)

lemma exec_link_take: "exec link_take_prog s = (Some (fst (link_fetch s)), snd (link_fetch s))"
  by (simp add: link_take_prog_def link_fetch_def)

text \<open>The posting thread relies on nobody else posting; the swap relies on nothing.\<close>

definition link_rely_post :: "shared \<Rightarrow> shared \<Rightarrow> bool" where
  "link_rely_post s s' \<longleftrightarrow> LINK_CMD s' = LINK_CMD s \<or> LINK_CMD s' = LCMD_NONE"

definition link_outside :: "shared \<Rightarrow> shared \<Rightarrow> bool" where
  "link_outside s s' \<longleftrightarrow> LINK_CMD s' = LINK_CMD s"

lemma sat_stores:
  assumes "\<And>g s. g \<in> set gs \<Longrightarrow> G s (g s)" "is_access p" "\<And>s. sat R G Q p s"
  shows "is_access (stores gs p) \<and> sat R G Q (stores gs p) s"
  using assms(1)
proof (induction gs arbitrary: s)
  case (Cons g gs)
  have ih: "is_access (stores gs p)" "\<And>s. sat R G Q (stores gs p) s" using Cons by auto
  then show ?case using Cons.prems[of g] goes_on_access[OF ih(1)] by (auto intro!: satI(2))
qed (use assms(2,3) in simp)

lemma link_stores_keep_word: "g \<in> set (link_stores c) \<Longrightarrow> LINK_CMD (g s) = LINK_CMD s"
  by (cases c) auto

interpretation link_threads: publication "\<lambda>_. True" link_pending link_call_prog link_take_prog link_outside
  link_call_valid link_call_cmd link_rely_post "\<lambda>_ _. True"
proof unfold_locales
  fix s s' a b c :: shared and m :: link_call
  show "link_rely_post a a" by (simp add: link_rely_post_def)
  show "link_rely_post a c" if "link_rely_post a b" "link_rely_post b c"
    using that by (auto simp: link_rely_post_def)
  show "is_access (link_call_prog m) \<and> sat link_rely_post (post_keeps (\<lambda>_. True) link_pending (\<lambda>_ _. True))
      (post_ends (\<lambda>_. True) link_pending (\<lambda>_ _. True) (link_call_cmd m)) (link_call_prog m) s"
    if "link_call_valid m"
  proof -
    have "sat link_rely_post (post_keeps (\<lambda>_. True) link_pending (\<lambda>_ _. True))
        (post_ends (\<lambda>_. True) link_pending (\<lambda>_ _. True) (link_call_cmd m)) (link_cmd_prog (link_call_cmd m)) s" for s
      using link_call_cmd_not_none[of m]
      by (auto simp: link_cmd_prog_def load_def store_def sat_access channel_accesses link_pending_def link_rely_post_def)
    moreover have "is_access (link_cmd_prog (link_call_cmd m))" by (simp add: link_cmd_prog_def)
    moreover have "post_keeps (\<lambda>_. True) link_pending (\<lambda>_ _. True) s (g s)" if "g \<in> set (link_stores m)" for g s
      using link_stores_keep_word[OF that] by (simp add: channel_accesses link_pending_def)
    ultimately have "is_access (stores (link_stores m) (link_cmd_prog (link_call_cmd m)))
        \<and> sat link_rely_post (post_keeps (\<lambda>_. True) link_pending (\<lambda>_ _. True))
            (post_ends (\<lambda>_. True) link_pending (\<lambda>_ _. True) (link_call_cmd m))
            (stores (link_stores m) (link_cmd_prog (link_call_cmd m))) s"
      by (intro sat_stores)
    then show ?thesis using that by (simp add: link_call_prog_def)
  qed
  show "link_call_prog m = Ret RUNTIME_BLE_ERR_INVALID" if "\<not> link_call_valid m"
    using that by (simp add: link_call_prog_def)
  show "is_access link_take_prog \<and> sat (\<lambda>_ _. True) (post_keeps (\<lambda>_. True) link_pending link_rely_post)
      (fetch_ends (\<lambda>_. True) link_pending link_rely_post) link_take_prog s"
    by (simp add: link_take_prog_def swap_def sat_access channel_accesses link_pending_def link_rely_post_def)
  show "True \<and> link_rely_post s s' \<and> True \<and> link_pending s' = link_pending s" if "link_outside s s'"
    using that by (simp add: link_outside_def link_rely_post_def link_pending_def)
qed simp_all

section \<open>The connect command\<close>

definition put_addr :: "u8 list \<Rightarrow> shared \<Rightarrow> shared" where
  "put_addr b s = s\<lparr>CENTRAL_ADDR := b\<rparr>"

definition central_cmd_prog :: "features \<Rightarrow> u32 \<Rightarrow> u32 \<Rightarrow> (shared, c_int) prog" where
  "central_cmd_prog f cmd handle =
     (if f_central f then
        load CENTRAL_CMD (\<lambda>waiting.
          if waiting \<noteq> CCMD_NONE then Ret RUNTIME_BLE_ERR_NO_MEM
          else store (\<lambda>s. s\<lparr>CENTRAL_HANDLE := handle\<rparr>)
                 (store (\<lambda>s. s\<lparr>CENTRAL_CMD := cmd\<rparr>) (Ret RUNTIME_BLE_OK)))
      else Ret RUNTIME_BLE_ERR_INVALID)"

definition connect_addr_prog :: "features \<Rightarrow> u8 ptr \<times> u8 \<Rightarrow> (shared, c_int) prog" where
  "connect_addr_prog f m =
     (if f_central f then
        (case fst m of
           None \<Rightarrow> Ret RUNTIME_BLE_ERR_INVALID
         | Some addr \<Rightarrow>
             copy_in CENTRAL_ADDR put_addr (from_raw_parts addr 6) 0
               (store (\<lambda>s. s\<lparr>CENTRAL_ADDR_KIND := ucast (snd m)\<rparr>) (central_cmd_prog f CCMD_CONNECT 0)))
      else Ret RUNTIME_BLE_ERR_INVALID)"

definition wait_idle_prog :: "(shared, idle_cmd option option) prog" where
  "wait_idle_prog =
     load UNLOAD_REQ (\<lambda>unload.
       if unload then Ret (Some None)
       else swap CENTRAL_CMD (\<lambda>s. s\<lparr>CENTRAL_CMD := CCMD_NONE\<rparr>) (\<lambda>cmd.
         if cmd = CCMD_CONNECT then
           copy_out CENTRAL_ADDR 6 [] (\<lambda>a. load CENTRAL_ADDR_KIND (\<lambda>kind. Ret (Some (Some (IdleConnect a (ucast kind))))))
         else if cmd = CCMD_SCAN_START then Ret (Some (Some IdleScanStart))
         else Ret None))"

lemma exec_connect_addr:
  assumes "central_inv s"
  shows "exec (connect_addr_prog f (addr, kind)) s =
     (Some (fst (runtime_ble_connect_addr f addr kind s)), snd (runtime_ble_connect_addr f addr kind s))"
  using assms
  by (auto simp: connect_addr_prog_def runtime_ble_connect_addr_def central_cmd_prog_def central_cmd_def put_addr_def
      central_inv_def exec_copy_in split: option.split)

lemma exec_wait_idle:
  assumes "central_inv s"
  shows "exec wait_idle_prog s = (Some (fst (wait_idle_turn s)), snd (wait_idle_turn s))"
  using assms
  by (auto simp: wait_idle_prog_def wait_idle_turn_def Let_def central_inv_def queued_peer_def exec_copy_out0)

section \<open>Properties\<close>


definition link_moves :: "(link_call, shared) move list" where
  "link_moves = [CallBegin 0 (SetPhy 2), CallAccess 0, FetchBegin, CallAccess 0, CallAccess 0, CallBegin 0 ReadRssi,
     CallAccess 0, FetchAccess]"


text \<open>C34 (connect_address_torn). \<^verbatim>\<open>wait_idle_cmd\<close> frees the command word before it reads the address.
  One application thread that connects to a peer and then, the first call accepted, to
  another one can find the word free between the two: both calls are accepted, and the
  runtime connects to an address made of bytes of both, which nobody asked for.\<close>

definition connect_moves :: "(u8 ptr \<times> u8, shared) move list" where
  "connect_moves = CallBegin 0 (Some (\<lambda>i. 0xA0 + of_nat i), 0) # replicate 10 (CallAccess 0)
     @ FetchBegin # replicate 5 FetchAccess
     @ CallBegin 0 (Some (\<lambda>i. 0xB0 + of_nat i), 0) # replicate 10 (CallAccess 0)
     @ replicate 4 FetchAccess"


end
