(* ===== verification/Spec2Isabelle.thy ===== *)
theory Spec2Isabelle
  imports Interrupts ZephyrHeap Executor CallPrograms CommandPrograms
begin

text \<open>
  A verification library for zephyr-runtime-ble, a Bluetooth LE runtime in Rust for Zephyr
  (\<^verbatim>\<open>rust/src/lib.rs\<close> and \<^verbatim>\<open>rust/src/radio.rs\<close>).

  \<^bold>\<open>The program.\<close> An application configures the runtime with \<^verbatim>\<open>runtime_ble_init\<close>, starts a
  session on a dedicated thread with \<^verbatim>\<open>runtime_ble_run\<close> and talks to it from its own threads:
  each API call checks its arguments, stores them in static atomics and buffers, and raises a
  request flag or posts a command word; the session's cooperative tasks poll these, drive the
  Bluetooth host (the crate \<^verbatim>\<open>trouble_host\<close>) and report to the application by callbacks.

  \<^bold>\<open>The theories\<close>, bottom up, each with the code it models:
    \<^item> Prelude: machine integers, C pointers and slices, little-endian codecs, bit masks.
    \<^item> External: what is outside the repository, as parameters (bounded vectors, address kinds
      and keys, GAP constants, Cargo features).
    \<^item> Config: the C ABI configuration, the callbacks, \<^verbatim>\<open>runtime_ble_init\<close> and the flat
      \<^verbatim>\<open>RuntimeCfg\<close>. A callback is an output event; one that returns data is a function.
    \<^item> Codes: the translations between the C numbering and the host's types.
    \<^item> Mailbox: the interface (a locale) of every channel between the application and the
      session; five components interpret it on their own state.
    \<^item> Shared: one record field per static of \<^verbatim>\<open>lib.rs\<close>, and the invariant the API keeps.
    \<^item> TxApi, LinkApi, BondApi, CentralApi, L2cap: the API calls of each group and the taking
      half of the loop that serves them; Api: all calls together, and \<^verbatim>\<open>runtime_ble_run\<close>'s resets.
    \<^item> LinkControl: what the session does for a link command.
    \<^item> Bonds, BondSlots, BondStore: the bond blob, the slot table and the bond commands, and
      the contract with the application's storage over sessions.
    \<^item> AdvPayload, Advertise: advertising data (legacy and extended interpret one locale), the
      parameters, and the requests that start advertising.
    \<^item> ConnEvents: the connection event handlers of both roles.
    \<^item> Gatt, GattServer: the attribute table with its heap buffers, the index computed by
      \<^verbatim>\<open>runtime_ble_char_index\<close>, and the requests and transmissions served from it.
    \<^item> Client, Scan: the GATT client's commands and notifications over a peer, and scanning with
      the reports it delivers.
    \<^item> Runs: runs of step relations with outputs, and the two locales every task below
      interprets on its own steps (an invariant with well-formed outputs; connections
      bracketed by their callbacks).
    \<^item> Peripheral, CentralLoop, Session: the tasks as step relations, one configuration per
      program point, the host's events and the application's calls in any interleaving: the
      peripheral role, the central role, and all tasks of a session over one shared state.
    \<^item> Texts, SdcBuild: text in bounded buffers, and the calls that configure the controller
      (\<^verbatim>\<open>chip/nrf54l.rs\<close>; \<^verbatim>\<open>chip/nrf52.rs\<close> has the same code).
    \<^item> Load: a load/unload cycle from \<^verbatim>\<open>runtime_ble_run\<close> to the release of every box.
    \<^item> Glue: \<^verbatim>\<open>runtime_ble_load\<close> and \<^verbatim>\<open>runtime_ble_unload\<close> of \<^verbatim>\<open>glue/glue.c\<close> around
      the runtime thread; the cycle of Load is shown to be such a thread.
    \<^item> Access: calls as programs of single loads, stores, swaps and byte copies, any number of
      threads interleaved access by access, what a program promises while others interfere,
      and two locales (one posting thread is a mailbox; accesses stay in bounds).
      CallPrograms and CommandPrograms interpret them on the transmit queue and the link
      commands, and show that each program run alone is the call of the theories above.
    \<^item> Interrupts: the handlers the chip modules bind and their shims, the vector table and
      the lines \<^verbatim>\<open>glue/glue.c\<close> switches with a session, and the address it derives.
    \<^item> Executor: \<^verbatim>\<open>block_on\<close> and its semaphore, the time driver and its alarm, and the panic
      message.
    \<^item> ZephyrHeap: the global allocator over the laws of the Zephyr heap.

  \<^bold>\<open>Modelling conventions.\<close> An operation on the statics is a function
  \<^verbatim>\<open>shared \<Rightarrow> c_int \<times> shared\<close>; a task's turn returns the requests and callbacks it makes, in
  order, with the new state. The cooperative executor runs one task at a time and switches
  only where a task awaits, so a task's turn between two awaits is one step; which task runs
  next, what the host answers and which calls the application makes are left open. Loops that
  poll are runs of such steps or lists of turns, so no fuel is needed. Integers keep their
  width; \<^verbatim>\<open>usize\<close> has 32 bits, as on the targets. Log strings are without their terminating
  NUL, except where the theory Texts follows the bytes.

  \<^bold>\<open>The results.\<close> The API keeps the invariant of the statics under every sequence of calls and
  is free of effects when it refuses an argument; each channel is a one-place FIFO, and what
  a refused call may still change is stated. What a call asks for is what the session does
  (link commands, transmissions, client operations, scans, connections). Bonds survive
  sessions; payloads are well-formed and within what the controller was built for; the
  attribute table agrees with the index computed from the configuration, and requests reach
  their own callback. Over every interleaving of a session the invariants hold, connections
  are bracketed and an unload request ends it; a load reports its outcome once and returns
  all of its memory; the executor loses no wake-up and the alarm no deadline; around it,
  unless a join gives up, a thread never runs without its stack. Treating a call as one step
  is justified where it is right (one application thread, for the transmit queue and the
  command words) and refuted where it is not (two senders; the parameters behind a
  command word). Some results pin down where the code does not do what it means to; the manifest lists them as findings.

  \<^bold>\<open>Not modelled.\<close> The lists of hardware resources handed to the controller (\<^verbatim>\<open>chip/*.rs\<close>),
  which hold no state of the program; what the vendor's interrupt handlers do; and the crates,
  which are parameters. Memory is sequentially consistent, which the acquire loads and release
  stores of the flags justify for what they publish.
\<close>

end
